(* ===== verification/Go_Prelude.thy ===== *)
theory Go_Prelude
  imports Complex_Main "HOL-Library.AList" "HOL-Library.Multiset" "HOL-Library.Sublist"
    "HOL-Library.Word" "HOL-Library.Char_ord" "HOL-Library.List_Lexorder"
    "HOL-Library.Product_Lexorder"
begin

text \<open>
  The part of Go and of its standard library the components share.

  \<^item> \<open>time.Time\<close> is the number of nanoseconds since Go's zero time, so \<open>IsZero\<close> is
    \<open>t = 0\<close>; \<open>time.Duration\<close> is a number of nanoseconds, and \<open>Sub\<close> saturates at the ends of
    the 64-bit range as Go's does.
  \<^item> A Go map that the code iterates over is an association list with distinct keys: the
    list order is one of the iteration orders Go may choose, and the theorems hold for every
    list, hence for every order. A map that is only looked up is a \<open>'k \<rightharpoonup> 'v\<close>.
  \<^item> \<open>sort.Slice\<close> by a key is \<open>sort_key\<close>; the theorems use only that the result is a
    sorted permutation of the input, except where the order is total.
  \<^item> Strings are byte lists; \<open>strings.TrimSpace\<close> and \<open>strings.Fields\<close> know ASCII white space.
  \<^item> \<open>fmt.Sprintf\<close> with numeric verbs is kept as the format and its arguments.
\<close>

named_theorems go_simps \<open>unfolding rules of the Go library model\<close>

section \<open>Time\<close>

type_synonym time = int
type_synonym duration = int

abbreviation millisecond :: duration where "millisecond \<equiv> 1000000"
abbreviation second :: duration where "second \<equiv> 1000000000"
abbreviation minute :: duration where "minute \<equiv> 60000000000"
abbreviation hour :: duration where "hour \<equiv> 3600000000000"

definition time_IsZero :: "time \<Rightarrow> bool" where
  [go_simps]: "time_IsZero t \<longleftrightarrow> t = 0"

definition time_Sub :: "time \<Rightarrow> time \<Rightarrow> duration" where
  "time_Sub t u = max (- (2 ^ 63)) (min (2 ^ 63 - 1) (t - u))"

definition time_Unix :: "time \<Rightarrow> int" where
  "time_Unix t = (t - 62135596800 * second) div second"

definition go_quot :: "int \<Rightarrow> int \<Rightarrow> int" where
  "go_quot a b = sgn a * sgn b * (\<bar>a\<bar> div \<bar>b\<bar>)"

text \<open>Saturation is invisible to a comparison with a duration inside the range.\<close>

lemma time_Sub_less [simp]:
  "- (2 ^ 63) < d \<Longrightarrow> d \<le> 2 ^ 63 - 1 \<Longrightarrow> time_Sub t u < d \<longleftrightarrow> t - u < d"
  unfolding time_Sub_def by linarith

lemma time_Sub_le [simp]:
  "- (2 ^ 63) \<le> d \<Longrightarrow> d < 2 ^ 63 - 1 \<Longrightarrow> time_Sub t u \<le> d \<longleftrightarrow> t - u \<le> d"
  unfolding time_Sub_def by linarith

lemma less_time_Sub [simp]:
  "- (2 ^ 63) \<le> d \<Longrightarrow> d < 2 ^ 63 - 1 \<Longrightarrow> d < time_Sub t u \<longleftrightarrow> d < t - u"
  unfolding time_Sub_def by linarith

lemma le_time_Sub [simp]:
  "- (2 ^ 63) < d \<Longrightarrow> d \<le> 2 ^ 63 - 1 \<Longrightarrow> d \<le> time_Sub t u \<longleftrightarrow> d \<le> t - u"
  unfolding time_Sub_def by linarith

lemma time_Sub_self [simp]: "time_Sub t t = 0"
  by (simp add: time_Sub_def)

section \<open>Formatted text\<close>

datatype fmt_arg = ArgS string | ArgD int | ArgF real | ArgDate int

datatype gotext = Lit string | Fmt string "fmt_arg list" | Cat gotext gotext

text \<open>The UTF-8 bytes of the em dash and of the ellipsis in the source's literals.\<close>

definition em_dash :: string where
  "em_dash = [CHR 0xE2, CHR 0x80, CHR 0x94]"

definition ellipsis :: string where
  "ellipsis = [CHR 0xE2, CHR 0x80, CHR 0xA6]"

section \<open>Slices\<close>

text \<open>\<open>if len(xs) > n { xs = xs[len(xs)-n:] }\<close>: the newest \<open>n\<close> elements.\<close>

definition keep_last :: "nat \<Rightarrow> 'a list \<Rightarrow> 'a list" where
  "keep_last n xs = (if n < length xs then drop (length xs - n) xs else xs)"

lemma length_keep_last [simp]: "length (keep_last n xs) = min n (length xs)"
  by (simp add: keep_last_def)

lemma keep_last_id: "length xs \<le> n \<Longrightarrow> keep_last n xs = xs"
  by (simp add: keep_last_def)

lemma suffix_keep_last: "suffix (keep_last n xs) xs"
  by (auto simp: keep_last_def suffix_drop)

lemma set_keep_last: "set (keep_last n xs) \<subseteq> set xs"
  by (auto simp: keep_last_def dest: in_set_dropD)

lemma distinct_keep_last: "distinct xs \<Longrightarrow> distinct (keep_last n xs)"
  by (simp add: keep_last_def)

lemma map_keep_last: "map f (keep_last n xs) = keep_last n (map f xs)"
  by (simp add: keep_last_def drop_map)

lemma sorted_keep_last: "sorted xs \<Longrightarrow> sorted (keep_last n xs)"
  by (simp add: keep_last_def sorted_wrt_drop)

lemma last_keep_last: "xs \<noteq> [] \<Longrightarrow> 0 < n \<Longrightarrow> last (keep_last n xs) = last xs"
  by (simp add: keep_last_def)

lemma keep_last_nonempty: "xs \<noteq> [] \<Longrightarrow> 0 < n \<Longrightarrow> keep_last n xs \<noteq> []"
  by (metis length_keep_last length_greater_0_conv min_less_iff_conj)

lemma find_SomeD: "find P xs = Some x \<Longrightarrow> P x \<and> x \<in> set xs"
  by (induction xs) (auto split: if_splits)

lemma find_NoneD: "find P xs = None \<longleftrightarrow> (\<forall>x \<in> set xs. \<not> P x)"
  by (induction xs) auto

lemma sorted_map_last: "sorted (map f xs) \<Longrightarrow> x \<in> set xs \<Longrightarrow> f x \<le> f (last xs)"
  by (cases xs rule: rev_cases) (auto simp: sorted_append)

section \<open>Maps the code iterates over\<close>

type_synonym ('k, 'v) gomap = "('k \<times> 'v) list"

abbreviation map_put :: "'k \<Rightarrow> 'v \<Rightarrow> ('k, 'v) gomap \<Rightarrow> ('k, 'v) gomap" where
  "map_put \<equiv> AList.update"

abbreviation map_del :: "'k \<Rightarrow> ('k, 'v) gomap \<Rightarrow> ('k, 'v) gomap" where
  "map_del \<equiv> AList.delete"

definition gomap_ok :: "('k, 'v) gomap \<Rightarrow> bool" where
  "gomap_ok m \<longleftrightarrow> distinct (map fst m)"

lemma gomap_ok_Nil [simp]: "gomap_ok []"
  by (simp add: gomap_ok_def)

lemma gomap_ok_put [simp]: "gomap_ok m \<Longrightarrow> gomap_ok (map_put k v m)"
  by (simp add: gomap_ok_def distinct_update)

lemma gomap_ok_del [simp]: "gomap_ok m \<Longrightarrow> gomap_ok (map_del k m)"
  by (simp add: gomap_ok_def distinct_delete)

lemma gomap_ok_filter [simp]: "gomap_ok m \<Longrightarrow> gomap_ok (filter P m)"
  by (simp add: gomap_ok_def distinct_map_filter)

lemma gomap_ok_map_snd: "gomap_ok m \<Longrightarrow> gomap_ok (map (\<lambda>(k, v). (k, f v)) m)"
  by (induction m) (auto simp: gomap_ok_def split_def)

lemma lookup_put [simp]: "map_of (map_put k v m) j = (if j = k then Some v else map_of m j)"
  by (simp add: update_conv)

lemma lookup_del [simp]: "map_of (map_del k m) j = (if j = k then None else map_of m j)"
  by (simp add: delete_conv)

lemma gomap_lookup_iff: "gomap_ok m \<Longrightarrow> map_of m k = Some v \<longleftrightarrow> (k, v) \<in> set m"
  by (simp add: gomap_ok_def)

lemma in_map_put:
  "gomap_ok m \<Longrightarrow> (j, w) \<in> set (map_put k v m) \<longleftrightarrow> (if j = k then w = v else (j, w) \<in> set m)"
  using gomap_lookup_iff [of "map_put k v m" j w] gomap_lookup_iff [of m j w] by auto

lemma in_map_del: "(j, w) \<in> set (map_del k m) \<longleftrightarrow> j \<noteq> k \<and> (j, w) \<in> set m"
  by (auto simp: AList.delete_eq)

lemmas gomap_lookup = in_map_put in_map_del gomap_lookup_iff

section \<open>Sorting\<close>

text \<open>
  Two lists with the same elements sort to the same list when the key is injective on them:
  the result of \<open>sort.Slice\<close> then does not depend on the order the elements arrive in.
\<close>


lemma sort_key_perm_unique:
  assumes "mset xs = mset ys" and "inj_on f (set xs)"
  shows "sort_key f xs = sort_key f ys"
proof (rule map_inj_on [where f = f])
  have "mset (map f (sort_key f xs)) = mset (map f (sort_key f ys))"
    using assms(1) by simp
  then show "map f (sort_key f xs) = map f (sort_key f ys)"
    by (metis properties_for_sort sorted_sort_key)
  show "inj_on f (set (sort_key f xs) \<union> set (sort_key f ys))"
    using assms mset_eq_setD [OF assms(1)] by simp
qed

end
