(* ===== verification/Go_Strings.thy ===== *)
theory Go_Strings
  imports Go_Prelude
begin

text \<open>
  Go's packages \<open>strings\<close> and \<open>strconv\<close>, as far as the components use them. A string is the list of
  its bytes. White space is ASCII white space and case folding is ASCII case folding; \<open>Split\<close>,
  \<open>ReplaceAll\<close> and \<open>IndexByte\<close> occur with one-byte separators only. \<open>Atoi\<close> returns Go's pair of
  value and success, with the value Go gives on failure: 0 on a syntax error, the nearest
  representable number when out of range.
\<close>

named_theorems text_simps \<open>facts about cutting and joining text\<close>

section \<open>Definitions\<close>

definition is_space :: "char \<Rightarrow> bool" where
  "is_space c \<longleftrightarrow> c \<in> {CHR '' '', CHR 0x09, CHR 0x0A, CHR 0x0B, CHR 0x0C, CHR 0x0D}"

text \<open>The white space of a regular expression: vertical tab is not part of it.\<close>

definition re_space :: "char \<Rightarrow> bool" where
  "re_space c \<longleftrightarrow> c \<in> {CHR '' '', CHR 0x09, CHR 0x0A, CHR 0x0C, CHR 0x0D}"

definition TrimSpace :: "string \<Rightarrow> string" where
  "TrimSpace s = rev (dropWhile is_space (rev (dropWhile is_space s)))"

definition TrimRight :: "string \<Rightarrow> string \<Rightarrow> string" where
  "TrimRight s cutset = rev (dropWhile (\<lambda>c. c \<in> set cutset) (rev s))"

definition HasPrefix :: "string \<Rightarrow> string \<Rightarrow> bool" where
  "HasPrefix s p \<longleftrightarrow> take (length p) s = p"

definition HasSuffix :: "string \<Rightarrow> string \<Rightarrow> bool" where
  "HasSuffix s p \<longleftrightarrow> HasPrefix (rev s) (rev p)"

definition TrimPrefix :: "string \<Rightarrow> string \<Rightarrow> string" where
  "TrimPrefix s p = (if HasPrefix s p then drop (length p) s else s)"

definition TrimSuffix :: "string \<Rightarrow> string \<Rightarrow> string" where
  "TrimSuffix s p = (if HasSuffix s p then take (length s - length p) s else s)"

fun split_by :: "(char \<Rightarrow> bool) \<Rightarrow> string \<Rightarrow> string list" where
  "split_by P [] = [[]]"
| "split_by P (c # s) = (if P c then [] # split_by P s
     else (case split_by P s of [] \<Rightarrow> [[c]] | w # ws \<Rightarrow> (c # w) # ws))"

abbreviation Split :: "string \<Rightarrow> char \<Rightarrow> string list" where
  "Split s c \<equiv> split_by (\<lambda>x. x = c) s"

definition FieldsFunc :: "string \<Rightarrow> (char \<Rightarrow> bool) \<Rightarrow> string list" where
  "FieldsFunc s P = filter (\<lambda>w. w \<noteq> []) (split_by P s)"

definition Fields :: "string \<Rightarrow> string list" where
  "Fields s = FieldsFunc s is_space"

fun Join :: "string list \<Rightarrow> string \<Rightarrow> string" where
  "Join [] sep = []"
| "Join [w] sep = w"
| "Join (w # ws) sep = w @ sep @ Join ws sep"

fun Index :: "string \<Rightarrow> string \<Rightarrow> nat option" where
  "Index [] sub = (if sub = [] then Some 0 else None)"
| "Index (c # s) sub = (if HasPrefix (c # s) sub then Some 0 else map_option Suc (Index s sub))"

definition Contains :: "string \<Rightarrow> string \<Rightarrow> bool" where
  "Contains s sub \<longleftrightarrow> Index s sub \<noteq> None"

definition ContainsAny :: "string \<Rightarrow> string \<Rightarrow> bool" where
  "ContainsAny s cs \<longleftrightarrow> list_ex (\<lambda>c. c \<in> set cs) s"

fun index_of :: "char \<Rightarrow> string \<Rightarrow> nat option" where
  "index_of c [] = None"
| "index_of c (x # xs) = (if x = c then Some 0 else map_option Suc (index_of c xs))"

definition last_index_of :: "char \<Rightarrow> string \<Rightarrow> nat option" where
  "last_index_of c s = map_option (\<lambda>j. length s - 1 - j) (index_of c (rev s))"

definition ReplaceAll :: "string \<Rightarrow> char \<Rightarrow> string \<Rightarrow> string" where
  "ReplaceAll s c r = concat (map (\<lambda>x. if x = c then r else [x]) s)"

definition lower_char :: "char \<Rightarrow> char" where
  "lower_char c = (if 65 \<le> (of_char c :: nat) \<and> of_char c \<le> (90 :: nat) then char_of (of_char c + 32 :: nat) else c)"

definition upper_char :: "char \<Rightarrow> char" where
  "upper_char c = (if 97 \<le> (of_char c :: nat) \<and> of_char c \<le> (122 :: nat) then char_of (of_char c - 32 :: nat) else c)"

definition ToLower :: "string \<Rightarrow> string" where "ToLower s = map lower_char s"
definition ToUpper :: "string \<Rightarrow> string" where "ToUpper s = map upper_char s"

definition EqualFold :: "string \<Rightarrow> string \<Rightarrow> bool" where
  "EqualFold s t \<longleftrightarrow> ToLower s = ToLower t"

definition is_digit :: "char \<Rightarrow> bool" where
  "is_digit c \<longleftrightarrow> 48 \<le> (of_char c :: nat) \<and> of_char c \<le> (57 :: nat)"

definition digit_val :: "char \<Rightarrow> int" where
  "digit_val c = int (of_char c) - 48"

definition decimal :: "string \<Rightarrow> int" where
  "decimal s = foldl (\<lambda>n c. 10 * n + digit_val c) 0 s"

abbreviation max_int :: int where "max_int \<equiv> 2 ^ 63 - 1"

definition Atoi :: "string \<Rightarrow> int \<times> bool" where
  "Atoi s =
     (let neg = (s \<noteq> [] \<and> hd s = CHR ''-'');
          ds = (if s \<noteq> [] \<and> hd s \<in> {CHR ''+'', CHR ''-''} then tl s else s);
          n = decimal ds
      in if ds = [] \<or> \<not> list_all is_digit ds then (0, False)
         else if neg then (if n > 2 ^ 63 then (- (2 ^ 63), False) else (- n, True))
         else (if n > max_int then (max_int, False) else (n, True)))"

definition digit_char :: "nat \<Rightarrow> char" where
  "digit_char d = char_of (48 + d)"

fun Itoa :: "nat \<Rightarrow> string" where
  "Itoa n = (if n < 10 then [digit_char n] else Itoa (n div 10) @ [digit_char (n mod 10)])"

declare Itoa.simps [simp del]

definition is_letter :: "char \<Rightarrow> bool" where
  "is_letter c \<longleftrightarrow> (65 \<le> (of_char c :: nat) \<and> of_char c \<le> (90 :: nat)) \<or> (97 \<le> (of_char c :: nat) \<and> of_char c \<le> (122 :: nat))"

definition plain :: "string \<Rightarrow> bool" where
  "plain w \<longleftrightarrow> w \<noteq> [] \<and> (\<forall>c \<in> set w. \<not> is_space c)"

section \<open>Prefixes\<close>

lemma HasPrefix_prefix: "HasPrefix s p \<longleftrightarrow> prefix p s"
  by (metis HasPrefix_def append_eq_conv_conj append_take_drop_id prefixE prefixI)

lemma HasPrefix_append [text_simps]: "HasPrefix (p @ s) p"
  by (simp add: HasPrefix_def)

lemma TrimPrefix_append [text_simps]: "TrimPrefix (p @ s) p = s"
  by (simp add: TrimPrefix_def HasPrefix_append)

lemma Index_prefix: "HasPrefix s sub \<Longrightarrow> Index s sub = Some 0"
  by (cases s) (auto simp: HasPrefix_def)

lemma Index_char: "Index s [c] = index_of c s"
  by (induction s) (auto simp: HasPrefix_def)

lemma index_of_None: "index_of c s = None \<longleftrightarrow> c \<notin> set s"
  by (induction s) auto

lemma Contains_char: "Contains s [c] \<longleftrightarrow> c \<in> set s"
  by (simp add: Contains_def Index_char index_of_None)

lemma index_of_append: "c \<notin> set a \<Longrightarrow> index_of c (a @ c # b) = Some (length a)"
  by (induction a) auto

lemma ContainsAny_iff: "ContainsAny s cs \<longleftrightarrow> (\<exists>c \<in> set s. c \<in> set cs)"
  by (simp add: ContainsAny_def list_ex_iff)

section \<open>White space\<close>

lemma TrimSpace_Nil [simp]: "TrimSpace [] = []"
  by (simp add: TrimSpace_def)

lemma TrimSpace_plain: "\<forall>c \<in> set s. \<not> is_space c \<Longrightarrow> TrimSpace s = s"
  unfolding TrimSpace_def by (metis dropWhile_eq_self_iff hd_in_set list.set_sel(1) rev_rev_ident set_rev)

lemma TrimSpace_decomp:
  obtains a b where "s = a @ TrimSpace s @ b" "\<forall>c \<in> set a. is_space c" "\<forall>c \<in> set b. is_space c"
proof -
  define t where "t = dropWhile is_space s"
  have "s = takeWhile is_space s @ t" by (simp add: t_def)
  moreover have "t = TrimSpace s @ rev (takeWhile is_space (rev t))"
    unfolding TrimSpace_def t_def [symmetric] by (metis rev_append rev_rev_ident takeWhile_dropWhile_id)
  ultimately show ?thesis
    by (intro that [of "takeWhile is_space s" "rev (takeWhile is_space (rev t))"])
      (auto dest: set_takeWhileD simp flip: append.assoc)
qed

lemma set_TrimSpace: "set (TrimSpace s) \<subseteq> set s"
  by (metis TrimSpace_decomp set_append sup.cobounded1 sup.coboundedI2 sup_commute)

lemma TrimSpace_eq_Nil: "TrimSpace s = [] \<longleftrightarrow> (\<forall>c \<in> set s. is_space c)"
proof -
  have "TrimSpace s = [] \<longleftrightarrow> (\<forall>c \<in> set (dropWhile is_space s). is_space c)"
    by (simp add: TrimSpace_def dropWhile_eq_Nil_conv)
  also have "\<dots> \<longleftrightarrow> dropWhile is_space s = []"
    by (metis hd_dropWhile hd_in_set list.set(1) empty_iff)
  finally show ?thesis by (simp add: dropWhile_eq_Nil_conv)
qed

lemma hd_TrimSpace: "TrimSpace s \<noteq> [] \<Longrightarrow> \<not> is_space (hd (TrimSpace s))"
proof -
  assume ne: "TrimSpace s \<noteq> []"
  define t where "t = dropWhile is_space s"
  obtain b where b: "t = TrimSpace s @ b"
    unfolding TrimSpace_def t_def [symmetric] by (metis rev_append rev_rev_ident takeWhile_dropWhile_id)
  then have "t \<noteq> []" "hd t = hd (TrimSpace s)" using ne by auto
  then show ?thesis by (metis hd_dropWhile t_def)
qed

lemma last_TrimSpace: "TrimSpace s \<noteq> [] \<Longrightarrow> \<not> is_space (last (TrimSpace s))"
  unfolding TrimSpace_def by (metis hd_dropWhile last_rev rev_is_Nil_conv)

text \<open>A text is trimmed when it neither starts nor ends with white space.\<close>

lemma TrimSpace_id: "s = [] \<or> (\<not> is_space (hd s) \<and> \<not> is_space (last s)) \<Longrightarrow> TrimSpace s = s"
  by (metis TrimSpace_def dropWhile_eq_self_iff hd_rev rev_rev_ident rev_is_Nil_conv)

lemma TrimSpace_idem [simp]: "TrimSpace (TrimSpace s) = TrimSpace s"
  by (metis TrimSpace_id hd_TrimSpace last_TrimSpace)

lemma TrimSpace_space: "is_space c \<Longrightarrow> TrimSpace (c # s) = TrimSpace s"
  by (simp add: TrimSpace_def)

lemma plain_simps [simp]:
  "\<not> plain []" "plain [c] \<longleftrightarrow> \<not> is_space c"
  by (simp_all add: plain_def)

lemma plain_append: "plain a \<Longrightarrow> plain b \<Longrightarrow> plain (a @ b)"
  by (auto simp: plain_def)

lemma plain_TrimSpace: "plain w \<Longrightarrow> TrimSpace w = w"
  by (simp add: plain_def TrimSpace_plain)

section \<open>Splitting and joining\<close>

lemma split_by_nonempty [simp]: "split_by P s \<noteq> []"
  by (cases s) (auto split: list.split)

lemma split_by_none: "(\<forall>c \<in> set s. \<not> P c) \<Longrightarrow> split_by P s = [s]"
  by (induction s) auto

lemma split_by_append: "\<forall>c \<in> set w. \<not> P c \<Longrightarrow> P x \<Longrightarrow> split_by P (w @ x # s) = w # split_by P s"
  by (induction w) auto

lemma split_by_pieces: "w \<in> set (split_by P s) \<Longrightarrow> c \<in> set w \<Longrightarrow> \<not> P c \<and> c \<in> set s"
proof (induction s arbitrary: w)
  case (Cons x s)
  then show ?case
    using split_by_nonempty [of P s] by (cases "split_by P s") (fastforce split: if_splits)+
qed simp

lemma Join_Cons: "ws \<noteq> [] \<Longrightarrow> Join (w # ws) sep = w @ sep @ Join ws sep"
  by (cases ws) simp_all

lemma set_Join: "x \<in> set (Join ws sep) \<Longrightarrow> (\<exists>w \<in> set ws. x \<in> set w) \<or> x \<in> set sep"
  by (induction ws sep rule: Join.induct) auto

text \<open>Joining undoes splitting, and splitting undoes joining of pieces free of the separator.\<close>

lemma Join_Split: "Join (Split s c) [c] = s"
proof (induction s)
  case (Cons x s)
  obtain w ws where "Split s c = w # ws" using split_by_nonempty by (metis list.exhaust)
  with Cons show ?case by (cases ws) auto
qed simp

lemma Split_Join: "ws \<noteq> [] \<Longrightarrow> \<forall>w \<in> set ws. c \<notin> set w \<Longrightarrow> Split (Join ws [c]) c = ws"
proof (induction ws "[c]" rule: Join.induct)
  case (3 w v vs)
  moreover have "\<forall>x \<in> set w. x \<noteq> c" using 3 by auto
  ultimately show ?case by (simp add: split_by_append)
qed (auto intro: split_by_none)

lemma Split_Join_final: "\<forall>w \<in> set ws. c \<notin> set w \<Longrightarrow> ws \<noteq> [] \<Longrightarrow> Split (Join ws [c] @ [c]) c = ws @ [[]]"
proof (induction ws "[c]" rule: Join.induct)
  case (3 w v vs)
  moreover have "\<forall>x \<in> set w. x \<noteq> c" using 3 by auto
  ultimately show ?case by (simp add: split_by_append)
next
  case (2 w)
  then have "\<forall>x \<in> set w. x \<noteq> c" by auto
  then show ?case by (simp add: split_by_append)
qed simp

section \<open>Fields\<close>

lemma Fields_Nil [simp]: "Fields [] = []"
  by (simp add: Fields_def FieldsFunc_def)

lemma Fields_space [simp]: "is_space c \<Longrightarrow> Fields (c # s) = Fields s"
  by (simp add: Fields_def FieldsFunc_def)

lemma Fields_spaces: "\<forall>c \<in> set a. is_space c \<Longrightarrow> Fields (a @ s) = Fields s"
  by (induction a) auto

lemma Fields_plain: "plain w \<Longrightarrow> Fields w = [w]"
  by (simp add: plain_def Fields_def FieldsFunc_def split_by_none)

lemma Fields_word: "plain w \<Longrightarrow> is_space c \<Longrightarrow> Fields (w @ c # s) = w # Fields s"
  by (simp add: plain_def Fields_def FieldsFunc_def split_by_append)

lemma plain_Fields: "w \<in> set (Fields s) \<Longrightarrow> plain w"
  by (auto simp: Fields_def FieldsFunc_def plain_def dest: split_by_pieces)

lemma Fields_Nil_iff: "Fields s = [] \<longleftrightarrow> (\<forall>c \<in> set s. is_space c)"
proof (induction s)
  case (Cons x s)
  show ?case
  proof (cases "is_space x")
    case False
    have "Fields (x # s) \<noteq> []"
      using False split_by_nonempty [of is_space s]
      by (cases "split_by is_space s") (auto simp: Fields_def FieldsFunc_def)
    then show ?thesis using False by simp
  qed (use Cons in simp)
qed simp

lemma Fields_unwords: "\<forall>w \<in> set ws. plain w \<Longrightarrow> Fields (Join ws '' '') = ws"
proof (induction ws "'' ''" rule: Join.induct)
  case (3 w v vs)
  then show ?case by (simp add: Fields_word is_space_def)
qed (auto simp: Fields_plain)

section \<open>Case and replacement\<close>

lemma set_ReplaceAll: "x \<in> set (ReplaceAll s c r) \<Longrightarrow> (x \<in> set s \<and> x \<noteq> c) \<or> (c \<in> set s \<and> x \<in> set r)"
  by (auto simp: ReplaceAll_def split: if_splits)

lemma ReplaceAll_absent: "c \<notin> set s \<Longrightarrow> ReplaceAll s c r = s"
  by (induction s) (auto simp: ReplaceAll_def)

lemma ReplaceAll_append: "ReplaceAll (a @ b) c r = ReplaceAll a c r @ ReplaceAll b c r"
  by (simp add: ReplaceAll_def)

lemma char_code: "(of_char c :: nat) = n \<longleftrightarrow> n < 256 \<and> c = char_of n"
  by (metis char_of_char of_char_mod_256 mod_less mod_less_divisor of_char_of zero_less_numeral)

lemma of_char_lower:
  "(of_char (lower_char c) :: nat) = (if 65 \<le> (of_char c :: nat) \<and> of_char c \<le> (90 :: nat) then of_char c + 32 else of_char c)"
  by (simp add: lower_char_def)

lemma space_code: "is_space c \<longleftrightarrow> (of_char c :: nat) \<in> {9, 10, 11, 12, 13, 32}"
proof -
  have codes: "char_of (9 :: nat) = CHR 0x09" "char_of (10 :: nat) = CHR 0x0A" "char_of (11 :: nat) = CHR 0x0B"
    "char_of (12 :: nat) = CHR 0x0C" "char_of (13 :: nat) = CHR 0x0D" "char_of (32 :: nat) = CHR 0x20"
    by code_simp+
  show ?thesis by (simp add: is_space_def char_code codes) blast
qed

lemma plain_ToLower: "plain s \<Longrightarrow> plain (ToLower s)"
  by (auto simp: plain_def ToLower_def space_code of_char_lower split: if_splits)

lemma ToLower_append [text_simps]: "ToLower (a @ b) = ToLower a @ ToLower b"
  by (simp add: ToLower_def)

section \<open>Numbers\<close>

lemma digit_char_val [simp]: "d < 10 \<Longrightarrow> digit_val (digit_char d) = int d"
  by (simp add: digit_val_def digit_char_def)

lemma is_digit_char [simp]: "d < 10 \<Longrightarrow> is_digit (digit_char d)"
  by (simp add: is_digit_def digit_char_def)

lemma decimal_snoc: "decimal (s @ [c]) = 10 * decimal s + digit_val c"
  by (simp add: decimal_def)

lemma Itoa_ne [simp]: "Itoa n \<noteq> []"
  by (subst Itoa.simps) simp

lemma Itoa_digits: "list_all is_digit (Itoa n)"
proof (induction n rule: Itoa.induct)
  case (1 n)
  then show ?case by (subst Itoa.simps) simp
qed

lemma decimal_Itoa: "decimal (Itoa n) = int n"
proof (induction n rule: Itoa.induct)
  case (1 n)
  then show ?case
    by (subst Itoa.simps) (auto simp: decimal_snoc decimal_def [of "[_]"] zmod_int zdiv_int)
qed

lemma digit_not_sign: "is_digit c \<Longrightarrow> c \<noteq> CHR ''+'' \<and> c \<noteq> CHR ''-'' \<and> \<not> is_space c \<and> c \<noteq> CHR '':'' \<and> c \<noteq> CHR '',''"
  by (auto simp: is_digit_def is_space_def)

lemma Itoa_char: "c \<in> set (Itoa n) \<Longrightarrow> is_digit c"
  using Itoa_digits [of n] by (simp add: list_all_iff)

lemma plain_Itoa [simp]: "plain (Itoa n)"
  by (simp add: plain_def) (meson Itoa_char digit_not_sign)

lemma Atoi_digits:
  assumes "s \<noteq> []" and "list_all is_digit s"
  shows "Atoi s = (if decimal s > max_int then (max_int, False) else (decimal s, True))"
proof -
  have "hd s \<notin> {CHR ''+'', CHR ''-''}" using assms digit_not_sign by (auto simp: list_all_iff)
  then show ?thesis using assms by (auto simp: Atoi_def Let_def)
qed

lemma Atoi_Itoa: "int n \<le> max_int \<Longrightarrow> Atoi (Itoa n) = (int n, True)"
  by (simp add: Atoi_digits Itoa_digits decimal_Itoa)

lemma Itoa_inj: "Itoa m = Itoa n \<longleftrightarrow> m = n"
  by (metis decimal_Itoa of_nat_eq_iff)

end
