(* ===== verification/Shared_Models.thy ===== *)
theory Shared_Models
  imports Go_Strings
begin

text \<open>
  The data types of \<^verbatim>\<open>src/shared/models.go\<close> the modelled components exchange, and the pure
  functions of package \<^verbatim>\<open>shared\<close> over them: \<open>EffectiveThresholds\<close>
  (\<^verbatim>\<open>shared/thresholds.go\<close>), \<open>SampleFrom\<close> (\<^verbatim>\<open>shared/sample.go\<close>), \<open>LookupMetric\<close>
  (\<^verbatim>\<open>shared/plugin/manifest.go\<close>) and the backend's \<open>statusFor\<close>. Struct fields no modelled
  function reads (kernel version, image lists, container ports and the like) are left out;
  \<open>float64\<close> is \<open>real\<close>, \<open>uint64\<close> is \<open>64 word\<close>.
\<close>

section \<open>Enumerations\<close>

datatype vps_status =
    VPSOnline | VPSOffline | VPSHighLoad | VPSPending | VPSAgentDown | VPSRestarting | VPSPoweredOff

datatype alert_severity = SeverityInfo | SeverityWarning | SeverityCritical

datatype alert_type =
    AlertCPUHigh | AlertMemHigh | AlertDiskHigh | AlertServiceDown | AlertDockerCrash
  | AlertProxyError | AlertCertExpiring | AlertAgentOffline | AlertAgentDown
  | AlertPluginMetric | AlertPlugin

fun severity_str :: "alert_severity \<Rightarrow> string" where
  "severity_str SeverityInfo = ''info''"
| "severity_str SeverityWarning = ''warning''"
| "severity_str SeverityCritical = ''critical''"

fun alert_type_str :: "alert_type \<Rightarrow> string" where
  "alert_type_str AlertCPUHigh = ''cpu_high''"
| "alert_type_str AlertMemHigh = ''mem_high''"
| "alert_type_str AlertDiskHigh = ''disk_high''"
| "alert_type_str AlertServiceDown = ''service_down''"
| "alert_type_str AlertDockerCrash = ''docker_crash''"
| "alert_type_str AlertProxyError = ''proxy_error''"
| "alert_type_str AlertCertExpiring = ''cert_expiring''"
| "alert_type_str AlertAgentOffline = ''agent_offline''"
| "alert_type_str AlertAgentDown = ''agent_down''"
| "alert_type_str AlertPluginMetric = ''plugin_metric''"
| "alert_type_str AlertPlugin = ''plugin''"

datatype proxy_provider = ProxyProviderCaddy | ProxyProviderNPM | ProxyProviderNone | ProxyProviderUnset

abbreviation TransportTailscale :: string where "TransportTailscale \<equiv> ''tailscale''"
abbreviation TransportWireGuard :: string where "TransportWireGuard \<equiv> ''wireguard''"

section \<open>Records\<close>

record vps_thresholds =
  th_CPUHigh :: real
  th_MemHigh :: real
  th_DiskHigh :: real
  th_Plugins :: "string \<rightharpoonup> real"

record vps =
  vps_ID :: string
  vps_Name :: string
  vps_Host :: string
  vps_TailscaleName :: string
  vps_PublicIP :: string
  vps_LanIP :: string
  vps_Transport :: string
  vps_WGEndpoint :: string
  vps_WGTunnelIP :: string
  vps_WGPublicKey :: string
  vps_Latitude :: real
  vps_Longitude :: real
  vps_Location :: string
  vps_Weight :: int
  vps_Status :: vps_status
  vps_Thresholds :: "vps_thresholds option"
  vps_AgentPort :: int
  vps_AgentVer :: string
  vps_AgentDigest :: string
  vps_Arch :: string
  vps_CreatedAt :: time
  vps_LastSeen :: time

definition IsWireGuard :: "vps \<Rightarrow> bool" where
  "IsWireGuard v \<longleftrightarrow> vps_Transport v = TransportWireGuard"

record disk_usage =
  du_Mount :: string
  du_UsedPercent :: real
  du_FullAt :: "time option"

record network_stats =
  ns_RxPerSec :: "64 word"
  ns_TxPerSec :: "64 word"

record system_metrics =
  sm_Hostname :: string
  sm_CPUPercent :: real
  sm_MemPercent :: real
  sm_Disks :: "disk_usage list"
  sm_Load1 :: real
  sm_Network :: "network_stats list"
  sm_CollectedAt :: time
  sm_Plugins :: "(string, real) gomap"

record metric_sample =
  ms_At :: time
  ms_CPU :: real
  ms_Mem :: real
  ms_Disk :: real
  ms_RxPerS :: "64 word"
  ms_TxPerS :: "64 word"
  ms_Load1 :: real
  ms_Mounts :: "(string, real) gomap"
  ms_Plugins :: "(string, real) gomap"

record process_info =
  pi_PID :: int
  pi_Name :: string
  pi_User :: string
  pi_CPUPercent :: real
  pi_MemPercent :: real
  pi_Command :: string

record spike_process =
  sp_PID :: int
  sp_Name :: string
  sp_User :: string
  sp_CPUPercent :: real
  sp_MemPercent :: real
  sp_Command :: string

record spike_record =
  sr_At :: time
  sr_Metric :: string
  sr_Value :: real
  sr_Baseline :: real
  sr_Top :: "spike_process list"

record container_info =
  ci_ID :: string
  ci_Name :: string
  ci_State :: string
  ci_RestartCount :: int
  ci_ExitCode :: int

record docker_state =
  ds_Available :: bool
  ds_Error :: string
  ds_Containers :: "container_info list"

record systemd_unit =
  su_Name :: string
  su_ActiveState :: string

record port_info =
  po_Port :: int
  po_ProcessName :: string

record proxy_site =
  ps_Domain :: string
  ps_CertNotAfter :: "time option"

record proxy_state =
  px_Provider :: proxy_provider
  px_Running :: bool
  px_Sites :: "proxy_site list"
  px_LastError :: string

record vps_snapshot =
  sn_VPS :: vps
  sn_Metrics :: system_metrics
  sn_Docker :: docker_state
  sn_Services :: "systemd_unit list"
  sn_Proxy :: proxy_state
  sn_Ports :: "port_info list"
  sn_Updated :: time

record alert =
  al_ID :: string
  al_VPSID :: string
  al_VPSName :: string
  al_Type :: alert_type
  al_Severity :: alert_severity
  al_Message :: gotext
  al_Key :: string
  al_CreatedAt :: time
  al_Resolved :: bool

record action_log =
  ac_ID :: string
  ac_VPSID :: string
  ac_VPSName :: string
  ac_Action :: string
  ac_Detail :: string
  ac_OK :: bool
  ac_CreatedAt :: time

record vps_link =
  lk_ID :: string
  lk_FromVPSID :: string
  lk_ToVPSID :: string
  lk_LatencyMs :: real
  lk_PacketLoss :: real
  lk_Status :: string
  lk_CheckedAt :: time

record webhook_message =
  wm_Title :: string
  wm_Body :: gotext
  wm_Severity :: string
  wm_VPSID :: string
  wm_VPSName :: string
  wm_Alert :: string

record metric_def =
  md_Label :: string
  md_Unit :: string
  md_Warn :: real
  md_Crit :: real

section \<open>Go zero values\<close>

definition zero_vps :: vps where
  "zero_vps = \<lparr> vps_ID = [], vps_Name = [], vps_Host = [], vps_TailscaleName = [],
     vps_PublicIP = [], vps_LanIP = [], vps_Transport = [], vps_WGEndpoint = [],
     vps_WGTunnelIP = [], vps_WGPublicKey = [], vps_Latitude = 0, vps_Longitude = 0,
     vps_Location = [], vps_Weight = 0, vps_Status = VPSPending,
     vps_Thresholds = None, vps_AgentPort = 0, vps_AgentVer = [], vps_AgentDigest = [],
     vps_Arch = [], vps_CreatedAt = 0, vps_LastSeen = 0 \<rparr>"

definition zero_metrics :: system_metrics where
  "zero_metrics = \<lparr> sm_Hostname = [], sm_CPUPercent = 0, sm_MemPercent = 0, sm_Disks = [],
     sm_Load1 = 0, sm_Network = [], sm_CollectedAt = 0, sm_Plugins = [] \<rparr>"

definition zero_snapshot :: vps_snapshot where
  "zero_snapshot = \<lparr> sn_VPS = zero_vps, sn_Metrics = zero_metrics,
     sn_Docker = \<lparr> ds_Available = False, ds_Error = [], ds_Containers = [] \<rparr>,
     sn_Services = [],
     sn_Proxy = \<lparr> px_Provider = ProxyProviderUnset, px_Running = False, px_Sites = [],
                  px_LastError = [] \<rparr>,
     sn_Ports = [], sn_Updated = 0 \<rparr>"

section \<open>Alert thresholds\<close>

definition CPUHighPercent :: real where "CPUHighPercent = 85"
definition MemHighPercent :: real where "MemHighPercent = 90"
definition DiskHighPercent :: real where "DiskHighPercent = 90"
definition HighLoadCPUPercent :: real where "HighLoadCPUPercent = 75"
definition CPUClearPercent :: real where "CPUClearPercent = 75"
definition MemClearPercent :: real where "MemClearPercent = 82"
definition DiskClearPercent :: real where "DiskClearPercent = 85"

abbreviation SustainedSeconds :: int where "SustainedSeconds \<equiv> 10"
abbreviation OfflineAfterSec :: int where "OfflineAfterSec \<equiv> 45"
abbreviation DefaultAgentPort :: int where "DefaultAgentPort \<equiv> 8931"
abbreviation RestartExpectSec :: int where "RestartExpectSec \<equiv> 900"
abbreviation RestartLiveClearSec :: int where "RestartLiveClearSec \<equiv> 120"

lemmas threshold_defs =
  CPUHighPercent_def MemHighPercent_def DiskHighPercent_def HighLoadCPUPercent_def
  CPUClearPercent_def MemClearPercent_def DiskClearPercent_def

record thresholds =
  et_cpuHigh :: real
  et_memHigh :: real
  et_diskHigh :: real
  et_cpuClear :: real
  et_memClear :: real
  et_diskClear :: real

text \<open>One metric's override: the custom firing level, and its clear level dragged below it.\<close>

definition override :: "real \<Rightarrow> real \<Rightarrow> real \<Rightarrow> real \<times> real" where
  "override custom high clear =
     (if custom > 0 then (custom, if clear \<ge> custom then custom - 5 else clear)
      else (high, clear))"

definition at_least_zero :: "real \<Rightarrow> real" where
  "at_least_zero x = (if x < 0 then 0 else x)"

definition EffectiveThresholds :: "vps \<Rightarrow> thresholds" where
  "EffectiveThresholds v =
     (case vps_Thresholds v of
        None \<Rightarrow> \<lparr> et_cpuHigh = CPUHighPercent, et_memHigh = MemHighPercent,
                  et_diskHigh = DiskHighPercent, et_cpuClear = CPUClearPercent,
                  et_memClear = MemClearPercent, et_diskClear = DiskClearPercent \<rparr>
      | Some t \<Rightarrow>
          let (cpuHigh, cpuClear) = override (th_CPUHigh t) CPUHighPercent CPUClearPercent;
              (memHigh, memClear) = override (th_MemHigh t) MemHighPercent MemClearPercent;
              (diskHigh, diskClear) = override (th_DiskHigh t) DiskHighPercent DiskClearPercent
          in \<lparr> et_cpuHigh = cpuHigh, et_memHigh = memHigh, et_diskHigh = diskHigh,
               et_cpuClear = at_least_zero cpuClear, et_memClear = at_least_zero memClear,
               et_diskClear = at_least_zero diskClear \<rparr>)"

lemma override_hysteresis:
  "0 \<le> clear \<Longrightarrow> clear < high \<Longrightarrow> override custom high clear = (h, c)
   \<Longrightarrow> 0 \<le> at_least_zero c \<and> at_least_zero c < h"
  by (auto simp: override_def at_least_zero_def split: if_splits)

lemma EffectiveThresholds_hysteresis:
  "0 \<le> et_cpuClear (EffectiveThresholds v) \<and>
   et_cpuClear (EffectiveThresholds v) < et_cpuHigh (EffectiveThresholds v) \<and>
   0 \<le> et_memClear (EffectiveThresholds v) \<and>
   et_memClear (EffectiveThresholds v) < et_memHigh (EffectiveThresholds v) \<and>
   0 \<le> et_diskClear (EffectiveThresholds v) \<and>
   et_diskClear (EffectiveThresholds v) < et_diskHigh (EffectiveThresholds v)"
proof (cases "vps_Thresholds v")
  case None
  then show ?thesis by (simp add: EffectiveThresholds_def threshold_defs)
next
  case (Some t)
  obtain ch cc where c: "override (th_CPUHigh t) CPUHighPercent CPUClearPercent = (ch, cc)"
    by (metis surj_pair)
  obtain mh mc where m: "override (th_MemHigh t) MemHighPercent MemClearPercent = (mh, mc)"
    by (metis surj_pair)
  obtain dh dc where d: "override (th_DiskHigh t) DiskHighPercent DiskClearPercent = (dh, dc)"
    by (metis surj_pair)
  show ?thesis
    using Some c m d override_hysteresis [OF _ _ c] override_hysteresis [OF _ _ m]
      override_hysteresis [OF _ _ d]
    by (simp add: EffectiveThresholds_def threshold_defs)
qed

definition statusFor :: "system_metrics \<Rightarrow> vps_status" where
  "statusFor m = (if sm_CPUPercent m \<ge> HighLoadCPUPercent \<or> sm_MemPercent m \<ge> MemHighPercent
                  then VPSHighLoad else VPSOnline)"

section \<open>Samples\<close>

text \<open>\<open>math.Round\<close>: to the nearest integer, half away from zero.\<close>

definition go_Round :: "real \<Rightarrow> real" where
  "go_Round x = (if x < 0 then - of_int \<lfloor>- x + 1 / 2\<rfloor> else of_int \<lfloor>x + 1 / 2\<rfloor>)"

fun worst_disk :: "real \<Rightarrow> disk_usage list \<Rightarrow> real" where
  "worst_disk w [] = w"
| "worst_disk w (d # ds) = worst_disk (if du_UsedPercent d > w then du_UsedPercent d else w) ds"

fun disk_mounts :: "(string, real) gomap \<Rightarrow> disk_usage list \<Rightarrow> (string, real) gomap" where
  "disk_mounts m [] = m"
| "disk_mounts m (d # ds) =
     disk_mounts (map_put (du_Mount d) (go_Round (du_UsedPercent d * 10) / 10) m) ds"

definition SampleFrom :: "time \<Rightarrow> system_metrics \<Rightarrow> metric_sample" where
  "SampleFrom now m =
     \<lparr> ms_At = (if time_IsZero (sm_CollectedAt m) then now else sm_CollectedAt m),
       ms_CPU = sm_CPUPercent m, ms_Mem = sm_MemPercent m,
       ms_Disk = worst_disk 0 (sm_Disks m),
       ms_RxPerS = sum_list (map ns_RxPerSec (sm_Network m)),
       ms_TxPerS = sum_list (map ns_TxPerSec (sm_Network m)),
       ms_Load1 = sm_Load1 m, ms_Mounts = disk_mounts [] (sm_Disks m),
       ms_Plugins = sm_Plugins m \<rparr>"

lemma worst_disk_eq: "worst_disk w ds = Max (insert w (set (map du_UsedPercent ds)))"
proof (induction ds arbitrary: w)
  case (Cons d ds)
  have *: "Max (insert (if y > w then y else w) A) = Max (insert w (insert y A))"
    if "finite A" for A and y :: real
    using that by (cases "A = {}") (auto simp: max_def)
  show ?case
    using Cons.IH * [of "set (map du_UsedPercent ds)" "du_UsedPercent d"] by simp
qed simp

section \<open>Plugin metric lookup\<close>

definition CutSuffix_star :: "string \<Rightarrow> string option" where
  "CutSuffix_star k = (if k \<noteq> [] \<and> last k = CHR ''*'' then Some (butlast k) else None)"

definition wildcard_matches :: "string \<Rightarrow> string \<Rightarrow> bool" where
  "wildcard_matches name k \<longleftrightarrow>
     (case CutSuffix_star k of None \<Rightarrow> False | Some pre \<Rightarrow> HasPrefix name pre)"

fun best_wildcard :: "string \<Rightarrow> string \<Rightarrow> string list \<Rightarrow> string" where
  "best_wildcard name best [] = best"
| "best_wildcard name best (k # ks) =
     best_wildcard name (if wildcard_matches name k \<and> length k > length best then k else best) ks"

definition LookupMetric :: "(string, metric_def) gomap \<Rightarrow> string \<Rightarrow> metric_def option" where
  "LookupMetric defs name =
     (case map_of defs name of
        Some d \<Rightarrow> Some d
      | None \<Rightarrow>
          let best = best_wildcard name [] (map fst defs)
          in if best = [] then None else map_of defs best)"

lemma CutSuffix_star_Some: "CutSuffix_star k = Some p \<longleftrightarrow> k = p @ ''*''"
  unfolding CutSuffix_star_def by (metis append_butlast_last_id butlast_snoc last_snoc option.inject
      option.distinct(1) snoc_eq_iff_butlast)

lemma wildcard_matches_iff: "wildcard_matches name k \<longleftrightarrow> (\<exists>p. k = p @ ''*'' \<and> prefix p name)"
  by (auto simp: wildcard_matches_def HasPrefix_prefix CutSuffix_star_Some split: option.splits)
    (metis CutSuffix_star_Some option.distinct(1))

text \<open>Two matching wildcards of the same length are the same key.\<close>

lemma wildcard_matches_unique:
  "wildcard_matches name k \<Longrightarrow> wildcard_matches name j \<Longrightarrow> length k = length j \<Longrightarrow> k = j"
  by (auto simp: wildcard_matches_iff prefix_def append_eq_append_conv2)

lemma best_wildcard_spec:
  "best_wildcard name b ks \<in> insert b {k \<in> set ks. wildcard_matches name k} \<and>
   length b \<le> length (best_wildcard name b ks) \<and>
   (\<forall>k \<in> set ks. wildcard_matches name k \<longrightarrow> length k \<le> length (best_wildcard name b ks))"
proof (induction ks arbitrary: b)
  case (Cons k ks)
  show ?case
    using Cons.IH [of "if wildcard_matches name k \<and> length k > length b then k else b"]
    by (auto split: if_splits)
qed simp

lemma best_wildcard_set_eq:
  assumes "set ks = set js"
  shows "best_wildcard name [] ks = best_wildcard name [] js"
proof -
  have len: "length (best_wildcard name [] ks) = length (best_wildcard name [] js)"
    using best_wildcard_spec [of name "[]" ks] best_wildcard_spec [of name "[]" js] assms
    by (intro order_antisym) auto
  show ?thesis
  proof (cases "best_wildcard name [] ks = []")
    case True
    with len show ?thesis by simp
  next
    case False
    with len show ?thesis
      using best_wildcard_spec [of name "[]" ks] best_wildcard_spec [of name "[]" js]
      by (auto intro: wildcard_matches_unique)
  qed
qed

end
