(* ===== verification/Store.thy ===== *)
theory Store
  imports Shared_Models
begin

text \<open>
  The registry of \<^verbatim>\<open>src/backend/store.go\<close> and its WireGuard peers mirror
  (\<^verbatim>\<open>src/backend/wg_peers.go\<close>). The mutex makes every method atomic, so each method is one
  state transformer \<open>store \<Rightarrow> result \<times> store\<close>. Explicit parameters: \<open>now\<close> for the clock,
  \<open>st_rand\<close> for \<open>crypto/rand\<close> (the bytes of the \<open>i\<close>-th draw) and \<open>st_disk_ok\<close> for whether the
  file system accepts the write. \<open>st_disk\<close> and \<open>st_peersFile\<close> are what the two files hold.
\<close>

section \<open>State\<close>

record restart_marker =
  rm_Reason :: string
  rm_Restore :: bool
  rm_Since :: time

record vps_entry =
  en_VPS :: vps
  en_AgentToken :: string
  en_Restart :: "restart_marker option"
  en_WGPresharedKey :: string
  en_WGAgentKey :: string

record persisted_state =
  pe_VPS :: "(string, vps_entry) gomap"
  pe_Links :: "(string, vps_link) gomap"
  pe_Alerts :: "alert list"
  pe_Actions :: "action_log list"

record wg_peer_record =
  wr_ID :: string
  wr_Name :: string
  wr_Host :: string
  wr_Transport :: string
  wr_Endpoint :: string
  wr_TunnelIP :: string
  wr_PublicKey :: string
  wr_PSK :: string
  wr_AgentToken :: string
  wr_Pending :: bool

record store =
  st_state :: persisted_state
  st_snapshots :: "(string, vps_snapshot) gomap"
  st_dirty :: bool
  st_lastPeers :: "wg_peer_record list option"
  st_disk :: "persisted_state option"
  st_peersFile :: "wg_peer_record list option"
  st_disk_ok :: bool
  st_rand :: "nat \<Rightarrow> nat \<Rightarrow> 8 word list"
  st_draws :: nat

abbreviation st_VPS :: "store \<Rightarrow> (string, vps_entry) gomap" where
  "st_VPS s \<equiv> pe_VPS (st_state s)"
abbreviation st_Links :: "store \<Rightarrow> (string, vps_link) gomap" where
  "st_Links s \<equiv> pe_Links (st_state s)"
abbreviation st_Alerts :: "store \<Rightarrow> alert list" where
  "st_Alerts s \<equiv> pe_Alerts (st_state s)"
abbreviation st_Actions :: "store \<Rightarrow> action_log list" where
  "st_Actions s \<equiv> pe_Actions (st_state s)"

abbreviation set_VPS :: "(string, vps_entry) gomap \<Rightarrow> store \<Rightarrow> store" where
  "set_VPS m s \<equiv> s\<lparr>st_state := (st_state s)\<lparr>pe_VPS := m\<rparr>\<rparr>"
abbreviation set_Links :: "(string, vps_link) gomap \<Rightarrow> store \<Rightarrow> store" where
  "set_Links m s \<equiv> s\<lparr>st_state := (st_state s)\<lparr>pe_Links := m\<rparr>\<rparr>"
abbreviation set_Alerts :: "alert list \<Rightarrow> store \<Rightarrow> store" where
  "set_Alerts xs s \<equiv> s\<lparr>st_state := (st_state s)\<lparr>pe_Alerts := xs\<rparr>\<rparr>"
abbreviation set_Actions :: "action_log list \<Rightarrow> store \<Rightarrow> store" where
  "set_Actions xs s \<equiv> s\<lparr>st_state := (st_state s)\<lparr>pe_Actions := xs\<rparr>\<rparr>"

section \<open>Restart markers\<close>

definition MarkerStatus :: "restart_marker option \<Rightarrow> vps_status" where
  "MarkerStatus m = (case m of
      Some r \<Rightarrow> if rm_Reason r = ''poweroff'' then VPSPoweredOff else VPSRestarting
    | None \<Rightarrow> VPSRestarting)"

definition Fresh :: "time \<Rightarrow> restart_marker option \<Rightarrow> bool" where
  "Fresh now m = (case m of
      Some r \<Rightarrow> time_Sub now (rm_Since r) < RestartExpectSec * second
    | None \<Rightarrow> False)"

section \<open>Writing out\<close>

definition HasWireGuardPeer :: "vps_entry \<Rightarrow> bool" where
  "HasWireGuardPeer e \<longleftrightarrow> vps_WGPublicKey (en_VPS e) \<noteq> [] \<and> vps_WGTunnelIP (en_VPS e) \<noteq> []"

definition peer_record :: "vps_entry \<Rightarrow> wg_peer_record" where
  "peer_record e =
     \<lparr> wr_ID = vps_ID (en_VPS e), wr_Name = vps_Name (en_VPS e), wr_Host = vps_Host (en_VPS e),
       wr_Transport = vps_Transport (en_VPS e), wr_Endpoint = vps_WGEndpoint (en_VPS e),
       wr_TunnelIP = vps_WGTunnelIP (en_VPS e), wr_PublicKey = vps_WGPublicKey (en_VPS e),
       wr_PSK = en_WGPresharedKey e, wr_AgentToken = en_AgentToken e,
       wr_Pending = (vps_Status (en_VPS e) = VPSPending) \<rparr>"

definition peer_records :: "(string, vps_entry) gomap \<Rightarrow> wg_peer_record list" where
  "peer_records m = map peer_record (filter HasWireGuardPeer (map snd m))"

definition writePeersLocked :: "store \<Rightarrow> store" where
  "writePeersLocked s =
     (let recs = peer_records (st_VPS s) in
      if st_lastPeers s = Some recs \<or> \<not> st_disk_ok s then s
      else s\<lparr>st_peersFile := Some recs, st_lastPeers := Some recs\<rparr>)"

definition writeLocked :: "store \<Rightarrow> store" where
  "writeLocked s =
     (if st_disk_ok s then writePeersLocked (s\<lparr>st_disk := Some (st_state s)\<rparr>) else s)"

definition touchLocked :: "store \<Rightarrow> store" where
  "touchLocked s = s\<lparr>st_dirty := True\<rparr>"

definition persistLocked :: "store \<Rightarrow> store" where
  "persistLocked s = writeLocked (s\<lparr>st_dirty := False\<rparr>)"

definition Persist :: "store \<Rightarrow> store" where
  "Persist s = writeLocked (s\<lparr>st_dirty := False\<rparr>)"

definition FlushTick :: "store \<Rightarrow> store" where
  "FlushTick s = (if st_dirty s then writeLocked (s\<lparr>st_dirty := False\<rparr>) else s)"

section \<open>Random identifiers\<close>

definition hex_digit :: "8 word \<Rightarrow> char" where
  "hex_digit w = ''0123456789abcdef'' ! (unat w mod 16)"

definition hex_encode :: "8 word list \<Rightarrow> string" where
  "hex_encode bs = concat (map (\<lambda>b. [hex_digit (drop_bit 4 b), hex_digit b]) bs)"

definition newID :: "store \<Rightarrow> string \<times> store" where
  "newID s = (hex_encode (st_rand s (st_draws s) 8), s\<lparr>st_draws := Suc (st_draws s)\<rparr>)"

definition newToken :: "store \<Rightarrow> string \<times> store" where
  "newToken s = (hex_encode (st_rand s (st_draws s) 24), s\<lparr>st_draws := Suc (st_draws s)\<rparr>)"

section \<open>The VPS registry\<close>

definition find_entry :: "(vps_entry \<Rightarrow> bool) \<Rightarrow> store \<Rightarrow> vps_entry option" where
  "find_entry P s = find P (map snd (st_VPS s))"

definition GetVPS :: "string \<Rightarrow> store \<Rightarrow> vps_entry option" where
  "GetVPS i s = map_of (st_VPS s) i"

definition fresh_vps :: "time \<Rightarrow> string \<Rightarrow> string \<Rightarrow> string \<Rightarrow> vps_status \<Rightarrow> vps" where
  "fresh_vps now i name host st = zero_vps\<lparr>vps_ID := i, vps_Name := name, vps_Host := host,
     vps_Weight := 1, vps_Status := st, vps_AgentPort := DefaultAgentPort,
     vps_CreatedAt := now, vps_LastSeen := now\<rparr>"

definition plain_entry :: "vps \<Rightarrow> vps_entry" where
  "plain_entry v = \<lparr> en_VPS = v, en_AgentToken = [], en_Restart = None,
     en_WGPresharedKey = [], en_WGAgentKey = [] \<rparr>"

definition insert_entry :: "vps_entry \<Rightarrow> store \<Rightarrow> store" where
  "insert_entry e s = persistLocked (set_VPS (map_put (vps_ID (en_VPS e)) e (st_VPS s)) s)"

definition CreateVPS :: "time \<Rightarrow> string \<Rightarrow> string \<Rightarrow> string \<Rightarrow> store \<Rightarrow> vps_entry \<times> store" where
  "CreateVPS now name tailscaleName tailscaleIP s =
     (case find_entry (\<lambda>e. vps_TailscaleName (en_VPS e) = tailscaleName \<or>
                           (tailscaleIP \<noteq> [] \<and> vps_Host (en_VPS e) = tailscaleIP)) s of
        Some e \<Rightarrow> (e, s)
      | None \<Rightarrow>
          let (i, s1) = newID s;
              e = plain_entry ((fresh_vps now i name tailscaleIP VPSPending)
                                 \<lparr>vps_TailscaleName := tailscaleName\<rparr>)
          in (e, insert_entry e s1))"

text \<open>\<open>parse_addr\<close> is \<open>netip.ParseAddrPort\<close> followed by \<open>Addr().String()\<close>.\<close>

definition CreateWireGuardVPS ::
  "(string \<Rightarrow> string option) \<Rightarrow> time \<Rightarrow> string \<Rightarrow> string \<Rightarrow> string \<Rightarrow> string \<Rightarrow> string \<Rightarrow> string \<Rightarrow>
     store \<Rightarrow> vps_entry \<times> store" where
  "CreateWireGuardVPS parse_addr now name endpoint tunnelIP agentPub agentPriv psk s =
     (let host = (case parse_addr endpoint of Some h \<Rightarrow> h | None \<Rightarrow> endpoint);
          (i, s1) = newID s;
          v = (fresh_vps now i name host VPSPending)
                \<lparr>vps_Transport := TransportWireGuard, vps_WGEndpoint := endpoint,
                 vps_WGTunnelIP := tunnelIP, vps_WGPublicKey := agentPub\<rparr>;
          e = (plain_entry v)\<lparr>en_WGPresharedKey := psk, en_WGAgentKey := agentPriv\<rparr>
      in (e, insert_entry e s1))"

definition AutoRegisterVPS ::
  "time \<Rightarrow> string \<Rightarrow> string \<Rightarrow> int \<Rightarrow> string \<Rightarrow> store \<Rightarrow> vps_entry \<times> store" where
  "AutoRegisterVPS now hostname host agentPort agentVersion s =
     (let port = (if agentPort \<le> 0 then DefaultAgentPort else agentPort);
          name = (if hostname = [] then host else hostname);
          (i, s1) = newID s;
          (tok, s2) = newToken s1;
          e = (plain_entry ((fresh_vps now i name host VPSOnline)
                 \<lparr>vps_AgentPort := port, vps_AgentVer := agentVersion\<rparr>))\<lparr>en_AgentToken := tok\<rparr>
      in (e, insert_entry e s2))"

definition AdoptVPS ::
  "time \<Rightarrow> string \<Rightarrow> string \<Rightarrow> string \<Rightarrow> string \<Rightarrow> string \<Rightarrow> string \<Rightarrow> store \<Rightarrow> vps_entry \<times> store" where
  "AdoptVPS now vpsID token name host tailscaleName agentVer s =
     (let (i, s1) = (if vpsID = [] then newID s else (vpsID, s));
          (tok, s2) = (if token = [] then newToken s1 else (token, s1));
          n1 = (if name = [] then tailscaleName else name);
          n2 = (if n1 = [] then host else n1)
      in case map_of (st_VPS s2) i of
           Some e \<Rightarrow> (e, s2)
         | None \<Rightarrow>
             let e = (plain_entry ((fresh_vps now i n2 host VPSOnline)
                        \<lparr>vps_TailscaleName := tailscaleName, vps_AgentVer := agentVer\<rparr>))
                       \<lparr>en_AgentToken := tok\<rparr>
             in (e, insert_entry e s2))"

definition UpdateVPS ::
  "string \<Rightarrow> (vps_entry \<Rightarrow> vps_entry) \<Rightarrow> store \<Rightarrow> vps_entry option \<times> store" where
  "UpdateVPS i fn s =
     (case map_of (st_VPS s) i of
        None \<Rightarrow> (None, s)
      | Some e \<Rightarrow> (Some (fn e), touchLocked (set_VPS (map_put i (fn e) (st_VPS s)) s)))"

definition UpdateVPSNow ::
  "string \<Rightarrow> (vps_entry \<Rightarrow> vps_entry) \<Rightarrow> store \<Rightarrow> vps_entry option \<times> store" where
  "UpdateVPSNow i fn s =
     (case map_of (st_VPS s) i of
        None \<Rightarrow> (None, s)
      | Some e \<Rightarrow> (Some (fn e), persistLocked (set_VPS (map_put i (fn e) (st_VPS s)) s)))"

definition ListEntries :: "store \<Rightarrow> vps_entry list" where
  "ListEntries s = map snd (st_VPS s)"

definition FindByTunnelIP :: "string \<Rightarrow> store \<Rightarrow> vps_entry option" where
  "FindByTunnelIP ip = find_entry (\<lambda>e. HasWireGuardPeer e \<and> vps_WGTunnelIP (en_VPS e) = ip)"

definition tailscale_match :: "string \<Rightarrow> string \<Rightarrow> vps_entry \<Rightarrow> bool" where
  "tailscale_match name ip e \<longleftrightarrow>
     (name \<noteq> [] \<and> vps_TailscaleName (en_VPS e) = name) \<or> (ip \<noteq> [] \<and> vps_Host (en_VPS e) = ip)"

definition FindPendingByTailscale :: "string \<Rightarrow> string \<Rightarrow> store \<Rightarrow> vps_entry option" where
  "FindPendingByTailscale name ip =
     find_entry (\<lambda>e. \<not> (en_AgentToken e \<noteq> [] \<or> IsWireGuard (en_VPS e)) \<and> tailscale_match name ip e)"

definition FindByTailscale :: "string \<Rightarrow> string \<Rightarrow> store \<Rightarrow> vps_entry option" where
  "FindByTailscale name ip =
     find_entry (\<lambda>e. \<not> IsWireGuard (en_VPS e) \<and> tailscale_match name ip e)"

definition FindByToken :: "string \<Rightarrow> store \<Rightarrow> vps_entry option" where
  "FindByToken token = find_entry (\<lambda>e. en_AgentToken e \<noteq> [] \<and> en_AgentToken e = token)"

definition MarkRestart :: "time \<Rightarrow> string \<Rightarrow> string \<Rightarrow> bool \<Rightarrow> store \<Rightarrow> store" where
  "MarkRestart now i reason restore s =
     (case map_of (st_VPS s) i of
        None \<Rightarrow> s
      | Some e \<Rightarrow>
          let m = Some \<lparr> rm_Reason = reason, rm_Restore = restore, rm_Since = now \<rparr>;
              e' = e\<lparr>en_Restart := m, en_VPS := (en_VPS e)\<lparr>vps_Status := MarkerStatus m\<rparr>\<rparr>
          in persistLocked (set_VPS (map_put i e' (st_VPS s)) s))"

definition RestartMarker :: "string \<Rightarrow> store \<Rightarrow> restart_marker option" where
  "RestartMarker i s = Option.bind (map_of (st_VPS s) i) en_Restart"

definition ClearRestart :: "string \<Rightarrow> store \<Rightarrow> store" where
  "ClearRestart i s =
     (case map_of (st_VPS s) i of
        None \<Rightarrow> s
      | Some e \<Rightarrow> touchLocked (set_VPS (map_put i (e\<lparr>en_Restart := None\<rparr>) (st_VPS s)) s))"

definition DeleteVPS :: "string \<Rightarrow> store \<Rightarrow> bool \<times> store" where
  "DeleteVPS i s =
     (case map_of (st_VPS s) i of
        None \<Rightarrow> (False, s)
      | Some _ \<Rightarrow>
          let s1 = set_VPS (map_del i (st_VPS s)) s;
              s2 = s1\<lparr>st_snapshots := map_del i (st_snapshots s1)\<rparr>;
              s3 = set_Links (filter (\<lambda>(_, l). \<not> (lk_FromVPSID l = i \<or> lk_ToVPSID l = i)) (st_Links s2)) s2
          in (True, persistLocked s3))"

definition sortVPS :: "vps list \<Rightarrow> vps list" where
  "sortVPS = sort_key (\<lambda>v. (vps_CreatedAt v, vps_ID v))"

definition ListVPS :: "store \<Rightarrow> vps list" where
  "ListVPS s = sortVPS (map (en_VPS \<circ> snd) (st_VPS s))"

section \<open>Snapshots\<close>

definition ClearSnapshot :: "string \<Rightarrow> store \<Rightarrow> store" where
  "ClearSnapshot i s = s\<lparr>st_snapshots := map_del i (st_snapshots s)\<rparr>"

definition SetSnapshot :: "vps_snapshot \<Rightarrow> store \<Rightarrow> store" where
  "SetSnapshot sn s = s\<lparr>st_snapshots := map_put (vps_ID (sn_VPS sn)) sn (st_snapshots s)\<rparr>"

definition GetSnapshot :: "string \<Rightarrow> store \<Rightarrow> vps_snapshot option" where
  "GetSnapshot i s = map_of (st_snapshots s) i"

definition ListSnapshots :: "store \<Rightarrow> vps_snapshot list" where
  "ListSnapshots s = sort_key (\<lambda>sn. (vps_CreatedAt (sn_VPS sn), vps_ID (sn_VPS sn)))
                       (map snd (st_snapshots s))"

section \<open>Links\<close>

definition link_joins :: "string \<Rightarrow> string \<Rightarrow> vps_link \<Rightarrow> bool" where
  "link_joins a b l \<longleftrightarrow> (lk_FromVPSID l = a \<and> lk_ToVPSID l = b) \<or> (lk_FromVPSID l = b \<and> lk_ToVPSID l = a)"

definition CreateLink :: "string \<Rightarrow> string \<Rightarrow> store \<Rightarrow> vps_link \<times> store" where
  "CreateLink a b s =
     (case find (link_joins a b) (map snd (st_Links s)) of
        Some l \<Rightarrow> (l, s)
      | None \<Rightarrow>
          let (i, s1) = newID s;
              l = \<lparr> lk_ID = i, lk_FromVPSID = a, lk_ToVPSID = b, lk_LatencyMs = 0,
                    lk_PacketLoss = 0, lk_Status = ''unknown'', lk_CheckedAt = 0 \<rparr>
          in (l, persistLocked (set_Links (map_put i l (st_Links s1)) s1)))"

definition UpdateLink :: "string \<Rightarrow> (vps_link \<Rightarrow> vps_link) \<Rightarrow> store \<Rightarrow> vps_link option \<times> store" where
  "UpdateLink i fn s =
     (case map_of (st_Links s) i of
        None \<Rightarrow> (None, s)
      | Some l \<Rightarrow> (Some (fn l), persistLocked (set_Links (map_put i (fn l) (st_Links s)) s)))"

definition DeleteLink :: "string \<Rightarrow> store \<Rightarrow> bool \<times> store" where
  "DeleteLink i s =
     (case map_of (st_Links s) i of
        None \<Rightarrow> (False, s)
      | Some _ \<Rightarrow> (True, persistLocked (set_Links (map_del i (st_Links s)) s)))"

definition ListLinks :: "store \<Rightarrow> vps_link list" where
  "ListLinks s = map snd (st_Links s)"

section \<open>Alerts and the action log\<close>

definition maxAlerts :: nat where "maxAlerts = 500"
definition maxActions :: nat where "maxActions = 300"

definition AddAlert :: "time \<Rightarrow> alert \<Rightarrow> store \<Rightarrow> alert \<times> store" where
  "AddAlert now a s =
     (let (i, s1) = newID s;
          a' = a\<lparr>al_ID := i, al_CreatedAt := now\<rparr>
      in (a', persistLocked (set_Alerts (keep_last maxAlerts (st_Alerts s1 @ [a'])) s1)))"

definition open_for :: "string \<Rightarrow> alert_type \<Rightarrow> string \<Rightarrow> alert \<Rightarrow> bool" where
  "open_for vpsID t key a \<longleftrightarrow>
     \<not> (al_Resolved a \<or> al_VPSID a \<noteq> vpsID \<or> al_Type a \<noteq> t \<or> al_Key a \<noteq> key)"

definition ResolveAlertsFor ::
  "string \<Rightarrow> alert_type \<Rightarrow> string \<Rightarrow> store \<Rightarrow> alert list \<times> store" where
  "ResolveAlertsFor vpsID t key s =
     (let changed = map (\<lambda>a. a\<lparr>al_Resolved := True\<rparr>) (filter (open_for vpsID t key) (st_Alerts s));
          kept = filter (\<lambda>a. \<not> open_for vpsID t key a) (st_Alerts s)
      in (changed, if changed = [] then s else persistLocked (set_Alerts kept s)))"

definition PurgeResolvedAlerts :: "store \<Rightarrow> nat \<times> store" where
  "PurgeResolvedAlerts s =
     (let kept = filter (\<lambda>a. \<not> al_Resolved a) (st_Alerts s);
          removed = length (st_Alerts s) - length kept
      in (removed, if removed > 0 then persistLocked (set_Alerts kept s) else s))"

fun remove_first_id :: "string \<Rightarrow> alert list \<Rightarrow> alert list option" where
  "remove_first_id i [] = None"
| "remove_first_id i (a # as) =
     (if al_ID a \<noteq> i then map_option (Cons a) (remove_first_id i as) else Some as)"

definition ResolveAlert :: "string \<Rightarrow> store \<Rightarrow> bool \<times> store" where
  "ResolveAlert i s =
     (case remove_first_id i (st_Alerts s) of
        None \<Rightarrow> (False, s)
      | Some as \<Rightarrow> (True, persistLocked (set_Alerts as s)))"

definition ListAlerts :: "store \<Rightarrow> alert list" where
  "ListAlerts s = st_Alerts s"

definition AddAction :: "time \<Rightarrow> action_log \<Rightarrow> store \<Rightarrow> action_log \<times> store" where
  "AddAction now a s =
     (let (i, s1) = newID s;
          a' = a\<lparr>ac_ID := i, ac_CreatedAt := now\<rparr>
      in (a', persistLocked (set_Actions (keep_last maxActions (st_Actions s1 @ [a'])) s1)))"

definition ListActions :: "store \<Rightarrow> action_log list" where
  "ListActions s = st_Actions s"

section \<open>Start-up\<close>

definition restored_entry :: "time \<Rightarrow> wg_peer_record \<Rightarrow> vps_entry" where
  "restored_entry now r =
     (plain_entry ((fresh_vps now (wr_ID r) (wr_Name r) (wr_Host r)
                      (if wr_Pending r then VPSPending else VPSOffline))
        \<lparr>vps_Transport := wr_Transport r, vps_WGEndpoint := wr_Endpoint r,
         vps_WGTunnelIP := wr_TunnelIP r, vps_WGPublicKey := wr_PublicKey r\<rparr>))
       \<lparr>en_WGPresharedKey := wr_PSK r, en_AgentToken := wr_AgentToken r\<rparr>"

fun restoreWGPeers ::
  "time \<Rightarrow> wg_peer_record list \<Rightarrow> (string, vps_entry) gomap \<Rightarrow> (string, vps_entry) gomap" where
  "restoreWGPeers now [] m = m"
| "restoreWGPeers now (r # rs) m =
     (if wr_ID r = [] \<or> wr_PublicKey r = [] \<or> wr_TunnelIP r = [] \<or> map_of m (wr_ID r) \<noteq> None
      then restoreWGPeers now rs m
      else restoreWGPeers now rs (map_put (wr_ID r) (restored_entry now r) m))"

definition start_entry :: "time \<Rightarrow> vps_entry \<Rightarrow> vps_entry" where
  "start_entry now e =
     (if vps_Status (en_VPS e) = VPSPending then e
      else if en_Restart e \<noteq> None \<and> Fresh now (en_Restart e)
      then e\<lparr>en_VPS := (en_VPS e)\<lparr>vps_Status := MarkerStatus (en_Restart e)\<rparr>\<rparr>
      else e\<lparr>en_Restart := None, en_VPS := (en_VPS e)\<lparr>vps_Status := VPSOffline\<rparr>\<rparr>)"

definition empty_state :: persisted_state where
  "empty_state = \<lparr> pe_VPS = [], pe_Links = [], pe_Alerts = [], pe_Actions = [] \<rparr>"

text \<open>\<open>disk\<close> and \<open>peers\<close> are the decoded files, \<open>None\<close> when absent or unreadable.\<close>

definition NewStore ::
  "time \<Rightarrow> persisted_state option \<Rightarrow> wg_peer_record list option \<Rightarrow> bool \<Rightarrow>
     (nat \<Rightarrow> nat \<Rightarrow> 8 word list) \<Rightarrow> store" where
  "NewStore now disk peers ok rnd =
     (let st0 = (case disk of Some st \<Rightarrow> st | None \<Rightarrow> empty_state);
          m = restoreWGPeers now (case peers of Some rs \<Rightarrow> rs | None \<Rightarrow> []) (pe_VPS st0);
          st1 = st0\<lparr>pe_VPS := map (\<lambda>(k, e). (k, start_entry now e)) m\<rparr>
      in \<lparr> st_state = st1, st_snapshots = [], st_dirty = False, st_lastPeers = None,
           st_disk = disk, st_peersFile = peers, st_disk_ok = ok, st_rand = rnd, st_draws = 0 \<rparr>)"

end
