(* ===== verification/Store_Laws.thy ===== *)
theory Store_Laws
  imports Store
begin

text \<open>
  Laws of the registry: what each method reads and writes, the well-formedness every method
  keeps, durability of the two files, and the two interfaces the other components use the
  registry through (\<open>alert_table\<close> and \<open>vps_registry\<close>) with their interpretations.
\<close>

named_theorems store_frame \<open>fields an operation leaves alone\<close>

section \<open>Frame lemmas\<close>

lemma writePeersLocked_frame [store_frame, simp]:
  "st_state (writePeersLocked s) = st_state s"
  "st_snapshots (writePeersLocked s) = st_snapshots s"
  "st_dirty (writePeersLocked s) = st_dirty s"
  "st_disk (writePeersLocked s) = st_disk s"
  "st_disk_ok (writePeersLocked s) = st_disk_ok s"
  "st_rand (writePeersLocked s) = st_rand s"
  "st_draws (writePeersLocked s) = st_draws s"
  by (simp_all add: writePeersLocked_def Let_def)

lemma writeLocked_frame [store_frame, simp]:
  "st_state (writeLocked s) = st_state s"
  "st_snapshots (writeLocked s) = st_snapshots s"
  "st_dirty (writeLocked s) = st_dirty s"
  "st_disk_ok (writeLocked s) = st_disk_ok s"
  "st_rand (writeLocked s) = st_rand s"
  "st_draws (writeLocked s) = st_draws s"
  by (simp_all add: writeLocked_def)

lemma persistLocked_frame [store_frame, simp]:
  "st_state (persistLocked s) = st_state s"
  "st_snapshots (persistLocked s) = st_snapshots s"
  "\<not> st_dirty (persistLocked s)"
  "st_disk_ok (persistLocked s) = st_disk_ok s"
  "st_rand (persistLocked s) = st_rand s"
  "st_draws (persistLocked s) = st_draws s"
  by (simp_all add: persistLocked_def)

lemma touchLocked_frame [store_frame, simp]:
  "st_state (touchLocked s) = st_state s"
  "st_snapshots (touchLocked s) = st_snapshots s"
  "st_dirty (touchLocked s)"
  "st_disk_ok (touchLocked s) = st_disk_ok s"
  by (simp_all add: touchLocked_def)

lemma newID_frame [store_frame]:
  "newID s = (i, s') \<Longrightarrow> st_state s' = st_state s \<and> st_snapshots s' = st_snapshots s \<and>
     st_dirty s' = st_dirty s \<and> st_disk s' = st_disk s \<and> st_disk_ok s' = st_disk_ok s \<and>
     st_lastPeers s' = st_lastPeers s \<and> st_peersFile s' = st_peersFile s"
  by (auto simp: newID_def)

lemma newToken_frame [store_frame]:
  "newToken s = (i, s') \<Longrightarrow> st_state s' = st_state s \<and> st_snapshots s' = st_snapshots s \<and>
     st_dirty s' = st_dirty s \<and> st_disk s' = st_disk s \<and> st_disk_ok s' = st_disk_ok s \<and>
     st_lastPeers s' = st_lastPeers s \<and> st_peersFile s' = st_peersFile s"
  by (auto simp: newToken_def)

lemma disk_persistLocked [simp]:
  "st_disk_ok s \<Longrightarrow> st_disk (persistLocked s) = Some (st_state s)"
  by (simp add: persistLocked_def writeLocked_def)

lemma find_entry_Some:
  "find_entry P s = Some e \<Longrightarrow> P e \<and> (\<exists>k. (k, e) \<in> set (st_VPS s))"
  unfolding find_entry_def by (drule find_SomeD) fastforce

lemma find_entry_None: "find_entry P s = None \<longleftrightarrow> (\<forall>(k, e) \<in> set (st_VPS s). \<not> P e)"
  by (auto simp: find_entry_def find_None_iff)

section \<open>Identifiers drawn at random carry no separator\<close>

lemma hex_digit_in: "hex_digit w \<in> set ''0123456789abcdef''"
  unfolding hex_digit_def by (rule nth_mem) simp

lemma hex_encode_set: "set (hex_encode bs) \<subseteq> set ''0123456789abcdef''"
  unfolding hex_encode_def using hex_digit_in by auto

lemma hex_encode_no_bar: "CHR ''|'' \<notin> set (hex_encode bs)"
  using hex_encode_set [of bs] by auto

section \<open>Well-formedness\<close>

definition state_wf :: "persisted_state \<Rightarrow> bool" where
  "state_wf st \<longleftrightarrow>
     gomap_ok (pe_VPS st) \<and> (\<forall>(k, e) \<in> set (pe_VPS st). vps_ID (en_VPS e) = k) \<and>
     gomap_ok (pe_Links st) \<and> (\<forall>(k, l) \<in> set (pe_Links st). lk_ID l = k) \<and>
     length (pe_Alerts st) \<le> maxAlerts \<and> length (pe_Actions st) \<le> maxActions"

definition store_wf :: "store \<Rightarrow> bool" where
  "store_wf s \<longleftrightarrow> state_wf (st_state s) \<and>
     gomap_ok (st_snapshots s) \<and> (\<forall>(k, sn) \<in> set (st_snapshots s). vps_ID (sn_VPS sn) = k)"

lemma store_wf_cong:
  "st_state s' = st_state s \<Longrightarrow> st_snapshots s' = st_snapshots s \<Longrightarrow> store_wf s' = store_wf s"
  by (simp add: store_wf_def)

lemma store_wf_persist [simp]: "store_wf (persistLocked s) = store_wf s"
  by (simp add: store_wf_def)

lemma store_wf_touch [simp]: "store_wf (touchLocked s) = store_wf s"
  by (simp add: store_wf_def)

lemma state_wf_put_VPS:
  "state_wf st \<Longrightarrow> vps_ID (en_VPS e) = k \<Longrightarrow> state_wf (st\<lparr>pe_VPS := map_put k e (pe_VPS st)\<rparr>)"
  by (auto simp: state_wf_def in_map_put split: if_splits)

lemma store_wf_put_VPS:
  "store_wf s \<Longrightarrow> vps_ID (en_VPS e) = k \<Longrightarrow> store_wf (set_VPS (map_put k e (st_VPS s)) s)"
  by (simp add: store_wf_def state_wf_put_VPS)

lemma store_wf_put_Links:
  "store_wf s \<Longrightarrow> lk_ID l = k \<Longrightarrow> store_wf (set_Links (map_put k l (st_Links s)) s)"
  by (auto simp: store_wf_def state_wf_def in_map_put split: if_splits)

lemma store_wf_Alerts:
  "store_wf s \<Longrightarrow> length xs \<le> maxAlerts \<Longrightarrow> store_wf (set_Alerts xs s)"
  by (simp add: store_wf_def state_wf_def)

lemma store_wf_Actions:
  "store_wf s \<Longrightarrow> length xs \<le> maxActions \<Longrightarrow> store_wf (set_Actions xs s)"
  by (simp add: store_wf_def state_wf_def)

lemma store_wf_key: "store_wf s \<Longrightarrow> (k, e) \<in> set (st_VPS s) \<Longrightarrow> vps_ID (en_VPS e) = k"
  by (auto simp: store_wf_def state_wf_def)

lemma store_wf_lookup: "store_wf s \<Longrightarrow> map_of (st_VPS s) k = Some e \<Longrightarrow> vps_ID (en_VPS e) = k"
  using map_of_SomeD store_wf_key by fastforce

lemma store_wf_gomap [simp]: "store_wf s \<Longrightarrow> gomap_ok (st_VPS s)"
  by (simp add: store_wf_def state_wf_def)

subsection \<open>Every method keeps it\<close>

named_theorems wf_intros \<open>preservation of the registry invariant, one rule per method\<close>

lemma insert_entry_wf [wf_intros]: "store_wf s \<Longrightarrow> store_wf (insert_entry e s)"
  by (simp add: insert_entry_def store_wf_put_VPS)

lemma newID_wf [wf_intros]: "store_wf s \<Longrightarrow> store_wf (snd (newID s))"
  by (simp add: newID_def store_wf_def)

lemma newToken_wf [wf_intros]: "store_wf s \<Longrightarrow> store_wf (snd (newToken s))"
  by (simp add: newToken_def store_wf_def)

lemma CreateVPS_wf [wf_intros]: "store_wf s \<Longrightarrow> store_wf (snd (CreateVPS now n tn ip s))"
  by (auto simp: CreateVPS_def Let_def split_def insert_entry_wf newID_wf split: option.splits)

lemma CreateWireGuardVPS_wf [wf_intros]:
  "store_wf s \<Longrightarrow> store_wf (snd (CreateWireGuardVPS pa now n ep tip pub priv psk s))"
  by (simp add: CreateWireGuardVPS_def Let_def split_def insert_entry_wf newID_wf)

lemma AutoRegisterVPS_wf [wf_intros]:
  "store_wf s \<Longrightarrow> store_wf (snd (AutoRegisterVPS now hn h p v s))"
  by (simp add: AutoRegisterVPS_def Let_def split_def insert_entry_wf newID_wf newToken_wf)

lemma AdoptVPS_wf [wf_intros]:
  "store_wf s \<Longrightarrow> store_wf (snd (AdoptVPS now i tok n h tn v s))"
  by (auto simp: AdoptVPS_def Let_def split_def insert_entry_wf newID_wf newToken_wf
      split: option.splits)

lemma UpdateVPS_wf [wf_intros]:
  assumes "store_wf s" and "\<And>e. vps_ID (en_VPS (fn e)) = vps_ID (en_VPS e)"
  shows "store_wf (snd (UpdateVPS i fn s))"
  using assms by (auto simp: UpdateVPS_def store_wf_put_VPS store_wf_lookup split: option.splits)

lemma UpdateVPSNow_wf [wf_intros]:
  assumes "store_wf s" and "\<And>e. vps_ID (en_VPS (fn e)) = vps_ID (en_VPS e)"
  shows "store_wf (snd (UpdateVPSNow i fn s))"
  using assms by (auto simp: UpdateVPSNow_def store_wf_put_VPS store_wf_lookup split: option.splits)

lemma MarkRestart_wf [wf_intros]: "store_wf s \<Longrightarrow> store_wf (MarkRestart now i r b s)"
  by (auto simp: MarkRestart_def Let_def store_wf_put_VPS store_wf_lookup split: option.splits)

lemma ClearRestart_wf [wf_intros]: "store_wf s \<Longrightarrow> store_wf (ClearRestart i s)"
  by (auto simp: ClearRestart_def store_wf_put_VPS store_wf_lookup split: option.splits)

lemma DeleteVPS_wf [wf_intros]: "store_wf s \<Longrightarrow> store_wf (snd (DeleteVPS i s))"
  by (auto simp: DeleteVPS_def Let_def store_wf_def state_wf_def in_map_del split: option.splits)

lemma ClearSnapshot_wf [wf_intros]: "store_wf s \<Longrightarrow> store_wf (ClearSnapshot i s)"
  by (auto simp: ClearSnapshot_def store_wf_def in_map_del)

lemma SetSnapshot_wf [wf_intros]: "store_wf s \<Longrightarrow> store_wf (SetSnapshot sn s)"
  by (auto simp: SetSnapshot_def store_wf_def in_map_put split: if_splits)

lemma CreateLink_wf [wf_intros]: "store_wf s \<Longrightarrow> store_wf (snd (CreateLink a b s))"
  using newID_wf [of s] store_wf_put_Links
  by (auto simp: CreateLink_def Let_def split_def split: option.splits)

lemma UpdateLink_wf [wf_intros]:
  assumes "store_wf s" and "\<And>l. lk_ID (fn l) = lk_ID l"
  shows "store_wf (snd (UpdateLink i fn s))"
proof (cases "map_of (st_Links s) i")
  case (Some l)
  with assms(1) have "lk_ID l = i"
    by (auto simp: store_wf_def state_wf_def dest: map_of_SomeD)
  with Some assms show ?thesis by (simp add: UpdateLink_def store_wf_put_Links)
qed (simp add: UpdateLink_def assms)

lemma DeleteLink_wf [wf_intros]: "store_wf s \<Longrightarrow> store_wf (snd (DeleteLink i s))"
  by (auto simp: DeleteLink_def store_wf_def state_wf_def in_map_del split: option.splits)

lemma AddAlert_wf [wf_intros]: "store_wf s \<Longrightarrow> store_wf (snd (AddAlert now a s))"
  using newID_wf [of s] by (simp add: AddAlert_def Let_def split_def store_wf_Alerts)

lemma filter_alerts_wf: "store_wf s \<Longrightarrow> store_wf (set_Alerts (filter P (st_Alerts s)) s)"
  by (rule store_wf_Alerts) (auto simp: store_wf_def state_wf_def intro: le_trans length_filter_le)

lemma ResolveAlertsFor_wf [wf_intros]: "store_wf s \<Longrightarrow> store_wf (snd (ResolveAlertsFor v t k s))"
  by (simp add: ResolveAlertsFor_def Let_def filter_alerts_wf)

lemma PurgeResolvedAlerts_wf [wf_intros]: "store_wf s \<Longrightarrow> store_wf (snd (PurgeResolvedAlerts s))"
  by (simp add: PurgeResolvedAlerts_def Let_def filter_alerts_wf)

lemma remove_first_id_Some:
  "remove_first_id i as = Some bs \<Longrightarrow> length as = Suc (length bs) \<and> set bs \<subseteq> set as"
  by (induction as arbitrary: bs) (auto split: if_splits)

lemma ResolveAlert_wf [wf_intros]: "store_wf s \<Longrightarrow> store_wf (snd (ResolveAlert i s))"
  by (auto simp: ResolveAlert_def store_wf_def state_wf_def dest!: remove_first_id_Some
      split: option.splits)

lemma AddAction_wf [wf_intros]: "store_wf s \<Longrightarrow> store_wf (snd (AddAction now a s))"
  using newID_wf [of s] by (simp add: AddAction_def Let_def split_def store_wf_Actions)

lemma FlushTick_wf [wf_intros]: "store_wf s \<Longrightarrow> store_wf (FlushTick s)"
  by (simp add: FlushTick_def store_wf_def)

lemma Persist_wf [wf_intros]: "store_wf s \<Longrightarrow> store_wf (Persist s)"
  by (simp add: Persist_def store_wf_def)

section \<open>Runs of the registry\<close>

text \<open>
  One step is one method call (the mutex serialises them) or one tick of \<open>FlushLoop\<close>. The
  callbacks handed to \<open>UpdateVPS\<close> and \<open>UpdateLink\<close> never change an identifier.
\<close>

inductive store_step :: "store \<Rightarrow> store \<Rightarrow> bool" where
  create: "store_step s (snd (CreateVPS now n tn ip s))"
| create_wg: "store_step s (snd (CreateWireGuardVPS pa now n ep tip pub priv psk s))"
| auto_register: "store_step s (snd (AutoRegisterVPS now hn h p v s))"
| adopt: "store_step s (snd (AdoptVPS now i tok n h tn v s))"
| update: "(\<And>e. vps_ID (en_VPS (fn e)) = vps_ID (en_VPS e)) \<Longrightarrow> store_step s (snd (UpdateVPS i fn s))"
| update_now: "(\<And>e. vps_ID (en_VPS (fn e)) = vps_ID (en_VPS e)) \<Longrightarrow> store_step s (snd (UpdateVPSNow i fn s))"
| mark: "store_step s (MarkRestart now i r b s)"
| clear_mark: "store_step s (ClearRestart i s)"
| delete: "store_step s (snd (DeleteVPS i s))"
| clear_snap: "store_step s (ClearSnapshot i s)"
| set_snap: "store_step s (SetSnapshot sn s)"
| link: "store_step s (snd (CreateLink a b s))"
| update_link: "(\<And>l. lk_ID (g l) = lk_ID l) \<Longrightarrow> store_step s (snd (UpdateLink i g s))"
| delete_link: "store_step s (snd (DeleteLink i s))"
| add_alert: "store_step s (snd (AddAlert now a s))"
| resolve_for: "store_step s (snd (ResolveAlertsFor v t k s))"
| purge: "store_step s (snd (PurgeResolvedAlerts s))"
| resolve: "store_step s (snd (ResolveAlert i s))"
| add_action: "store_step s (snd (AddAction now ac s))"
| flush: "store_step s (FlushTick s)"
| persist: "store_step s (Persist s)"

abbreviation store_run :: "store \<Rightarrow> store \<Rightarrow> bool" where
  "store_run \<equiv> store_step\<^sup>*\<^sup>*"

lemma store_step_wf: "store_step s s' \<Longrightarrow> store_wf s \<Longrightarrow> store_wf s'"
  by (induction rule: store_step.induct) (simp_all add: wf_intros)

lemma store_run_wf: "store_run s s' \<Longrightarrow> store_wf s \<Longrightarrow> store_wf s'"
  by (induction rule: rtranclp_induct) (auto intro: store_step_wf)

section \<open>Durability\<close>

text \<open>
  Nothing the registry holds is forgotten by the flusher: either a write is still owed, or
  both files hold the current state.
\<close>

definition store_synced :: "store \<Rightarrow> bool" where
  "store_synced s \<longleftrightarrow>
     st_disk_ok s \<and> (st_lastPeers s = None \<or> st_lastPeers s = st_peersFile s) \<and>
     (st_dirty s \<or> (st_disk s = Some (st_state s) \<and>
                    st_peersFile s = Some (peer_records (st_VPS s))))"

lemma synced_write:
  "st_disk_ok s \<Longrightarrow> st_lastPeers s = None \<or> st_lastPeers s = st_peersFile s \<Longrightarrow>
   store_synced (writeLocked s)"
  by (auto simp: store_synced_def writeLocked_def writePeersLocked_def Let_def)

definition peers_tracked :: "store \<Rightarrow> bool" where
  "peers_tracked s \<longleftrightarrow> st_disk_ok s \<and> (st_lastPeers s = None \<or> st_lastPeers s = st_peersFile s)"

lemma peers_tracked_simps [simp]:
  "peers_tracked (s\<lparr>st_state := x\<rparr>) = peers_tracked s"
  "peers_tracked (s\<lparr>st_snapshots := y\<rparr>) = peers_tracked s"
  "peers_tracked (s\<lparr>st_dirty := b\<rparr>) = peers_tracked s"
  "peers_tracked (s\<lparr>st_draws := n\<rparr>) = peers_tracked s"
  by (simp_all add: peers_tracked_def)

lemma synced_tracked: "store_synced s \<Longrightarrow> peers_tracked s"
  by (simp add: store_synced_def peers_tracked_def)

lemma synced_persist [simp]: "peers_tracked s \<Longrightarrow> store_synced (persistLocked s)"
  by (simp add: peers_tracked_def persistLocked_def synced_write)

lemma synced_touch [simp]: "peers_tracked s \<Longrightarrow> store_synced (touchLocked s)"
  by (simp add: peers_tracked_def store_synced_def touchLocked_def)

lemma synced_draw [simp]: "store_synced (s\<lparr>st_draws := n\<rparr>) = store_synced s"
  by (simp add: store_synced_def)

lemma synced_snapshots [simp]: "store_synced (s\<lparr>st_snapshots := y\<rparr>) = store_synced s"
  by (simp add: store_synced_def)

lemmas synced_intros =
  synced_tracked CreateVPS_def CreateWireGuardVPS_def AutoRegisterVPS_def AdoptVPS_def
  UpdateVPS_def UpdateVPSNow_def MarkRestart_def ClearRestart_def DeleteVPS_def ClearSnapshot_def
  SetSnapshot_def CreateLink_def UpdateLink_def DeleteLink_def AddAlert_def ResolveAlertsFor_def
  PurgeResolvedAlerts_def ResolveAlert_def AddAction_def insert_entry_def newID_def newToken_def
  Let_def

lemma synced_flush: "store_synced s \<Longrightarrow> store_synced (FlushTick s) \<and> store_synced (Persist s)"
  using synced_persist [OF synced_tracked, of s] by (simp add: FlushTick_def Persist_def persistLocked_def)

lemma store_step_synced: "store_step s s' \<Longrightarrow> store_synced s \<Longrightarrow> store_synced s'"
  by (induction rule: store_step.induct)
    (simp_all add: synced_intros synced_flush split: option.splits)

lemma store_run_synced: "store_run s s' \<Longrightarrow> store_synced s \<Longrightarrow> store_synced s'"
  by (induction rule: rtranclp_induct) (auto intro: store_step_synced)

section \<open>Recovery from the peers file\<close>

lemma restoreWGPeers_old: "map_of m k = Some e \<Longrightarrow> map_of (restoreWGPeers now rs m) k = Some e"
proof (induction now rs m rule: restoreWGPeers.induct)
  case (2 now r rs m)
  then show ?case by (cases "k = wr_ID r") auto
qed simp

definition restorable :: "wg_peer_record \<Rightarrow> bool" where
  "restorable r \<longleftrightarrow> wr_ID r \<noteq> [] \<and> wr_PublicKey r \<noteq> [] \<and> wr_TunnelIP r \<noteq> []"

lemma restoreWGPeers_new:
  "distinct (map wr_ID rs) \<Longrightarrow> r \<in> set rs \<Longrightarrow> restorable r \<Longrightarrow> map_of m (wr_ID r) = None \<Longrightarrow>
   map_of (restoreWGPeers now rs m) (wr_ID r) = Some (restored_entry now r)"
proof (induction now rs m rule: restoreWGPeers.induct)
  case (2 now q rs m)
  show ?case
  proof (cases "r = q")
    case True
    with 2 show ?thesis by (simp add: restorable_def restoreWGPeers_old)
  next
    case False
    with "2.prems"(1,2) have "wr_ID r \<noteq> wr_ID q"
      by (metis distinct.simps(2) image_eqI list.set_map list.simps(9) set_ConsD)
    with 2 False show ?thesis by simp
  qed
qed simp

lemma restoreWGPeers_wf:
  "gomap_ok m \<Longrightarrow> \<forall>(k, e) \<in> set m. vps_ID (en_VPS e) = k \<Longrightarrow>
   gomap_ok (restoreWGPeers now rs m) \<and>
   (\<forall>(k, e) \<in> set (restoreWGPeers now rs m). vps_ID (en_VPS e) = k)"
proof (induction now rs m rule: restoreWGPeers.induct)
  case (2 now r rs m)
  have "\<forall>(k, e) \<in> set (map_put (wr_ID r) (restored_entry now r) m). vps_ID (en_VPS e) = k"
    using 2 by (auto simp: in_map_put restored_entry_def plain_entry_def fresh_vps_def split: if_splits)
  with 2 show ?case by simp
qed simp

lemma start_entry_id [simp]:
  "vps_ID (en_VPS (start_entry now e)) = vps_ID (en_VPS e)"
  "en_AgentToken (start_entry now e) = en_AgentToken e"
  by (simp_all add: start_entry_def)

lemma map_of_map_snd: "map_of (map (\<lambda>(k, e). (k, f e)) m) k = map_option f (map_of m k)"
  by (induction m) auto

lemma NewStore_wf:
  "(\<And>st. disk = Some st \<Longrightarrow> state_wf st) \<Longrightarrow> store_wf (NewStore now disk peers ok rnd)"
proof -
  assume d: "\<And>st. disk = Some st \<Longrightarrow> state_wf st"
  define st0 where "st0 = (case disk of Some st \<Rightarrow> st | None \<Rightarrow> empty_state)"
  define m where "m = restoreWGPeers now (case peers of Some rs \<Rightarrow> rs | None \<Rightarrow> []) (pe_VPS st0)"
  have "state_wf st0"
    using d by (cases disk) (auto simp: st0_def empty_state_def state_wf_def)
  moreover from this have "gomap_ok m \<and> (\<forall>(k, e) \<in> set m. vps_ID (en_VPS e) = k)"
    unfolding m_def by (intro restoreWGPeers_wf) (simp_all add: state_wf_def)
  moreover have "gomap_ok (map (\<lambda>(k, e). (k, start_entry now e)) m)" if "gomap_ok m"
    by (rule gomap_ok_map_snd [OF that])
  ultimately show ?thesis
    by (auto simp: NewStore_def Let_def store_wf_def state_wf_def m_def [symmetric] st0_def [symmetric])
qed

section \<open>Interfaces\<close>

text \<open>
  The alert rows as the alert engine uses them: a bounded list to which rows are added, and
  from which every open row of one condition is taken at once.
\<close>

locale alert_table =
  fixes rows :: "'s \<Rightarrow> alert list"
    and add :: "time \<Rightarrow> alert \<Rightarrow> 's \<Rightarrow> alert \<times> 's"
    and resolve :: "string \<Rightarrow> alert_type \<Rightarrow> string \<Rightarrow> 's \<Rightarrow> alert list \<times> 's"
    and cap :: nat
  assumes rows_add: "rows (snd (add now a s)) = keep_last cap (rows s @ [fst (add now a s)])"
    and add_keeps: "al_VPSID (fst (add now a s)) = al_VPSID a \<and> al_Type (fst (add now a s)) = al_Type a \<and>
          al_Key (fst (add now a s)) = al_Key a \<and> al_Resolved (fst (add now a s)) = al_Resolved a"
    and rows_resolve: "rows (snd (resolve v t k s)) = filter (\<lambda>a. \<not> open_for v t k a) (rows s)"
    and resolve_returns: "fst (resolve v t k s) =
          map (\<lambda>a. a\<lparr>al_Resolved := True\<rparr>) (filter (open_for v t k) (rows s))"
    and cap_pos: "0 < cap"
begin

lemma open_after_add:
  "{a \<in> set (rows (snd (add now a0 s))). open_for v t k a} \<subseteq>
   insert (fst (add now a0 s)) {a \<in> set (rows s). open_for v t k a}"
  using set_keep_last [of cap "rows s @ [fst (add now a0 s)]"] by (auto simp: rows_add)

lemma added_is_row: "fst (add now a s) \<in> set (rows (snd (add now a s)))"
  using last_keep_last [of "rows s @ [fst (add now a s)]" cap] cap_pos
    keep_last_nonempty [of "rows s @ [fst (add now a s)]" cap]
  by (metis last_in_set last_snoc rows_add snoc_eq_iff_butlast)

lemma none_open_after_resolve: "\<not> (\<exists>a \<in> set (rows (snd (resolve v t k s))). open_for v t k a)"
  by (auto simp: rows_resolve)

lemma resolve_keeps_others:
  "\<not> open_for v t k a \<Longrightarrow> a \<in> set (rows (snd (resolve v t k s))) \<longleftrightarrow> a \<in> set (rows s)"
  by (auto simp: rows_resolve)

lemma rows_bounded: "length (rows (snd (add now a s))) \<le> cap"
  by (simp add: rows_add)

end

lemma AddAlert_rows:
  "st_Alerts (snd (AddAlert now a s)) = keep_last maxAlerts (st_Alerts s @ [fst (AddAlert now a s)])"
  by (simp add: AddAlert_def newID_def Let_def)

lemma ResolveAlertsFor_rows:
  "st_Alerts (snd (ResolveAlertsFor v t k s)) = filter (\<lambda>a. \<not> open_for v t k a) (st_Alerts s)"
  by (auto simp: ResolveAlertsFor_def Let_def filter_empty_conv filter_id_conv)

interpretation rows: alert_table st_Alerts AddAlert ResolveAlertsFor maxAlerts
proof unfold_locales
  show "0 < maxAlerts" by (simp add: maxAlerts_def)
qed (simp_all add: AddAlert_rows ResolveAlertsFor_rows,
     simp_all add: AddAlert_def ResolveAlertsFor_def newID_def Let_def)

text \<open>
  The registry as the hub, the sweep and registration use it: look a server up, change one
  server through a callback.
\<close>

locale vps_registry =
  fixes get :: "string \<Rightarrow> 's \<Rightarrow> vps_entry option"
    and upd :: "string \<Rightarrow> (vps_entry \<Rightarrow> vps_entry) \<Rightarrow> 's \<Rightarrow> vps_entry option \<times> 's"
  assumes get_upd: "get j (snd (upd i f s)) = (if j = i then map_option f (get i s) else get j s)"
    and upd_result: "fst (upd i f s) = map_option f (get i s)"
    and upd_unknown: "get i s = None \<Longrightarrow> snd (upd i f s) = s"
begin

lemma get_upd_same: "get i s = Some e \<Longrightarrow> get i (snd (upd i f s)) = Some (f e)"
  by (simp add: get_upd)

lemma upd_result_is_stored: "fst (upd i f s) = get i (snd (upd i f s))"
  by (simp add: upd_result get_upd)

lemma upd_twice:
  "get j (snd (upd i g (snd (upd i f s)))) = get j (snd (upd i (g \<circ> f) s))"
  by (simp add: get_upd option.map_comp)

lemma upd_no_new: "get j s = None \<Longrightarrow> get j (snd (upd i f s)) = None"
  by (cases "j = i") (simp_all add: get_upd)

end

interpretation reg: vps_registry GetVPS UpdateVPS
  by unfold_locales (auto simp: GetVPS_def UpdateVPS_def split: option.splits)

interpretation reg_now: vps_registry GetVPS UpdateVPSNow
  by unfold_locales (auto simp: GetVPS_def UpdateVPSNow_def split: option.splits)

section \<open>Properties\<close>

text \<open>
  C34: whatever sequence of registry methods runs after start-up on a well-formed file, the
  registry stays well formed: every entry, link and snapshot is filed under its own identifier,
  no identifier twice, at most 500 alert rows and 300 log lines.
\<close>

theorem registry_invariant:
  assumes "state_wf file" and "store_run (NewStore now (Some file) peers ok rnd) s"
  shows "store_wf s"
proof -
  have "store_wf (NewStore now (Some file) peers ok rnd)"
    using assms(1) by (intro NewStore_wf) simp
  with assms(2) show ?thesis by (rule store_run_wf)
qed

definition demo_rand :: "nat \<Rightarrow> nat \<Rightarrow> 8 word list" where
  "demo_rand i n = replicate n (of_nat (i + 16))"

theorem registry_invariant_witness:
  "store_wf (snd (CreateVPS 5 ''web'' ''web'' ''100.64.0.2''
      (NewStore 0 (Some empty_state) None True demo_rand)))"
proof -
  have "state_wf empty_state"
    by (simp add: state_wf_def empty_state_def)
  then show ?thesis
    by (rule registry_invariant) (rule r_into_rtranclp, rule store_step.create)
qed

text \<open>
  C7: with a working disk, once the two files have been written nothing is ever silently
  out of date: after any further sequence of methods either a write is still owed (the dirty
  flag is up, so the next \<open>FlushLoop\<close> tick writes) or \<^verbatim>\<open>state.json\<close> holds exactly the registry in
  memory and \<^verbatim>\<open>wg-peers.json\<close> its WireGuard servers; one more tick always brings both up to date.
\<close>

theorem registry_durable:
  assumes "store_synced s" and "store_run s s'"
  shows "(st_dirty s' \<or> (st_disk s' = Some (st_state s') \<and>
                         st_peersFile s' = Some (peer_records (st_VPS s')))) \<and>
         st_disk (FlushTick s') = Some (st_state s') \<and>
         st_peersFile (FlushTick s') = Some (peer_records (st_VPS s'))"
proof -
  have s': "store_synced s'" using assms store_run_synced by blast
  then have "store_synced (FlushTick s')" by (simp add: synced_flush)
  moreover have "\<not> st_dirty (FlushTick s') \<and> st_state (FlushTick s') = st_state s'"
    by (simp add: FlushTick_def)
  ultimately show ?thesis using s' by (simp add: store_synced_def)
qed

theorem registry_durable_witness:
  "let s = Persist (NewStore 0 None None True demo_rand);
       s' = snd (UpdateVPS ''x'' id (snd (CreateVPS 5 ''web'' ''web'' ''100.64.0.2'' s)))
   in st_disk (FlushTick s') = Some (st_state s') \<and>
      st_peersFile (FlushTick s') = Some (peer_records (st_VPS s'))"
proof -
  define s where "s = Persist (NewStore 0 None None True demo_rand)"
  have "store_synced s"
    by (simp add: s_def Persist_def NewStore_def Let_def synced_write)
  moreover have "store_run s (snd (UpdateVPS ''x'' id (snd (CreateVPS 5 ''web'' ''web'' ''100.64.0.2'' s))))"
    by (rule rtranclp.rtrancl_into_rtrancl [OF r_into_rtranclp [where r = store_step, OF store_step.create]])
      (rule store_step.update, simp)
  ultimately show ?thesis
    using registry_durable unfolding Let_def s_def [symmetric] by blast
qed

text \<open>
  the server list does not depend on the iteration order of the registry map: two registries
  with the same entries in any order list the same servers in the same order, oldest first with
  the identifier as tiebreak, each server exactly once.
\<close>

lemma ListVPS_order_independent:
  assumes "store_wf s" and "mset (st_VPS s) = mset (st_VPS s')"
  shows "ListVPS s = ListVPS s' \<and> sorted (map (\<lambda>v. (vps_CreatedAt v, vps_ID v)) (ListVPS s)) \<and>
         mset (ListVPS s) = image_mset (en_VPS \<circ> snd) (mset (st_VPS s'))"
proof (intro conjI)
  have "inj_on (\<lambda>v. (vps_CreatedAt v, vps_ID v)) (set (map (en_VPS \<circ> snd) (st_VPS s)))"
    using store_wf_key [OF assms(1)] store_wf_gomap [OF assms(1)]
    by (auto simp: inj_on_def gomap_ok_def dest: eq_key_imp_eq_value) 
  moreover have "mset (map (en_VPS \<circ> snd) (st_VPS s)) = mset (map (en_VPS \<circ> snd) (st_VPS s'))"
    using assms(2) by (simp only: mset_map)
  ultimately show "ListVPS s = ListVPS s'"
    unfolding ListVPS_def sortVPS_def by (intro sort_key_perm_unique)
  show "sorted (map (\<lambda>v. (vps_CreatedAt v, vps_ID v)) (ListVPS s))"
    by (simp add: ListVPS_def sortVPS_def)
  show "mset (ListVPS s) = image_mset (en_VPS \<circ> snd) (mset (st_VPS s'))"
    using assms(2) by (simp add: ListVPS_def sortVPS_def)
qed

text \<open>
  C35: losing \<^verbatim>\<open>state.json\<close> does not lose a WireGuard server. If the files were up to date when the
  backend stopped, a start from the peers file alone brings back every server with tunnel keys
  under its own identifier, token, keys, endpoint and transport, pending exactly if it was
  pending, and otherwise offline.
\<close>

theorem wireguard_recovery:
  assumes "store_wf s" and "store_synced s" and "\<not> st_dirty s"
    and "GetVPS i s = Some e" and "HasWireGuardPeer e" and "i \<noteq> []"
  shows "\<exists>e'. GetVPS i (NewStore now None (st_peersFile s) ok rnd) = Some e' \<and>
           peer_record e' = peer_record e \<and>
           vps_Status (en_VPS e') = (if vps_Status (en_VPS e) = VPSPending then VPSPending else VPSOffline)"
proof -
  let ?rs = "peer_records (st_VPS s)"
  have pf: "st_peersFile s = Some ?rs" using assms(2,3) by (simp add: store_synced_def)
  have mem: "(i, e) \<in> set (st_VPS s)" using assms(4) by (simp add: GetVPS_def map_of_SomeD)
  have id: "vps_ID (en_VPS e) = i" using assms(1) mem by (rule store_wf_key)
  have ids: "map (wr_ID \<circ> peer_record \<circ> snd) (st_VPS s) = map fst (st_VPS s)"
    using store_wf_key [OF assms(1)] by (auto simp: peer_record_def)
  have "distinct (map fst (filter (HasWireGuardPeer \<circ> snd) (st_VPS s)))"
    using store_wf_gomap [OF assms(1)] by (simp add: gomap_ok_def distinct_map_filter)
  moreover have "map wr_ID ?rs = map fst (filter (HasWireGuardPeer \<circ> snd) (st_VPS s))"
    using store_wf_key [OF assms(1)] by (auto simp: peer_records_def peer_record_def filter_map)
  ultimately have d: "distinct (map wr_ID ?rs)" by simp
  have r: "peer_record e \<in> set ?rs" using mem assms(5) by (force simp: peer_records_def)
  have "restorable (peer_record e)"
    using assms(5,6) id by (simp add: restorable_def peer_record_def HasWireGuardPeer_def)
  from restoreWGPeers_new [OF d r this, of "[]" now]
  have "map_of (restoreWGPeers now ?rs []) i = Some (restored_entry now (peer_record e))"
    by (simp add: peer_record_def id)
  then have "GetVPS i (NewStore now None (st_peersFile s) ok rnd) =
             Some (start_entry now (restored_entry now (peer_record e)))"
    by (simp add: GetVPS_def NewStore_def Let_def empty_state_def pf map_of_map_snd)
  then show ?thesis
    by (auto simp: start_entry_def restored_entry_def plain_entry_def fresh_vps_def peer_record_def)
qed

definition demo_wg_store :: store where
  "demo_wg_store = Persist (snd (CreateWireGuardVPS (\<lambda>_. None) 5 ''db'' ''203.0.113.9:51931''
     ''10.87.0.2'' ''pub'' ''priv'' ''psk'' (NewStore 0 None None True demo_rand)))"

lemmas demo_defs =
  demo_rand_def NewStore_def empty_state_def newID_def insert_entry_def Let_def
  plain_entry_def fresh_vps_def zero_vps_def

lemma demo_wg_id: "hex_encode (demo_rand 0 8) = ''1010101010101010''"
  by code_simp

theorem wireguard_recovery_witness:
  "\<exists>e'. GetVPS ''1010101010101010'' (NewStore 9 None (st_peersFile demo_wg_store) True demo_rand) = Some e' \<and>
     vps_WGPublicKey (en_VPS e') = ''pub'' \<and> vps_Status (en_VPS e') = VPSPending"
proof -
  let ?s0 = "NewStore 0 None None True demo_rand"
  let ?e = "fst (CreateWireGuardVPS (\<lambda>_. None) 5 ''db'' ''203.0.113.9:51931''
     ''10.87.0.2'' ''pub'' ''priv'' ''psk'' ?s0)"
  have "store_wf demo_wg_store"
    unfolding demo_wg_store_def by (intro wf_intros NewStore_wf) simp
  moreover have "store_synced demo_wg_store"
    unfolding demo_wg_store_def Persist_def
    by (rule synced_write) (auto simp: CreateWireGuardVPS_def demo_defs persistLocked_def
        writeLocked_def writePeersLocked_def)
  moreover have "\<not> st_dirty demo_wg_store"
    by (simp add: demo_wg_store_def Persist_def)
  moreover have "GetVPS ''1010101010101010'' demo_wg_store = Some ?e"
    using demo_wg_id by (simp add: demo_wg_store_def Persist_def GetVPS_def CreateWireGuardVPS_def
        NewStore_def empty_state_def newID_def insert_entry_def Let_def plain_entry_def fresh_vps_def)
  moreover have "HasWireGuardPeer ?e"
    by (simp add: CreateWireGuardVPS_def HasWireGuardPeer_def Let_def split_def plain_entry_def fresh_vps_def)
  moreover have "peer_record ?e = peer_record e' \<longrightarrow> vps_WGPublicKey (en_VPS e') = ''pub''" for e'
    by (auto simp: CreateWireGuardVPS_def Let_def split_def plain_entry_def fresh_vps_def peer_record_def)
  moreover have "vps_Status (en_VPS ?e) = VPSPending"
    by (simp add: CreateWireGuardVPS_def Let_def split_def plain_entry_def fresh_vps_def)
  ultimately show ?thesis
    using wireguard_recovery [of demo_wg_store "''1010101010101010''" ?e 9 True demo_rand] by auto
qed

text \<open>
  an agent is authenticated by its token and by nothing else. \<open>FindByToken\<close> never answers the
  empty token, answers only with a registered server that holds exactly that token, and misses
  only when no server holds it.
\<close>

lemma token_authentication:
  assumes "store_wf s"
  shows "(FindByToken tok s = None \<longleftrightarrow> tok = [] \<or> (\<forall>i e. GetVPS i s = Some e \<longrightarrow> en_AgentToken e \<noteq> tok)) \<and>
         (\<forall>e. FindByToken tok s = Some e \<longrightarrow>
            tok \<noteq> [] \<and> en_AgentToken e = tok \<and> GetVPS (vps_ID (en_VPS e)) s = Some e)"
proof (intro conjI allI impI)
  have look: "GetVPS i s = Some e \<longleftrightarrow> (i, e) \<in> set (st_VPS s)" for i e
    using store_wf_gomap [OF assms] by (simp add: GetVPS_def gomap_lookup_iff)
  show "FindByToken tok s = None \<longleftrightarrow> tok = [] \<or> (\<forall>i e. GetVPS i s = Some e \<longrightarrow> en_AgentToken e \<noteq> tok)"
    by (auto simp: FindByToken_def find_entry_None look)
  fix e assume "FindByToken tok s = Some e"
  then obtain k where e: "en_AgentToken e \<noteq> []" "en_AgentToken e = tok" "(k, e) \<in> set (st_VPS s)"
    by (auto simp: FindByToken_def dest!: find_entry_Some)
  then show "tok \<noteq> []" and "en_AgentToken e = tok" by auto
  from e(3) show "GetVPS (vps_ID (en_VPS e)) s = Some e"
    using store_wf_key [OF assms e(3)] by (simp add: look)
qed

text \<open>
  deleting a server removes everything that belongs to it (entry, live snapshot, every link
  to or from it) and nothing else.
\<close>

lemma DeleteVPS_complete:
  assumes "store_wf s" and "GetVPS i s = Some e"
  shows "fst (DeleteVPS i s) \<and> GetVPS i (snd (DeleteVPS i s)) = None \<and>
         GetSnapshot i (snd (DeleteVPS i s)) = None \<and>
         set (ListLinks (snd (DeleteVPS i s))) =
           {l \<in> set (ListLinks s). lk_FromVPSID l \<noteq> i \<and> lk_ToVPSID l \<noteq> i} \<and>
         (\<forall>j. j \<noteq> i \<longrightarrow> GetVPS j (snd (DeleteVPS i s)) = GetVPS j s \<and>
                        GetSnapshot j (snd (DeleteVPS i s)) = GetSnapshot j s) \<and>
         ListAlerts (snd (DeleteVPS i s)) = ListAlerts s"
proof -
  from assms(2) obtain x where m: "map_of (st_VPS s) i = Some x" by (simp add: GetVPS_def)
  let ?keep = "\<lambda>(k :: string, l). \<not> (lk_FromVPSID l = i \<or> lk_ToVPSID l = i)"
  let ?t = "snd (DeleteVPS i s)"
  have t: "fst (DeleteVPS i s)" "st_VPS ?t = map_del i (st_VPS s)"
    "st_snapshots ?t = map_del i (st_snapshots s)" "st_Links ?t = filter ?keep (st_Links s)"
    "st_Alerts ?t = st_Alerts s"
    using m by (simp_all add: DeleteVPS_def)
  have "snd ` set (filter ?keep (st_Links s)) =
        {l \<in> snd ` set (st_Links s). lk_FromVPSID l \<noteq> i \<and> lk_ToVPSID l \<noteq> i}"
    by force
  then have "set (ListLinks ?t) = {l \<in> set (ListLinks s). lk_FromVPSID l \<noteq> i \<and> lk_ToVPSID l \<noteq> i}"
    unfolding ListLinks_def t(4) set_map .
  then show ?thesis
    by (simp add: t(1-3,5) GetVPS_def GetSnapshot_def ListAlerts_def)
qed

definition demo_two :: store where
  "demo_two = set_Links [(''l'', \<lparr> lk_ID = ''l'', lk_FromVPSID = ''a'', lk_ToVPSID = ''b'', lk_LatencyMs = 0,
      lk_PacketLoss = 0, lk_Status = ''unknown'', lk_CheckedAt = 0 \<rparr>)]
     (set_VPS [(''a'', plain_entry (fresh_vps 7 ''a'' ''web'' ''h1'' VPSOnline)),
               (''b'', plain_entry (fresh_vps 3 ''b'' ''db'' ''h2'' VPSOnline))]
        (NewStore 0 None None True demo_rand))"

text \<open>
  no socket survives a restart, and the start says so. Whatever the files hold, every server
  comes up pending, offline, or in a reboot or poweroff that was announced less than 15 minutes
  ago; none comes up online, under load or with its agent down.
\<close>

lemma startup_trusts_no_status:
  assumes "GetVPS i (NewStore now disk peers ok rnd) = Some e"
  shows "vps_Status (en_VPS e) = VPSPending \<or> vps_Status (en_VPS e) = VPSOffline \<or>
         (\<exists>m. en_Restart e = Some m \<and> now - rm_Since m < 900 * second \<and>
              vps_Status (en_VPS e) = MarkerStatus (Some m))"
proof -
  from assms obtain e0 where "e = start_entry now e0"
    by (auto simp: GetVPS_def NewStore_def Let_def map_of_map_snd)
  then show ?thesis by (auto simp: start_entry_def Fresh_def)
qed

end
