(* ===== verification/Alerts.thy ===== *)
theory Alerts
  imports Store_Laws
begin

text \<open>
  The alert engine of \<^verbatim>\<open>src/backend/alerts.go\<close>: raising and clearing conditions, the sustained-for
  clock, and the evaluation of a snapshot. The engine's mutex makes each entry point atomic. The
  map \<open>active\<close> only ever stores \<open>true\<close>, so it is the list of its keys. What the engine sends out
  (UI broadcasts, plugin events, webhook messages) is appended to \<open>ae_out\<close>. A Go panic is the
  value \<open>None\<close>. The offline sweep is in \<^verbatim>\<open>Offline_Sweep\<close>.
\<close>

section \<open>State\<close>

datatype effect =
    BroadcastAlert alert
  | BroadcastVPSList "vps list"
  | BroadcastSnapshot "vps_snapshot option"
  | BroadcastLocalNet bool time
  | EmitAlert alert
  | Notify webhook_message

record local_net =
  ln_online :: bool
  ln_since :: time
  ln_checked :: time

record engine =
  ae_store :: store
  ae_active :: "string list"
  ae_since :: "string \<rightharpoonup> time"
  ae_prevContainers :: "string \<rightharpoonup> (string \<rightharpoonup> container_info)"
  ae_certHosts :: "string \<rightharpoonup> string list"
  ae_reach :: "string \<rightharpoonup> bool \<times> time"
  ae_quietUntil :: time
  ae_net :: local_net
  ae_tailnetLost :: bool
  ae_has_events :: bool
  ae_has_notify :: bool
  ae_pluginMetrics :: "(string, metric_def) gomap option"
  ae_out :: "effect list"

abbreviation bar :: char where "bar \<equiv> CHR ''|''"

definition active_key :: "string \<Rightarrow> alert_type \<Rightarrow> string \<Rightarrow> string" where
  "active_key vpsID t key = vpsID @ [bar] @ alert_type_str t @ [bar] @ key"

definition send_out :: "effect \<Rightarrow> engine \<Rightarrow> engine" where
  "send_out x e = e\<lparr>ae_out := ae_out e @ [x]\<rparr>"

definition emit :: "alert \<Rightarrow> engine \<Rightarrow> engine" where
  "emit a e = (if ae_has_events e then send_out (EmitAlert a) e else e)"

section \<open>Raising and clearing\<close>

fun alertTitle :: "alert_type \<Rightarrow> string" where
  "alertTitle AlertCPUHigh = ''CPU high''"
| "alertTitle AlertMemHigh = ''RAM high''"
| "alertTitle AlertDiskHigh = ''disk high''"
| "alertTitle AlertServiceDown = ''service down''"
| "alertTitle AlertDockerCrash = ''container crashed''"
| "alertTitle AlertProxyError = ''proxy error''"
| "alertTitle AlertCertExpiring = ''certificate expiring''"
| "alertTitle AlertAgentOffline = ''VPS offline''"
| "alertTitle AlertAgentDown = ''agent down''"
| "alertTitle AlertPluginMetric = ''plugin metric''"
| "alertTitle AlertPlugin = ''plugin''"

definition alert_message ::
  "vps \<Rightarrow> alert_type \<Rightarrow> alert_severity \<Rightarrow> gotext \<Rightarrow> webhook_message" where
  "alert_message v t sev msg =
     \<lparr> wm_Title = ''['' @ severity_str sev @ ''] '' @ vps_Name v @ '': '' @ alertTitle t,
       wm_Body = msg, wm_Severity = severity_str sev, wm_VPSID = vps_ID v, wm_VPSName = vps_Name v,
       wm_Alert = alert_type_str t \<rparr>"

definition new_row :: "vps \<Rightarrow> alert_type \<Rightarrow> alert_severity \<Rightarrow> string \<Rightarrow> gotext \<Rightarrow> alert" where
  "new_row v t sev key msg =
     \<lparr> al_ID = [], al_VPSID = vps_ID v, al_VPSName = vps_Name v, al_Type = t, al_Severity = sev,
       al_Message = msg, al_Key = key, al_CreatedAt = 0, al_Resolved = False \<rparr>"

definition fire ::
  "time \<Rightarrow> vps \<Rightarrow> alert_type \<Rightarrow> alert_severity \<Rightarrow> string \<Rightarrow> gotext \<Rightarrow> engine \<Rightarrow> engine" where
  "fire now v t sev key msg e =
     (let i = active_key (vps_ID v) t key in
      if i \<in> set (ae_active e) then e
      else
        let (a, st) = AddAlert now (new_row v t sev key msg) (ae_store e);
            e1 = e\<lparr>ae_active := ae_active e @ [i], ae_store := st\<rparr>;
            e2 = emit a (send_out (BroadcastAlert a) e1)
        in if ae_has_notify e2 then send_out (Notify (alert_message v t sev msg)) e2 else e2)"

fun announce_resolved :: "alert list \<Rightarrow> engine \<Rightarrow> engine" where
  "announce_resolved [] e = e"
| "announce_resolved (a # as) e = announce_resolved as (emit a (send_out (BroadcastAlert a) e))"

definition deactivate :: "string \<Rightarrow> engine \<Rightarrow> engine" where
  "deactivate i e = e\<lparr>ae_active := filter (\<lambda>j. j \<noteq> i) (ae_active e)\<rparr>"

definition resolve_rows :: "string \<Rightarrow> alert_type \<Rightarrow> string \<Rightarrow> engine \<Rightarrow> engine" where
  "resolve_rows vpsID t key e =
     (let (as, st) = ResolveAlertsFor vpsID t key (ae_store e)
      in announce_resolved as (e\<lparr>ae_store := st\<rparr>))"

definition clear :: "string \<Rightarrow> alert_type \<Rightarrow> string \<Rightarrow> engine \<Rightarrow> engine" where
  "clear vpsID t key e =
     (if active_key vpsID t key \<notin> set (ae_active e) then e
      else resolve_rows vpsID t key (deactivate (active_key vpsID t key) e))"

definition clearReachability :: "string \<Rightarrow> engine \<Rightarrow> engine" where
  "clearReachability vpsID e =
     (let e1 = resolve_rows vpsID AlertAgentOffline []
                 (deactivate (active_key vpsID AlertAgentOffline []) e);
          e2 = resolve_rows vpsID AlertAgentDown []
                 (deactivate (active_key vpsID AlertAgentDown []) e1)
      in e2\<lparr>ae_reach := (ae_reach e2)(vpsID := None)\<rparr>)"

definition sustained :: "time \<Rightarrow> string \<Rightarrow> string \<Rightarrow> bool \<Rightarrow> engine \<Rightarrow> bool \<times> engine" where
  "sustained now vpsID metric over e =
     (let key = vpsID @ [bar] @ metric in
      if \<not> over then (False, e\<lparr>ae_since := (ae_since e)(key := None)\<rparr>)
      else case ae_since e key of
             None \<Rightarrow> (False, e\<lparr>ae_since := (ae_since e)(key \<mapsto> now)\<rparr>)
           | Some start \<Rightarrow> (time_Sub now start \<ge> SustainedSeconds * second, e))"

section \<open>Plugin alerts\<close>

definition RaisePlugin :: "time \<Rightarrow> vps \<Rightarrow> alert_severity \<Rightarrow> string \<Rightarrow> gotext \<Rightarrow> engine \<Rightarrow> engine" where
  "RaisePlugin now v sev key msg = fire now v AlertPlugin sev key msg"

definition ResolvePlugin :: "string \<Rightarrow> string \<Rightarrow> engine \<Rightarrow> engine" where
  "ResolvePlugin vpsID key = clear vpsID AlertPlugin key"

text \<open>\<open>strings.SplitN(s, "|", 3)\<close>, when it has three parts.\<close>

definition cut_bar :: "string \<Rightarrow> (string \<times> string) option" where
  "cut_bar s = (if bar \<in> set s
                then Some (takeWhile (\<lambda>c. c \<noteq> bar) s, tl (dropWhile (\<lambda>c. c \<noteq> bar) s)) else None)"

definition split3 :: "string \<Rightarrow> (string \<times> string \<times> string) option" where
  "split3 s = (case cut_bar s of
      None \<Rightarrow> None
    | Some (a, r) \<Rightarrow> (case cut_bar r of None \<Rightarrow> None | Some (b, c) \<Rightarrow> Some (a, b, c)))"

definition plugin_alert_of :: "string \<Rightarrow> string \<Rightarrow> (string \<times> alert_type \<times> string) option" where
  "plugin_alert_of pid i =
     (case split3 i of
        None \<Rightarrow> None
      | Some (v, t, k) \<Rightarrow>
          if HasPrefix k (pid @ ''|'') \<or> HasPrefix k (pid @ ''.'')
          then (if t = alert_type_str AlertPlugin then Some (v, AlertPlugin, k)
                else if t = alert_type_str AlertPluginMetric then Some (v, AlertPluginMetric, k)
                else None)
          else None)"

fun resolve_plugin_keys :: "string \<Rightarrow> string list \<Rightarrow> engine \<Rightarrow> engine" where
  "resolve_plugin_keys pid [] e = e"
| "resolve_plugin_keys pid (i # is) e =
     resolve_plugin_keys pid is
       (case plugin_alert_of pid i of None \<Rightarrow> e | Some (v, t, k) \<Rightarrow> clear v t k e)"

definition ResolvePluginAll :: "string \<Rightarrow> engine \<Rightarrow> engine" where
  "ResolvePluginAll pid e = resolve_plugin_keys pid (ae_active e) e"

section \<open>Metrics, disks, containers, proxy\<close>

definition eval_cpu :: "time \<Rightarrow> vps \<Rightarrow> system_metrics \<Rightarrow> engine \<Rightarrow> engine" where
  "eval_cpu now v m e =
     (let th = EffectiveThresholds v;
          (held, e1) = sustained now (vps_ID v) ''cpu'' (sm_CPUPercent m \<ge> et_cpuHigh th) e
      in if held then fire now v AlertCPUHigh SeverityWarning []
                        (Fmt ''CPU above %.0f%% for %ds (now %.0f%%)''
                           [ArgF (et_cpuHigh th), ArgD SustainedSeconds, ArgF (sm_CPUPercent m)]) e1
         else if sm_CPUPercent m < et_cpuClear th then clear (vps_ID v) AlertCPUHigh [] e1
         else e1)"

definition eval_mem :: "time \<Rightarrow> vps \<Rightarrow> system_metrics \<Rightarrow> engine \<Rightarrow> engine" where
  "eval_mem now v m e =
     (let th = EffectiveThresholds v;
          (held, e1) = sustained now (vps_ID v) ''mem'' (sm_MemPercent m \<ge> et_memHigh th) e
      in if held then fire now v AlertMemHigh SeverityWarning []
                        (Fmt ''RAM above %.0f%% for %ds (now %.0f%%)''
                           [ArgF (et_memHigh th), ArgD SustainedSeconds, ArgF (sm_MemPercent m)]) e1
         else if sm_MemPercent m < et_memClear th then clear (vps_ID v) AlertMemHigh [] e1
         else e1)"

fun eval_disks :: "time \<Rightarrow> vps \<Rightarrow> disk_usage list \<Rightarrow> engine \<Rightarrow> engine" where
  "eval_disks now v [] e = e"
| "eval_disks now v (d # ds) e =
     (let th = EffectiveThresholds v in
      eval_disks now v ds
        (if du_UsedPercent d \<ge> et_diskHigh th
         then fire now v AlertDiskHigh SeverityWarning (du_Mount d)
                (Fmt ''Disk %s at %.0f%%'' [ArgS (du_Mount d), ArgF (du_UsedPercent d)]) e
         else if du_UsedPercent d < et_diskClear th then clear (vps_ID v) AlertDiskHigh (du_Mount d) e
         else e))"

definition eval_container ::
  "time \<Rightarrow> vps \<Rightarrow> container_info \<Rightarrow> container_info \<Rightarrow> engine \<Rightarrow> engine" where
  "eval_container now v p c e =
     (let e1 = (if ci_State p = ''running'' \<and> ci_State c = ''exited'' \<and> ci_ExitCode c \<noteq> 0
                then fire now v AlertDockerCrash SeverityCritical (ci_ID c)
                       (Fmt ''Container %s crashed (exit %d)'' [ArgS (ci_Name c), ArgD (ci_ExitCode c)]) e
                else e);
          e2 = (if ci_RestartCount c > ci_RestartCount p
                then fire now v AlertDockerCrash SeverityWarning (ci_ID c @ ''-restart'')
                       (Fmt ''Container %s restarted (count %d)''
                          [ArgS (ci_Name c), ArgD (ci_RestartCount c)]) e1
                else e1)
      in if ci_State c = ''running''
         then clear (vps_ID v) AlertDockerCrash (ci_ID c @ ''-restart'')
                (clear (vps_ID v) AlertDockerCrash (ci_ID c) e2)
         else e2)"

fun eval_containers ::
  "time \<Rightarrow> vps \<Rightarrow> (string \<rightharpoonup> container_info) option \<Rightarrow> container_info list \<Rightarrow> engine \<Rightarrow> engine" where
  "eval_containers now v prev [] e = e"
| "eval_containers now v prev (c # cs) e =
     eval_containers now v prev cs
       (case prev of None \<Rightarrow> e
        | Some pm \<Rightarrow> (case pm (ci_ID c) of None \<Rightarrow> e | Some p \<Rightarrow> eval_container now v p c e))"

fun container_map :: "(string \<rightharpoonup> container_info) \<Rightarrow> container_info list \<Rightarrow> (string \<rightharpoonup> container_info)" where
  "container_map m [] = m"
| "container_map m (c # cs) = container_map (m(ci_ID c \<mapsto> c)) cs"

definition eval_docker :: "time \<Rightarrow> vps \<Rightarrow> docker_state \<Rightarrow> engine \<Rightarrow> engine" where
  "eval_docker now v d e =
     (let e1 = eval_containers now v (ae_prevContainers e (vps_ID v)) (ds_Containers d) e
      in e1\<lparr>ae_prevContainers := (ae_prevContainers e1)
              (vps_ID v \<mapsto> container_map Map.empty (ds_Containers d))\<rparr>)"

text \<open>The legacy service alerts are resolved and broadcast, but not emitted to plugins.\<close>

fun broadcast_all :: "alert list \<Rightarrow> engine \<Rightarrow> engine" where
  "broadcast_all [] e = e"
| "broadcast_all (a # as) e = broadcast_all as (send_out (BroadcastAlert a) e)"

definition eval_services :: "vps \<Rightarrow> engine \<Rightarrow> engine" where
  "eval_services v e =
     (let (as, st) = ResolveAlertsFor (vps_ID v) AlertServiceDown [] (ae_store e)
      in broadcast_all as (e\<lparr>ae_store := st\<rparr>))"

definition eval_proxy :: "time \<Rightarrow> vps \<Rightarrow> proxy_state \<Rightarrow> engine \<Rightarrow> engine" where
  "eval_proxy now v p e =
     (if px_Provider p \<noteq> ProxyProviderNone
      then let e1 = clear (vps_ID v) AlertProxyError ''down'' e
           in if px_LastError p \<noteq> []
              then fire now v AlertProxyError SeverityWarning ''err'' (Lit (px_LastError p)) e1
              else clear (vps_ID v) AlertProxyError ''err'' e1
      else e)"

section \<open>Certificates\<close>

abbreviation certWarnDays :: int where "certWarnDays \<equiv> 14"
abbreviation certCritDays :: int where "certCritDays \<equiv> 3"

definition certLevels :: "string list" where
  "certLevels = [''warn'', ''crit'', ''expired'']"

definition cert_level :: "time \<Rightarrow> time \<Rightarrow> string" where
  "cert_level now end_at =
     (let left = time_Sub end_at now in
      if left \<le> 0 then ''expired''
      else if left \<le> certCritDays * 24 * hour then ''crit''
      else if left \<le> certWarnDays * 24 * hour then ''warn''
      else [])"

definition cert_severity :: "string \<Rightarrow> alert_severity" where
  "cert_severity level = (if level = ''expired'' \<or> level = ''crit'' then SeverityCritical else SeverityWarning)"

definition cert_text :: "string \<Rightarrow> string \<Rightarrow> time \<Rightarrow> gotext" where
  "cert_text level domain end_at =
     (if level = ''expired'' then Fmt ''Certificate for %s expired on %s'' [ArgS domain, ArgDate end_at]
      else Fmt ''Certificate for %s expires on %s'' [ArgS domain, ArgDate end_at])"

fun clear_levels :: "string \<Rightarrow> alert_type \<Rightarrow> string \<Rightarrow> string \<Rightarrow> string list \<Rightarrow> engine \<Rightarrow> engine" where
  "clear_levels vpsID t key level [] e = e"
| "clear_levels vpsID t key level (l # ls) e =
     clear_levels vpsID t key level ls
       (if l \<noteq> level then clear vpsID t (key @ [bar] @ l) e else e)"

definition eval_site :: "time \<Rightarrow> vps \<Rightarrow> string \<Rightarrow> time \<Rightarrow> engine \<Rightarrow> engine" where
  "eval_site now v domain end_at e =
     (let level = cert_level now end_at;
          e1 = clear_levels (vps_ID v) AlertCertExpiring domain level certLevels e
      in if level \<noteq> []
         then fire now v AlertCertExpiring (cert_severity level) (domain @ [bar] @ level)
                (cert_text level domain end_at) e1
         else e1)"

fun eval_sites :: "time \<Rightarrow> vps \<Rightarrow> proxy_site list \<Rightarrow> string list \<times> engine \<Rightarrow> string list \<times> engine" where
  "eval_sites now v [] (seen, e) = (seen, e)"
| "eval_sites now v (s # ss) (seen, e) =
     (case ps_CertNotAfter s of
        None \<Rightarrow> eval_sites now v ss (seen, e)
      | Some end_at \<Rightarrow>
          if ps_Domain s = [] then eval_sites now v ss (seen, e)
          else eval_sites now v ss (List.insert (ps_Domain s) seen, eval_site now v (ps_Domain s) end_at e))"

fun clear_gone :: "string \<Rightarrow> string list \<Rightarrow> string list \<Rightarrow> engine \<Rightarrow> engine" where
  "clear_gone vpsID seen [] e = e"
| "clear_gone vpsID seen (d # ds) e =
     clear_gone vpsID seen ds
       (if d \<in> set seen then e else clear_levels vpsID AlertCertExpiring d [] certLevels e)"

definition evaluateCerts :: "time \<Rightarrow> vps \<Rightarrow> proxy_site list \<Rightarrow> engine \<Rightarrow> engine" where
  "evaluateCerts now v sites e =
     (let (seen, e1) = eval_sites now v sites ([], e);
          old = (case ae_certHosts e1 (vps_ID v) of None \<Rightarrow> [] | Some ds \<Rightarrow> ds);
          e2 = clear_gone (vps_ID v) seen old e1
      in e2\<lparr>ae_certHosts := (ae_certHosts e2)(vps_ID v \<mapsto> seen)\<rparr>)"

section \<open>Plugin metrics\<close>

definition plugin_warn :: "vps \<Rightarrow> string \<Rightarrow> metric_def \<Rightarrow> real" where
  "plugin_warn v key d =
     (case vps_Thresholds v of
        None \<Rightarrow> md_Warn d
      | Some t \<Rightarrow> (case th_Plugins t key of
                     None \<Rightarrow> md_Warn d
                   | Some w \<Rightarrow> if w > 0 then w else md_Warn d))"

definition plugin_level :: "real \<Rightarrow> metric_def \<Rightarrow> real \<Rightarrow> string \<times> alert_severity \<times> real" where
  "plugin_level warn d x =
     (if md_Crit d > 0 \<and> x \<ge> md_Crit d then (''crit'', SeverityCritical, md_Crit d)
      else if warn > 0 \<and> x \<ge> warn then (''warn'', SeverityWarning, warn)
      else ([], SeverityWarning, 0))"

definition eval_plugin :: "time \<Rightarrow> vps \<Rightarrow> metric_def \<Rightarrow> string \<Rightarrow> real \<Rightarrow> engine \<Rightarrow> engine" where
  "eval_plugin now v d key x e =
     (let warn = plugin_warn v key d;
          (level, sev, limit) = plugin_level warn d x;
          lowest = (if warn \<le> 0 then md_Crit d else warn);
          (held, e1) = sustained now (vps_ID v) (''plugin'' @ [bar] @ key) (level \<noteq> []) e
      in if held
         then let e2 = clear_levels (vps_ID v) AlertPluginMetric key level [''warn'', ''crit''] e1;
                  label = (if md_Label d = [] then key else md_Label d)
              in fire now v AlertPluginMetric sev (key @ [bar] @ level)
                   (Fmt ''%s at %.1f%s (limit %g%s)''
                      [ArgS label, ArgF x, ArgS (md_Unit d), ArgF limit, ArgS (md_Unit d)]) e2
         else if level = [] \<and> x < lowest * (95 / 100)
         then clear (vps_ID v) AlertPluginMetric (key @ [bar] @ ''crit'')
                (clear (vps_ID v) AlertPluginMetric (key @ [bar] @ ''warn'') e1)
         else e1)"

fun eval_plugin_values ::
  "time \<Rightarrow> vps \<Rightarrow> (string, metric_def) gomap \<Rightarrow> (string, real) gomap \<Rightarrow> engine \<Rightarrow> engine" where
  "eval_plugin_values now v defs [] e = e"
| "eval_plugin_values now v defs ((key, x) # vs) e =
     eval_plugin_values now v defs vs
       (case LookupMetric defs key of None \<Rightarrow> e | Some d \<Rightarrow> eval_plugin now v d key x e)"

text \<open>
  \<open>rest[:strings.LastIndex(rest, "|")]\<close>: everything before the last bar; without a bar the
  slice expression panics.
\<close>

definition before_last_bar :: "string \<Rightarrow> string option" where
  "before_last_bar s = (if bar \<in> set s
     then Some (rev (tl (dropWhile (\<lambda>c. c \<noteq> bar) (rev s)))) else None)"

fun clear_missing :: "vps \<Rightarrow> (string, real) gomap \<Rightarrow> string list \<Rightarrow> engine \<Rightarrow> engine option" where
  "clear_missing v values [] e = Some e"
| "clear_missing v values (i # is) e =
     (let p = active_key (vps_ID v) AlertPluginMetric [] in
      if HasPrefix i p
      then (let r = drop (length p) i in
            case before_last_bar r of
              None \<Rightarrow> None
            | Some key \<Rightarrow> clear_missing v values is
                 (if map_of values key = None then clear (vps_ID v) AlertPluginMetric r e else e))
      else clear_missing v values is e)"

definition evaluatePlugins ::
  "time \<Rightarrow> vps \<Rightarrow> (string, real) gomap \<Rightarrow> (string, metric_def) gomap \<Rightarrow> engine \<Rightarrow> engine option" where
  "evaluatePlugins now v values defs e =
     (let e1 = eval_plugin_values now v defs values e
      in clear_missing v values (ae_active e1) e1)"

definition localVPS :: vps where
  "localVPS = zero_vps\<lparr>vps_ID := ''local'', vps_Name := ''This computer''\<rparr>"

definition EvaluateLocal ::
  "time \<Rightarrow> (string, real) gomap \<Rightarrow> (string, metric_def) gomap \<Rightarrow> engine \<Rightarrow> engine option" where
  "EvaluateLocal now values defs e = evaluatePlugins now localVPS values defs e"

section \<open>One snapshot\<close>

definition EvaluateSnapshot :: "time \<Rightarrow> vps \<Rightarrow> vps_snapshot \<Rightarrow> engine \<Rightarrow> engine option" where
  "EvaluateSnapshot now v snap e =
     (let m = sn_Metrics snap;
          e1 = eval_cpu now v m e;
          e2 = eval_mem now v m e1;
          e3 = eval_disks now v (sm_Disks m) e2;
          e4 = eval_docker now v (sn_Docker snap) e3;
          e5 = eval_services v e4;
          e6 = eval_proxy now v (sn_Proxy snap) e5;
          e7 = evaluateCerts now v (px_Sites (sn_Proxy snap)) e6
      in case ae_pluginMetrics e7 of
           None \<Rightarrow> Some e7
         | Some defs \<Rightarrow> evaluatePlugins now v (sm_Plugins m) defs e7)"

section \<open>Start-up\<close>

definition agentReconnectGrace :: duration where "agentReconnectGrace = 20 * second"

definition NewLocalNet :: "time \<Rightarrow> local_net" where
  "NewLocalNet now = \<lparr> ln_online = True, ln_since = now, ln_checked = 0 \<rparr>"

fun adopt_alerts :: "alert list \<Rightarrow> engine \<Rightarrow> engine" where
  "adopt_alerts [] e = e"
| "adopt_alerts (a # as) e =
     adopt_alerts as
       (if al_Type a = AlertServiceDown \<and> \<not> al_Resolved a
        then e\<lparr>ae_store := snd (ResolveAlert (al_ID a) (ae_store e))\<rparr>
        else if \<not> al_Resolved a
        then e\<lparr>ae_active := List.insert (active_key (al_VPSID a) (al_Type a) (al_Key a)) (ae_active e)\<rparr>
        else e)"

definition NewAlertEngine :: "time \<Rightarrow> store \<Rightarrow> engine" where
  "NewAlertEngine now s =
     (let s1 = snd (PurgeResolvedAlerts s);
          e = \<lparr> ae_store = s1, ae_active = [], ae_since = Map.empty,
                ae_prevContainers = Map.empty, ae_certHosts = Map.empty, ae_reach = Map.empty,
                ae_quietUntil = now + agentReconnectGrace, ae_net = NewLocalNet now,
                ae_tailnetLost = False, ae_has_events = False, ae_has_notify = False,
                ae_pluginMetrics = None, ae_out = [] \<rparr>
      in adopt_alerts (ListAlerts s1) e)"

end
