(* ===== verification/Alerts_Laws.thy ===== *)
theory Alerts_Laws
  imports Alerts
begin

text \<open>
  Laws of the alert engine. The locale \<open>engine_invariant\<close> is the contract a property of the engine
  has to meet to survive every entry point: it must survive raising, clearing and bookkeeping.
  Its lemmas lift that to whole snapshots; it is interpreted for the row/active agreement, for
  the registry invariant and for the shape of the plugin keys.
\<close>

section \<open>Condition keys\<close>

definition no_bar :: "string \<Rightarrow> bool" where
  "no_bar s \<longleftrightarrow> bar \<notin> set s"

lemma split_at_bar: "no_bar a \<Longrightarrow> no_bar b \<Longrightarrow> a @ bar # x = b @ bar # y \<longleftrightarrow> a = b \<and> x = y"
proof (induction a arbitrary: b)
  case Nil
  then show ?case by (cases b) (auto simp: no_bar_def)
next
  case (Cons c a)
  then show ?case by (cases b) (auto simp: no_bar_def)
qed

lemma no_bar_type [simp]: "no_bar (alert_type_str t)"
  by (cases t) (simp_all add: no_bar_def)

lemma alert_type_str_inj [simp]: "alert_type_str t = alert_type_str t' \<longleftrightarrow> t = t'"
  by (cases t; cases t') simp_all

lemma active_key_inj [simp]:
  "no_bar v \<Longrightarrow> no_bar v' \<Longrightarrow>
   active_key v t k = active_key v' t' k' \<longleftrightarrow> v = v' \<and> t = t' \<and> k = k'"
  by (auto simp: active_key_def split_at_bar)

lemma active_key_prefix: "HasPrefix i (active_key v t []) \<longleftrightarrow> (\<exists>k. i = active_key v t k)"
  by (auto simp: HasPrefix_prefix active_key_def prefix_def)

lemma drop_active_key [simp]: "drop (length (active_key v t [])) (active_key v t k) = k"
  by (simp add: active_key_def)

section \<open>What the primitives change\<close>

lemma send_out_fields [simp]:
  "ae_store (send_out x e) = ae_store e" "ae_active (send_out x e) = ae_active e"
  "ae_since (send_out x e) = ae_since e" "ae_certHosts (send_out x e) = ae_certHosts e"
  "ae_reach (send_out x e) = ae_reach e" "ae_quietUntil (send_out x e) = ae_quietUntil e"
  "ae_net (send_out x e) = ae_net e" "ae_tailnetLost (send_out x e) = ae_tailnetLost e"
  "ae_pluginMetrics (send_out x e) = ae_pluginMetrics e"
  "ae_prevContainers (send_out x e) = ae_prevContainers e"
  by (simp_all add: send_out_def)

lemma emit_fields [simp]:
  "ae_store (emit a e) = ae_store e" "ae_active (emit a e) = ae_active e"
  "ae_since (emit a e) = ae_since e" "ae_certHosts (emit a e) = ae_certHosts e"
  "ae_reach (emit a e) = ae_reach e" "ae_quietUntil (emit a e) = ae_quietUntil e"
  "ae_net (emit a e) = ae_net e" "ae_tailnetLost (emit a e) = ae_tailnetLost e"
  "ae_pluginMetrics (emit a e) = ae_pluginMetrics e"
  "ae_prevContainers (emit a e) = ae_prevContainers e"
  by (simp_all add: emit_def)

lemma announce_fields [simp]:
  "ae_store (announce_resolved as e) = ae_store e" "ae_active (announce_resolved as e) = ae_active e"
  "ae_since (announce_resolved as e) = ae_since e" "ae_certHosts (announce_resolved as e) = ae_certHosts e"
  "ae_reach (announce_resolved as e) = ae_reach e" "ae_quietUntil (announce_resolved as e) = ae_quietUntil e"
  "ae_net (announce_resolved as e) = ae_net e" "ae_tailnetLost (announce_resolved as e) = ae_tailnetLost e"
  "ae_pluginMetrics (announce_resolved as e) = ae_pluginMetrics e"
  "ae_prevContainers (announce_resolved as e) = ae_prevContainers e"
  by (induction as e rule: announce_resolved.induct) simp_all

lemma broadcast_fields [simp]:
  "ae_store (broadcast_all as e) = ae_store e" "ae_active (broadcast_all as e) = ae_active e"
  "ae_pluginMetrics (broadcast_all as e) = ae_pluginMetrics e"
  by (induction as e rule: broadcast_all.induct) simp_all

lemma resolve_rows_fields [simp]:
  "ae_store (resolve_rows v t k e) = snd (ResolveAlertsFor v t k (ae_store e))"
  "ae_active (resolve_rows v t k e) = ae_active e"
  "ae_since (resolve_rows v t k e) = ae_since e" "ae_certHosts (resolve_rows v t k e) = ae_certHosts e"
  "ae_reach (resolve_rows v t k e) = ae_reach e" "ae_quietUntil (resolve_rows v t k e) = ae_quietUntil e"
  "ae_net (resolve_rows v t k e) = ae_net e" "ae_tailnetLost (resolve_rows v t k e) = ae_tailnetLost e"
  "ae_pluginMetrics (resolve_rows v t k e) = ae_pluginMetrics e"
  "ae_prevContainers (resolve_rows v t k e) = ae_prevContainers e"
  by (simp_all add: resolve_rows_def split_def Let_def)

lemma deactivate_fields [simp]:
  "ae_store (deactivate i e) = ae_store e"
  "ae_active (deactivate i e) = filter (\<lambda>j. j \<noteq> i) (ae_active e)"
  "ae_since (deactivate i e) = ae_since e" "ae_certHosts (deactivate i e) = ae_certHosts e"
  "ae_reach (deactivate i e) = ae_reach e" "ae_quietUntil (deactivate i e) = ae_quietUntil e"
  "ae_net (deactivate i e) = ae_net e" "ae_tailnetLost (deactivate i e) = ae_tailnetLost e"
  "ae_pluginMetrics (deactivate i e) = ae_pluginMetrics e"
  "ae_prevContainers (deactivate i e) = ae_prevContainers e"
  by (simp_all add: deactivate_def)

lemma fire_active: "set (ae_active (fire now v t sev k msg e)) =
    insert (active_key (vps_ID v) t k) (set (ae_active e))"
  by (auto simp: fire_def Let_def split_def)

lemma fire_distinct: "distinct (ae_active e) \<Longrightarrow> distinct (ae_active (fire now v t sev k msg e))"
  by (auto simp: fire_def Let_def split_def)

lemma fire_store: "ae_store (fire now v t sev k msg e) =
    (if active_key (vps_ID v) t k \<in> set (ae_active e) then ae_store e
     else snd (AddAlert now (new_row v t sev k msg) (ae_store e)))"
  by (simp add: fire_def Let_def split_def)

lemma fire_frame [simp]:
  "ae_since (fire now v t sev k msg e) = ae_since e" "ae_certHosts (fire now v t sev k msg e) = ae_certHosts e"
  "ae_reach (fire now v t sev k msg e) = ae_reach e" "ae_quietUntil (fire now v t sev k msg e) = ae_quietUntil e"
  "ae_net (fire now v t sev k msg e) = ae_net e" "ae_tailnetLost (fire now v t sev k msg e) = ae_tailnetLost e"
  "ae_pluginMetrics (fire now v t sev k msg e) = ae_pluginMetrics e"
  "ae_prevContainers (fire now v t sev k msg e) = ae_prevContainers e"
  by (simp_all add: fire_def Let_def split_def)

lemma clear_active: "set (ae_active (clear v t k e)) = set (ae_active e) - {active_key v t k}"
  by (auto simp: clear_def)

lemma clear_store: "ae_store (clear v t k e) =
    (if active_key v t k \<in> set (ae_active e) then snd (ResolveAlertsFor v t k (ae_store e)) else ae_store e)"
  by (simp add: clear_def)

lemma clear_frame [simp]:
  "ae_since (clear v t k e) = ae_since e" "ae_certHosts (clear v t k e) = ae_certHosts e"
  "ae_reach (clear v t k e) = ae_reach e" "ae_quietUntil (clear v t k e) = ae_quietUntil e"
  "ae_net (clear v t k e) = ae_net e" "ae_tailnetLost (clear v t k e) = ae_tailnetLost e"
  "ae_pluginMetrics (clear v t k e) = ae_pluginMetrics e"
  "ae_prevContainers (clear v t k e) = ae_prevContainers e"
  by (simp_all add: clear_def)

lemma cut_bar_no_bar: "cut_bar s = Some (a, r) \<Longrightarrow> no_bar a"
  by (auto simp: cut_bar_def no_bar_def dest: set_takeWhileD split: if_splits)

lemma plugin_alert_no_bar: "plugin_alert_of pid i = Some (v, t, k) \<Longrightarrow> no_bar v"
  by (auto simp: plugin_alert_of_def split3_def dest!: cut_bar_no_bar split: option.splits if_splits)

section \<open>The contract of an engine invariant\<close>

locale engine_invariant =
  fixes I :: "engine \<Rightarrow> bool"
  assumes I_fire: "no_bar (vps_ID v) \<Longrightarrow> t \<noteq> AlertServiceDown \<Longrightarrow>
            (t = AlertPluginMetric \<longrightarrow> bar \<in> set k) \<Longrightarrow> I e \<Longrightarrow> I (fire now v t sev k msg e)"
    and I_clear: "no_bar i \<Longrightarrow> I e \<Longrightarrow> I (clear i t k e)"
    and I_reachability: "no_bar i \<Longrightarrow> I e \<Longrightarrow> I (clearReachability i e)"
    and I_services: "no_bar (vps_ID v) \<Longrightarrow> I e \<Longrightarrow> I (eval_services v e)"
    and I_since: "I (e\<lparr>ae_since := f\<rparr>) = I e"
    and I_containers: "I (e\<lparr>ae_prevContainers := g\<rparr>) = I e"
    and I_certs: "I (e\<lparr>ae_certHosts := h\<rparr>) = I e"
begin

lemma I_sustained: "I e \<Longrightarrow> I (snd (sustained now i m b e))"
  by (auto simp: sustained_def Let_def I_since split: option.splits)

lemma I_eval_cpu: "no_bar (vps_ID v) \<Longrightarrow> I e \<Longrightarrow> I (eval_cpu now v m e)"
  by (auto simp: eval_cpu_def Let_def split_def intro!: I_fire I_clear I_sustained)

lemma I_eval_mem: "no_bar (vps_ID v) \<Longrightarrow> I e \<Longrightarrow> I (eval_mem now v m e)"
  by (auto simp: eval_mem_def Let_def split_def intro!: I_fire I_clear I_sustained)

lemma I_eval_disks: "no_bar (vps_ID v) \<Longrightarrow> I e \<Longrightarrow> I (eval_disks now v ds e)"
  by (induction now v ds e rule: eval_disks.induct) (simp_all add: Let_def I_fire I_clear)

lemma I_eval_container: "no_bar (vps_ID v) \<Longrightarrow> I e \<Longrightarrow> I (eval_container now v p c e)"
  by (auto simp: eval_container_def Let_def intro!: I_fire I_clear)

lemma I_eval_containers: "no_bar (vps_ID v) \<Longrightarrow> I e \<Longrightarrow> I (eval_containers now v prev cs e)"
  by (induction now v prev cs e rule: eval_containers.induct)
    (simp_all add: I_eval_container split: option.splits)

lemma I_eval_docker: "no_bar (vps_ID v) \<Longrightarrow> I e \<Longrightarrow> I (eval_docker now v d e)"
  by (simp add: eval_docker_def Let_def I_containers I_eval_containers)

lemma I_eval_proxy: "no_bar (vps_ID v) \<Longrightarrow> I e \<Longrightarrow> I (eval_proxy now v p e)"
  by (auto simp: eval_proxy_def Let_def intro!: I_fire I_clear)

lemma I_clear_levels: "no_bar i \<Longrightarrow> I e \<Longrightarrow> I (clear_levels i t k l ls e)"
  by (induction i t k l ls e rule: clear_levels.induct) (simp_all add: I_clear)

lemma I_eval_site: "no_bar (vps_ID v) \<Longrightarrow> I e \<Longrightarrow> I (eval_site now v d x e)"
  by (auto simp: eval_site_def Let_def intro!: I_fire I_clear_levels)

lemma I_eval_sites:
  "no_bar (vps_ID v) \<Longrightarrow> I (snd p) \<Longrightarrow> I (snd (eval_sites now v ss p))"
  by (induction now v ss p rule: eval_sites.induct) (simp_all add: I_eval_site split: option.splits)

lemma I_clear_gone: "no_bar i \<Longrightarrow> I e \<Longrightarrow> I (clear_gone i seen ds e)"
  by (induction i seen ds e rule: clear_gone.induct) (simp_all add: I_clear_levels)

lemma I_evaluateCerts: "no_bar (vps_ID v) \<Longrightarrow> I e \<Longrightarrow> I (evaluateCerts now v ss e)"
  using I_eval_sites [of v "([], e)" now ss]
  by (auto simp: evaluateCerts_def Let_def split_def I_certs intro!: I_clear_gone)

lemma I_eval_plugin: "no_bar (vps_ID v) \<Longrightarrow> I e \<Longrightarrow> I (eval_plugin now v d k x e)"
  using I_sustained [of e now "vps_ID v" "''plugin'' @ [bar] @ k"]
  by (auto simp: eval_plugin_def Let_def split_def intro!: I_fire I_clear I_clear_levels)

lemma I_eval_plugin_values: "no_bar (vps_ID v) \<Longrightarrow> I e \<Longrightarrow> I (eval_plugin_values now v defs vs e)"
  by (induction now v defs vs e rule: eval_plugin_values.induct)
    (simp_all add: I_eval_plugin split: option.splits)

lemma I_clear_missing:
  "clear_missing v vals is e = Some e' \<Longrightarrow> no_bar (vps_ID v) \<Longrightarrow> I e \<Longrightarrow> I e'"
  by (induction v vals "is" e arbitrary: e' rule: clear_missing.induct)
    (simp_all add: Let_def I_clear split: if_splits option.splits)

lemma I_evaluatePlugins:
  "evaluatePlugins now v vals defs e = Some e' \<Longrightarrow> no_bar (vps_ID v) \<Longrightarrow> I e \<Longrightarrow> I e'"
  by (auto simp: evaluatePlugins_def Let_def dest!: I_clear_missing intro: I_eval_plugin_values)

lemma I_EvaluateSnapshot:
  assumes "EvaluateSnapshot now v snap e = Some e'" and "no_bar (vps_ID v)" and "I e"
  shows "I e'"
proof -
  have "I (evaluateCerts now v (px_Sites (sn_Proxy snap)) (eval_proxy now v (sn_Proxy snap)
        (eval_services v (eval_docker now v (sn_Docker snap) (eval_disks now v (sm_Disks (sn_Metrics snap))
        (eval_mem now v (sn_Metrics snap) (eval_cpu now v (sn_Metrics snap) e)))))))"
    using assms(2,3)
    by (intro I_evaluateCerts I_eval_proxy I_services I_eval_docker I_eval_disks I_eval_mem I_eval_cpu)
  with assms(1,2) show ?thesis
    by (auto simp: EvaluateSnapshot_def Let_def split: option.splits intro: I_evaluatePlugins)
qed

lemma I_resolve_plugin_keys: "I e \<Longrightarrow> I (resolve_plugin_keys pid is e)"
  by (induction pid "is" e rule: resolve_plugin_keys.induct)
    (auto simp: I_clear plugin_alert_no_bar split: option.splits)

lemma I_ResolvePluginAll: "I e \<Longrightarrow> I (ResolvePluginAll pid e)"
  by (simp add: ResolvePluginAll_def I_resolve_plugin_keys)

end

section \<open>Rows and conditions agree\<close>

definition condition :: "alert \<Rightarrow> string \<times> alert_type \<times> string" where
  "condition a = (al_VPSID a, al_Type a, al_Key a)"

definition open_rows :: "store \<Rightarrow> alert list" where
  "open_rows s = filter (\<lambda>a. \<not> al_Resolved a) (st_Alerts s)"

text \<open>
  No two open rows are about the same condition, the identifiers in them carry no separator, and
  the condition of every open row is active. The exception are the service alerts of older
  builds: nothing raises them any more, and they are only ever resolved.
\<close>

definition rows_agree :: "engine \<Rightarrow> bool" where
  "rows_agree e \<longleftrightarrow>
     distinct (map condition (open_rows (ae_store e))) \<and>
     (\<forall>a \<in> set (open_rows (ae_store e)).
        no_bar (al_VPSID a) \<and>
        (al_Type a \<noteq> AlertServiceDown \<longrightarrow>
           active_key (al_VPSID a) (al_Type a) (al_Key a) \<in> set (ae_active e)))"

lemma open_for_condition: "open_for v t k a \<longleftrightarrow> \<not> al_Resolved a \<and> condition a = (v, t, k)"
  by (auto simp: open_for_def condition_def)

lemma open_rows_resolve:
  "open_rows (snd (ResolveAlertsFor v t k s)) = filter (\<lambda>a. condition a \<noteq> (v, t, k)) (open_rows s)"
  by (auto simp: open_rows_def ResolveAlertsFor_rows open_for_condition intro!: filter_cong)

lemma suffix_filter: "suffix xs ys \<Longrightarrow> suffix (filter P xs) (filter P ys)"
  by (auto simp: suffix_def)

lemma suffix_distinct_map: "suffix xs ys \<Longrightarrow> distinct (map f ys) \<Longrightarrow> distinct (map f xs)"
  by (auto simp: suffix_def)

lemma open_rows_add:
  "\<not> al_Resolved a \<Longrightarrow>
   suffix (open_rows (snd (AddAlert now a s))) (open_rows s @ [fst (AddAlert now a s)])"
proof -
  assume a: "\<not> al_Resolved a"
  have "suffix (st_Alerts (snd (AddAlert now a s))) (st_Alerts s @ [fst (AddAlert now a s)])"
    unfolding AddAlert_rows by (rule suffix_keep_last)
  then have "suffix (filter (\<lambda>a. \<not> al_Resolved a) (st_Alerts (snd (AddAlert now a s))))
      (filter (\<lambda>a. \<not> al_Resolved a) (st_Alerts s @ [fst (AddAlert now a s)]))"
    by (rule suffix_filter)
  with a rows.add_keeps show ?thesis by (simp add: open_rows_def)
qed

lemma rows_agree_subset:
  "rows_agree e \<Longrightarrow> ae_active e' = ae_active e \<Longrightarrow>
   open_rows (ae_store e') = filter P (open_rows (ae_store e)) \<Longrightarrow> rows_agree e'"
  by (auto simp: rows_agree_def distinct_map_filter)

lemma rows_agree_resolve:
  assumes "rows_agree e" and "no_bar v"
    and "set (ae_active e') = set (ae_active e) - {active_key v t k}"
    and "ae_store e' = snd (ResolveAlertsFor v t k (ae_store e))"
  shows "rows_agree e'"
  using assms by (auto simp: rows_agree_def open_rows_resolve distinct_map_filter condition_def)

lemma rows_agree_fire:
  assumes "no_bar (vps_ID v)" and "t \<noteq> AlertServiceDown" and "rows_agree e"
  shows "rows_agree (fire now v t sev k msg e)"
proof (cases "active_key (vps_ID v) t k \<in> set (ae_active e)")
  case True
  then show ?thesis using assms by (simp add: fire_def)
next
  case False
  let ?row = "fst (AddAlert now (new_row v t sev k msg) (ae_store e))"
  have row: "al_VPSID ?row = vps_ID v" "al_Type ?row = t" "al_Key ?row = k"
    using rows.add_keeps [of now "new_row v t sev k msg" "ae_store e"] by (simp_all add: new_row_def)
  have suf: "suffix (open_rows (ae_store (fire now v t sev k msg e))) (open_rows (ae_store e) @ [?row])"
    using False open_rows_add [of "new_row v t sev k msg"] by (simp add: fire_store new_row_def)
  have "condition ?row \<notin> condition ` set (open_rows (ae_store e))"
    using assms False row by (auto simp: rows_agree_def condition_def)
  then have "distinct (map condition (open_rows (ae_store e) @ [?row]))"
    using assms(3) by (simp add: rows_agree_def)
  with suf have "distinct (map condition (open_rows (ae_store (fire now v t sev k msg e))))"
    by (rule suffix_distinct_map)
  moreover have "set (open_rows (ae_store (fire now v t sev k msg e))) \<subseteq>
      insert ?row (set (open_rows (ae_store e)))"
    using set_mono_suffix [OF suf] by simp
  ultimately show ?thesis
    using assms row by (auto simp: rows_agree_def fire_active)
qed

lemma rows_agree_cong:
  "ae_active e' = ae_active e \<Longrightarrow> ae_store e' = ae_store e \<Longrightarrow> rows_agree e' = rows_agree e"
  by (simp add: rows_agree_def)

lemma rows_agree_clear: "no_bar i \<Longrightarrow> rows_agree e \<Longrightarrow> rows_agree (clear i t k e)"
  by (cases "active_key i t k \<in> set (ae_active e)")
    (auto intro: rows_agree_resolve simp: clear_active clear_store, simp add: clear_def)

lemma rows_agree_reachability: "no_bar i \<Longrightarrow> rows_agree e \<Longrightarrow> rows_agree (clearReachability i e)"
proof -
  assume i: "no_bar i" and e: "rows_agree e"
  let ?e1 = "resolve_rows i AlertAgentOffline [] (deactivate (active_key i AlertAgentOffline []) e)"
  have "rows_agree ?e1"
    by (rule rows_agree_resolve [OF e i]) auto
  then have "rows_agree (resolve_rows i AlertAgentDown [] (deactivate (active_key i AlertAgentDown []) ?e1))"
    by (rule rows_agree_resolve [OF _ i]) auto
  then show ?thesis
    by (simp add: clearReachability_def Let_def rows_agree_def)
qed

lemma eval_services_fields [simp]:
  "ae_store (eval_services v e) = snd (ResolveAlertsFor (vps_ID v) AlertServiceDown [] (ae_store e))"
  "ae_active (eval_services v e) = ae_active e"
  by (simp_all add: eval_services_def split_def Let_def)

lemma rows_agree_services: "rows_agree e \<Longrightarrow> rows_agree (eval_services v e)"
  by (rule rows_agree_subset [OF _ eval_services_fields(2)])
    (simp_all only: eval_services_fields open_rows_resolve)

lemma rows_agree_bookkeeping:
  "rows_agree (e\<lparr>ae_since := f\<rparr>) = rows_agree e"
  "rows_agree (e\<lparr>ae_prevContainers := g\<rparr>) = rows_agree e"
  "rows_agree (e\<lparr>ae_certHosts := h\<rparr>) = rows_agree e"
  by (rule rows_agree_cong; simp)+

interpretation agree: engine_invariant rows_agree
  by unfold_locales
    (simp_all add: rows_agree_fire rows_agree_clear rows_agree_reachability rows_agree_services
      rows_agree_bookkeeping)

interpretation registry: engine_invariant "\<lambda>e. store_wf (ae_store e)"
  by unfold_locales
    (simp_all add: fire_store clear_store clearReachability_def Let_def wf_intros)

section \<open>Plugin keys are cut safely\<close>

definition plugin_keys_ok :: "engine \<Rightarrow> bool" where
  "plugin_keys_ok e \<longleftrightarrow>
     (\<forall>v k. no_bar v \<longrightarrow> active_key v AlertPluginMetric k \<in> set (ae_active e) \<longrightarrow> bar \<in> set k)"

interpretation pkeys: engine_invariant plugin_keys_ok
  by unfold_locales
    (auto simp: plugin_keys_ok_def fire_active clear_active clearReachability_def Let_def)

lemma clear_missing_total:
  assumes "no_bar (vps_ID v)"
    and "\<And>k. active_key (vps_ID v) AlertPluginMetric k \<in> set is \<Longrightarrow> bar \<in> set k"
  shows "\<exists>e'. clear_missing v vals is e = Some e'"
  using assms
  by (induction v vals "is" e rule: clear_missing.induct)
    (auto simp: Let_def active_key_prefix before_last_bar_def split: option.splits)

lemma evaluatePlugins_total:
  assumes "no_bar (vps_ID v)" and "plugin_keys_ok e"
  shows "\<exists>e'. evaluatePlugins now v vals defs e = Some e'"
proof -
  have "plugin_keys_ok (eval_plugin_values now v defs vals e)"
    using assms by (rule pkeys.I_eval_plugin_values)
  with assms(1) show ?thesis
    by (auto simp: evaluatePlugins_def Let_def plugin_keys_ok_def intro: clear_missing_total)
qed

end
