(* ===== verification/Offline_Sweep.thy ===== *)
theory Offline_Sweep
  imports Alerts_Laws
begin

text \<open>
  The offline sweep of \<^verbatim>\<open>src/backend/alerts.go\<close> and the internet line it asks first
  (\<^verbatim>\<open>src/backend/localnet.go\<close>). What the sweep learns from outside (which agents hold a socket,
  whether a host answers, whether the line is up, WireGuard handshakes) is the record
  \<open>sweep_env\<close>; one sweep reads the clock once. A nil \<open>agentHub\<close> or \<open>wg\<close> is \<open>None\<close>.
\<close>

section \<open>Go's \<open>net.SplitHostPort\<close>, its host part\<close>

definition SplitHost :: "string \<Rightarrow> string option" where
  "SplitHost s =
     (case last_index_of (CHR '':'') s of
        None \<Rightarrow> None
      | Some i \<Rightarrow>
          if hd s = CHR ''[''
          then (case index_of (CHR '']'') s of
                  None \<Rightarrow> None
                | Some j \<Rightarrow>
                    if j + 1 \<noteq> i \<or> CHR ''['' \<in> set (drop 1 s) \<or> CHR '']'' \<in> set (drop (j + 1) s)
                    then None else Some (take (j - 1) (drop 1 s)))
          else (let host = take i s in
                if CHR '':'' \<in> set host \<or> CHR ''['' \<in> set s \<or> CHR '']'' \<in> set s
                then None else Some host))"

section \<open>What the sweep asks the outside world\<close>

record sweep_env =
  sw_now :: time
  sw_hub :: "(string \<Rightarrow> bool) option"
  sw_internet :: bool
  sw_icmp :: "string \<Rightarrow> bool"
  sw_tailscale :: "string \<Rightarrow> bool"
  sw_handshake :: "(string \<Rightarrow> time) option"

definition Connected :: "sweep_env \<Rightarrow> string \<Rightarrow> bool" where
  "Connected w i = (case sw_hub w of None \<Rightarrow> False | Some c \<Rightarrow> c i)"

section \<open>The internet line\<close>

definition LocalNet_Check :: "sweep_env \<Rightarrow> engine \<Rightarrow> bool \<times> engine" where
  "LocalNet_Check w e =
     (let up = sw_internet w;
          n = (ae_net e)\<lparr>ln_checked := sw_now w\<rparr>
      in if up \<noteq> ln_online n
         then (up, send_out (BroadcastLocalNet up (sw_now w))
                     (e\<lparr>ae_net := n\<lparr>ln_online := up, ln_since := sw_now w\<rparr>\<rparr>))
         else (up, e\<lparr>ae_net := n\<rparr>))"

definition LocalNet_Up :: "sweep_env \<Rightarrow> duration \<Rightarrow> engine \<Rightarrow> bool \<times> engine" where
  "LocalNet_Up w maxAge e =
     (if ln_online (ae_net e) \<and> time_Sub (sw_now w) (ln_checked (ae_net e)) < maxAge
      then (True, e) else LocalNet_Check w e)"

section \<open>Is the machine there\<close>

abbreviation WGHandshakeFresh :: duration where "WGHandshakeFresh \<equiv> 3 * minute"
abbreviation reachProbeEvery :: duration where "reachProbeEvery \<equiv> 2 * minute"
abbreviation localOutageGrace :: duration where "localOutageGrace \<equiv> 45 * second"
abbreviation sleepGap :: duration where "sleepGap \<equiv> 20 * second"
abbreviation netUpRecheck :: duration where "netUpRecheck \<equiv> 15 * second"

definition ping_target :: "vps \<Rightarrow> string \<Rightarrow> string" where
  "ping_target v host =
     (let p = (if vps_PublicIP v = []
               then (case SplitHost (vps_WGEndpoint v) of None \<Rightarrow> [] | Some h \<Rightarrow> h)
               else vps_PublicIP v)
      in if p = [] then host else p)"

definition handshake_fresh :: "sweep_env \<Rightarrow> string \<Rightarrow> bool" where
  "handshake_fresh w key =
     (case sw_handshake w of
        None \<Rightarrow> False
      | Some hs \<Rightarrow> \<not> time_IsZero (hs key) \<and> time_Sub (sw_now w) (hs key) < WGHandshakeFresh)"

definition probeHost :: "sweep_env \<Rightarrow> string \<Rightarrow> string \<Rightarrow> engine \<Rightarrow> bool" where
  "probeHost w i host e =
     (case GetVPS i (ae_store e) of
        None \<Rightarrow> sw_tailscale w host
      | Some en \<Rightarrow>
          if IsWireGuard (en_VPS en)
          then handshake_fresh w (vps_WGPublicKey (en_VPS en)) \<or> sw_icmp w (ping_target (en_VPS en) host)
          else sw_tailscale w host)"

definition hostReachable :: "sweep_env \<Rightarrow> string \<Rightarrow> string \<Rightarrow> engine \<Rightarrow> bool \<times> engine" where
  "hostReachable w i host e =
     (case ae_reach e i of
        Some (up, asked) \<Rightarrow>
          if time_Sub (sw_now w) asked < reachProbeEvery then (up, e)
          else (let p = probeHost w i host e in (p, e\<lparr>ae_reach := (ae_reach e)(i \<mapsto> (p, sw_now w))\<rparr>))
      | None \<Rightarrow> (let p = probeHost w i host e in (p, e\<lparr>ae_reach := (ae_reach e)(i \<mapsto> (p, sw_now w))\<rparr>)))"

definition holdAlerts :: "sweep_env \<Rightarrow> duration \<Rightarrow> engine \<Rightarrow> engine" where
  "holdAlerts w d e =
     (if sw_now w + d > ae_quietUntil e then e\<lparr>ae_quietUntil := sw_now w + d\<rparr> else e)"

section \<open>One server\<close>

definition MsgAgentDown :: gotext where
  "MsgAgentDown = Lit (''Agent is not responding '' @ em_dash @ '' the VPS itself still answers'')"

definition MsgAgentOffline :: gotext where
  "MsgAgentOffline = Lit (''VPS offline '' @ em_dash @ '' no answer on its address'')"

definition with_store :: "(store \<Rightarrow> store) \<Rightarrow> engine \<Rightarrow> engine" where
  "with_store f e = e\<lparr>ae_store := f (ae_store e)\<rparr>"

text \<open>\<open>UpdateVPS\<close> followed by the broadcast of the list, as every status change does it.\<close>

definition change_vps :: "string \<Rightarrow> (vps \<Rightarrow> vps) \<Rightarrow> engine \<Rightarrow> engine" where
  "change_vps i f e =
     (let e1 = with_store (\<lambda>s. snd (UpdateVPS i (\<lambda>en. en\<lparr>en_VPS := f (en_VPS en)\<rparr>) s)) e
      in send_out (BroadcastVPSList (ListVPS (ae_store e1))) e1)"

abbreviation set_status :: "vps_status \<Rightarrow> vps \<Rightarrow> vps" where
  "set_status st v \<equiv> v\<lparr>vps_Status := st\<rparr>"

abbreviation set_seen_online :: "time \<Rightarrow> vps \<Rightarrow> vps" where
  "set_seen_online now v \<equiv> v\<lparr>vps_Status := VPSOnline, vps_LastSeen := now\<rparr>"

definition sweep_live :: "sweep_env \<Rightarrow> vps \<Rightarrow> restart_marker option \<Rightarrow> engine \<Rightarrow> engine" where
  "sweep_live w v marker e =
     clearReachability (vps_ID v)
       (case marker of
          Some m \<Rightarrow>
            if time_Sub (sw_now w) (rm_Since m) > RestartLiveClearSec * second
            then change_vps (vps_ID v) (set_seen_online (sw_now w)) (with_store (ClearRestart (vps_ID v)) e)
            else if vps_Status v \<noteq> MarkerStatus marker
            then change_vps (vps_ID v) (set_status (MarkerStatus marker)) e
            else e
        | None \<Rightarrow>
            if vps_Status v = VPSOffline \<or> vps_Status v = VPSAgentDown
            then change_vps (vps_ID v) (set_seen_online (sw_now w)) e
            else e)"

definition sweep_gone :: "sweep_env \<Rightarrow> vps \<Rightarrow> engine \<Rightarrow> engine" where
  "sweep_gone w v e =
     (let (hostUp, e1) = hostReachable w (vps_ID v) (vps_Host v) (with_store (ClearSnapshot (vps_ID v)) e);
          want = (if hostUp then VPSAgentDown else VPSOffline);
          e2 = (if vps_Status v \<noteq> want then change_vps (vps_ID v) (set_status want) e1 else e1)
      in if hostUp
         then fire (sw_now w) v AlertAgentDown SeverityCritical [] MsgAgentDown
                (clear (vps_ID v) AlertAgentOffline [] e2)
         else fire (sw_now w) v AlertAgentOffline SeverityCritical [] MsgAgentOffline
                (clear (vps_ID v) AlertAgentDown [] e2))"

definition sweep_silent :: "sweep_env \<Rightarrow> bool \<Rightarrow> vps \<Rightarrow> engine \<Rightarrow> engine" where
  "sweep_silent w alertable v e =
     (let e1 = (if vps_Status v \<noteq> VPSOffline \<and> vps_Status v \<noteq> VPSAgentDown
                then change_vps (vps_ID v) (set_status VPSOffline) e else e)
      in if alertable \<and> time_Sub (sw_now w) (vps_LastSeen v) > OfflineAfterSec * second
         then sweep_gone w v e1 else e1)"

definition sweep_vps :: "sweep_env \<Rightarrow> bool \<Rightarrow> vps \<Rightarrow> engine \<Rightarrow> engine" where
  "sweep_vps w alertable v e =
     (if vps_Status v = VPSPending then e
      else
        let marker = RestartMarker (vps_ID v) (ae_store e);
            markerFresh = (marker \<noteq> None \<and> Fresh (sw_now w) marker);
            e1 = (if marker \<noteq> None \<and> \<not> markerFresh then with_store (ClearRestart (vps_ID v)) e else e)
        in if Connected w (vps_ID v)
           then sweep_live w v (if markerFresh then marker else None) e1
           else if markerFresh
           then (if vps_Status v \<noteq> MarkerStatus marker
                 then change_vps (vps_ID v) (set_status (MarkerStatus marker)) e1 else e1)
           else sweep_silent w alertable v e1)"

fun sweep_list :: "sweep_env \<Rightarrow> bool \<Rightarrow> vps list \<Rightarrow> engine \<Rightarrow> engine" where
  "sweep_list w alertable [] e = e"
| "sweep_list w alertable (v # vs) e = sweep_list w alertable vs (sweep_vps w alertable v e)"

section \<open>The sweep\<close>

definition watched_of :: "vps list \<Rightarrow> vps list" where
  "watched_of vs = filter (\<lambda>v. vps_Status v \<noteq> VPSPending) vs"

definition live_of :: "sweep_env \<Rightarrow> vps list \<Rightarrow> vps list" where
  "live_of w vs = filter (\<lambda>v. Connected w (vps_ID v)) (watched_of vs)"

definition sweepOffline :: "sweep_env \<Rightarrow> engine \<Rightarrow> engine" where
  "sweepOffline w e =
     (if sw_now w < ae_quietUntil e then e
      else
        let vpsList = ListVPS (ae_store e);
            watched = length (watched_of vpsList);
            live = length (live_of w vpsList);
            missing = (live < watched);
            wasUp = ln_online (ae_net e);
            (netUp, e1) = (if missing \<or> \<not> wasUp then LocalNet_Up w netUpRecheck e else (True, e))
        in if netUp \<and> \<not> wasUp then holdAlerts w localOutageGrace e1
           else if netUp \<and> sw_hub w \<noteq> None \<and> 2 \<le> watched \<and> live \<noteq> 0 \<and> ae_tailnetLost e1
           then holdAlerts w localOutageGrace (e1\<lparr>ae_tailnetLost := False\<rparr>)
           else
             let e2 = (if netUp \<and> sw_hub w \<noteq> None \<and> 2 \<le> watched \<and> live = 0
                       then e1\<lparr>ae_tailnetLost := True\<rparr> else e1)
             in sweep_list w (netUp \<and> \<not> ae_tailnetLost e2) vpsList e2)"

text \<open>One tick of \<open>WatchOffline\<close>: the wall clock of the previous sweep tells a nap.\<close>

definition WatchOffline_tick :: "sweep_env \<Rightarrow> time \<times> engine \<Rightarrow> time \<times> engine" where
  "WatchOffline_tick w p =
     (case p of (prev, e) \<Rightarrow>
       (sw_now w,
        sweepOffline w (if time_Sub (sw_now w) prev > sleepGap then holdAlerts w localOutageGrace e else e)))"

end
