(* ===== verification/Engine_Runs.thy ===== *)
theory Engine_Runs
  imports Offline_Sweep
begin

text \<open>
  Runs of the alert engine: the sweep keeps every engine invariant, one step is one entry point
  (or a registry operation beside it), and the two properties of whole runs.
\<close>

section \<open>What a sweep keeps\<close>

locale sweep_invariant = engine_invariant +
  assumes I_reach: "I (e\<lparr>ae_reach := r\<rparr>) = I e"
    and I_net: "I (e\<lparr>ae_net := n\<rparr>) = I e"
    and I_quiet: "I (e\<lparr>ae_quietUntil := q\<rparr>) = I e"
    and I_lost: "I (e\<lparr>ae_tailnetLost := b\<rparr>) = I e"
    and I_out: "I (e\<lparr>ae_out := os\<rparr>) = I e"
    and I_update: "(\<And>en. vps_ID (en_VPS (fn en)) = vps_ID (en_VPS en)) \<Longrightarrow> I e \<Longrightarrow>
                   I (with_store (\<lambda>s. snd (UpdateVPS i fn s)) e)"
    and I_unmark: "I e \<Longrightarrow> I (with_store (ClearRestart i) e)"
    and I_forget: "I e \<Longrightarrow> I (with_store (ClearSnapshot i) e)"
begin

lemma I_change_vps: "(\<And>v. vps_ID (f v) = vps_ID v) \<Longrightarrow> I e \<Longrightarrow> I (change_vps i f e)"
  by (simp add: change_vps_def Let_def send_out_def I_out I_update)

lemma I_hostReachable: "I e \<Longrightarrow> I (snd (hostReachable w i h e))"
  by (auto simp: hostReachable_def Let_def I_reach split: option.splits)

lemma I_sweep_live: "no_bar (vps_ID v) \<Longrightarrow> I e \<Longrightarrow> I (sweep_live w v m e)"
  by (auto simp: sweep_live_def intro!: I_reachability I_change_vps I_unmark split: option.splits)

lemma I_sweep_gone: "no_bar (vps_ID v) \<Longrightarrow> I e \<Longrightarrow> I (sweep_gone w v e)"
  using I_hostReachable [OF I_forget, of e w "vps_ID v"]
  by (auto simp: sweep_gone_def Let_def split_def intro!: I_fire I_clear I_change_vps)

lemma I_sweep_vps: "no_bar (vps_ID v) \<Longrightarrow> I e \<Longrightarrow> I (sweep_vps w al v e)"
  by (auto simp: sweep_vps_def sweep_silent_def Let_def
      intro!: I_sweep_live I_sweep_gone I_change_vps I_unmark)

lemma I_sweep_list: "\<forall>v \<in> set vs. no_bar (vps_ID v) \<Longrightarrow> I e \<Longrightarrow> I (sweep_list w al vs e)"
  by (induction w al vs e rule: sweep_list.induct) (simp_all add: I_sweep_vps)

lemma I_LocalNet_Up: "I e \<Longrightarrow> I (snd (LocalNet_Up w d e))"
  by (simp add: LocalNet_Up_def LocalNet_Check_def Let_def send_out_def I_out I_net)

lemma I_holdAlerts: "I (holdAlerts w d e) = I e"
  by (simp add: holdAlerts_def I_quiet)

lemma I_sweepOffline:
  "\<forall>v \<in> set (ListVPS (ae_store e)). no_bar (vps_ID v) \<Longrightarrow> I e \<Longrightarrow> I (sweepOffline w e)"
  using I_LocalNet_Up [of e w netUpRecheck]
  by (auto simp: sweepOffline_def Let_def split_def I_holdAlerts I_lost intro!: I_sweep_list)

end

lemma with_store_fields [simp]:
  "ae_store (with_store f e) = f (ae_store e)" "ae_active (with_store f e) = ae_active e"
  "ae_reach (with_store f e) = ae_reach e" "ae_tailnetLost (with_store f e) = ae_tailnetLost e"
  "ae_since (with_store f e) = ae_since e"
  by (simp_all add: with_store_def)

lemma update_alerts [simp]: "st_Alerts (snd (UpdateVPS i fn s)) = st_Alerts s"
  by (simp add: UpdateVPS_def split: option.splits)

lemma unmark_alerts [simp]: "st_Alerts (ClearRestart i s) = st_Alerts s"
  by (simp add: ClearRestart_def split: option.splits)

lemma forget_alerts [simp]: "st_Alerts (ClearSnapshot i s) = st_Alerts s"
  by (simp add: ClearSnapshot_def)

lemma rows_agree_same_rows:
  "ae_active e' = ae_active e \<Longrightarrow> st_Alerts (ae_store e') = st_Alerts (ae_store e) \<Longrightarrow>
   rows_agree e' = rows_agree e"
  by (simp add: rows_agree_def open_rows_def)

lemma rows_agree_sweep_fields:
  "rows_agree (e\<lparr>ae_reach := r\<rparr>) = rows_agree e" "rows_agree (e\<lparr>ae_net := n\<rparr>) = rows_agree e"
  "rows_agree (e\<lparr>ae_quietUntil := q\<rparr>) = rows_agree e" "rows_agree (e\<lparr>ae_tailnetLost := b\<rparr>) = rows_agree e"
  "rows_agree (e\<lparr>ae_out := os\<rparr>) = rows_agree e"
  "rows_agree (with_store (\<lambda>s. snd (UpdateVPS i fn s)) e) = rows_agree e"
  "rows_agree (with_store (ClearRestart i) e) = rows_agree e"
  "rows_agree (with_store (ClearSnapshot i) e) = rows_agree e"
  "rows_agree (e\<lparr>ae_has_events := x, ae_has_notify := y, ae_pluginMetrics := z\<rparr>) = rows_agree e"
  "st_Alerts st = st_Alerts (ae_store e) \<Longrightarrow> rows_agree (e\<lparr>ae_store := st\<rparr>) = rows_agree e"
  by (rule rows_agree_same_rows; simp)+

interpretation agree: sweep_invariant rows_agree
  by unfold_locales (simp_all add: rows_agree_sweep_fields)

interpretation registry: sweep_invariant "\<lambda>e. store_wf (ae_store e)"
  by unfold_locales (simp_all add: wf_intros)

interpretation pkeys: sweep_invariant plugin_keys_ok
  by unfold_locales (simp_all add: plugin_keys_ok_def)

section \<open>Steps and runs\<close>

text \<open>
  \<open>registry_step\<close> stands for the registry methods the HTTP handlers and the agent hub call
  beside the engine; the alert rows have no other writer than the engine and the user's
  \<open>ResolveAlert\<close>.
\<close>

inductive engine_step :: "engine \<Rightarrow> engine \<Rightarrow> bool" where
  snapshot: "EvaluateSnapshot now v snap e = Some e' \<Longrightarrow> no_bar (vps_ID v) \<Longrightarrow> engine_step e e'"
| local: "EvaluateLocal now vals defs e = Some e' \<Longrightarrow> engine_step e e'"
| raise_plugin: "no_bar (vps_ID v) \<Longrightarrow> engine_step e (RaisePlugin now v sev k msg e)"
| resolve_plugin: "no_bar i \<Longrightarrow> engine_step e (ResolvePlugin i k e)"
| resolve_plugins: "engine_step e (ResolvePluginAll pid e)"
| user_resolve: "engine_step e (with_store (\<lambda>s. snd (ResolveAlert i s)) e)"
| registry_step: "store_step (ae_store e) s \<Longrightarrow> st_Alerts s = st_Alerts (ae_store e) \<Longrightarrow>
                  engine_step e (e\<lparr>ae_store := s\<rparr>)"
| sweep: "\<forall>v \<in> set (ListVPS (ae_store e)). no_bar (vps_ID v) \<Longrightarrow> engine_step e (sweepOffline w e)"
| configure: "engine_step e (e\<lparr>ae_has_events := b, ae_has_notify := c, ae_pluginMetrics := p\<rparr>)"

abbreviation engine_run :: "engine \<Rightarrow> engine \<Rightarrow> bool" where
  "engine_run \<equiv> engine_step\<^sup>*\<^sup>*"

lemma no_bar_local [simp]: "no_bar (vps_ID localVPS)"
  by (simp add: no_bar_def localVPS_def)

lemma remove_first_id_split:
  "remove_first_id i as = Some bs \<Longrightarrow> \<exists>xs a ys. as = xs @ a # ys \<and> bs = xs @ ys"
proof (induction as arbitrary: bs)
  case (Cons a as)
  show ?case
  proof (cases "al_ID a = i")
    case True
    with Cons.prems show ?thesis by (intro exI [of _ "[]"]) auto
  next
    case False
    with Cons.prems obtain cs where cs: "remove_first_id i as = Some cs" "bs = a # cs" by auto
    from Cons.IH [OF cs(1)] obtain xs b ys where "as = xs @ b # ys" "cs = xs @ ys" by auto
    with cs(2) show ?thesis by (intro exI [of _ "a # xs"]) auto
  qed
qed simp

lemma ResolveAlert_subseq: "subseq (st_Alerts (snd (ResolveAlert i s))) (st_Alerts s)"
  by (cases "remove_first_id i (st_Alerts s)")
    (auto simp: ResolveAlert_def subseq_append' list_emb.list_emb_Cons dest!: remove_first_id_split)

lemma subseq_distinct_map: "subseq xs ys \<Longrightarrow> distinct (map f ys) \<Longrightarrow> distinct (map f xs)"
  using subseq_map [of xs ys f] by (auto simp: subseq_conv_nths distinct_nthsI)

lemma rows_agree_subseq:
  assumes "rows_agree e" and "set (ae_active e) \<subseteq> set (ae_active e')"
    and "subseq (st_Alerts (ae_store e')) (st_Alerts (ae_store e))"
  shows "rows_agree e'"
proof -
  have sub: "subseq (open_rows (ae_store e')) (open_rows (ae_store e))"
    unfolding open_rows_def using assms(3) by (rule subseq_filter)
  then have "set (open_rows (ae_store e')) \<subseteq> set (open_rows (ae_store e))"
    by (auto simp: subseq_conv_nths dest: in_set_nthsD)
  with assms(1,2) subseq_distinct_map [OF sub] show ?thesis
    by (auto simp: rows_agree_def)
qed

lemma rows_agree_ResolveAlert: "rows_agree e \<Longrightarrow> rows_agree (with_store (\<lambda>s. snd (ResolveAlert i s)) e)"
  by (erule rows_agree_subseq) (simp_all add: ResolveAlert_subseq)

lemma rows_agree_step: "engine_step e e' \<Longrightarrow> rows_agree e \<Longrightarrow> rows_agree e'"
  by (induction rule: engine_step.induct)
    (simp_all add: EvaluateLocal_def RaisePlugin_def ResolvePlugin_def rows_agree_fire
      rows_agree_clear rows_agree_ResolveAlert rows_agree_sweep_fields agree.I_EvaluateSnapshot
      agree.I_evaluatePlugins agree.I_ResolvePluginAll agree.I_sweepOffline)

lemma registry_engine_step: "engine_step e e' \<Longrightarrow> store_wf (ae_store e) \<Longrightarrow> store_wf (ae_store e')"
  by (induction rule: engine_step.induct)
    (simp_all add: EvaluateLocal_def RaisePlugin_def ResolvePlugin_def registry.I_fire
      registry.I_clear wf_intros store_step_wf registry.I_EvaluateSnapshot
      registry.I_evaluatePlugins registry.I_ResolvePluginAll registry.I_sweepOffline)

lemma pkeys_step: "engine_step e e' \<Longrightarrow> plugin_keys_ok e \<Longrightarrow> plugin_keys_ok e'"
proof (induction rule: engine_step.induct)
  case (configure e b c p)
  then show ?case by (simp add: plugin_keys_ok_def)
next
  case (user_resolve e i)
  then show ?case by (simp add: plugin_keys_ok_def)
next
  case (registry_step e s)
  then show ?case by (simp add: plugin_keys_ok_def)
qed (simp_all add: EvaluateLocal_def RaisePlugin_def ResolvePlugin_def pkeys.I_fire pkeys.I_clear
    pkeys.I_EvaluateSnapshot pkeys.I_evaluatePlugins pkeys.I_ResolvePluginAll pkeys.I_sweepOffline)

lemma rows_agree_run: "engine_run e e' \<Longrightarrow> rows_agree e \<Longrightarrow> rows_agree e'"
  by (induction rule: rtranclp_induct) (auto intro: rows_agree_step)

lemma registry_run: "engine_run e e' \<Longrightarrow> store_wf (ae_store e) \<Longrightarrow> store_wf (ae_store e')"
  by (induction rule: rtranclp_induct) (auto intro: registry_engine_step)

lemma pkeys_run: "engine_run e e' \<Longrightarrow> plugin_keys_ok e \<Longrightarrow> plugin_keys_ok e'"
  by (induction rule: rtranclp_induct) (auto intro: pkeys_step)

lemma EvaluateSnapshot_total:
  assumes "no_bar (vps_ID v)" and "plugin_keys_ok e"
  shows "\<exists>e'. EvaluateSnapshot now v snap e = Some e'"
proof -
  have "plugin_keys_ok (evaluateCerts now v (px_Sites (sn_Proxy snap)) (eval_proxy now v (sn_Proxy snap)
        (eval_services v (eval_docker now v (sn_Docker snap) (eval_disks now v (sm_Disks (sn_Metrics snap))
        (eval_mem now v (sn_Metrics snap) (eval_cpu now v (sn_Metrics snap) e)))))))"
    using assms
    by (intro pkeys.I_evaluateCerts pkeys.I_eval_proxy pkeys.I_services pkeys.I_eval_docker
        pkeys.I_eval_disks pkeys.I_eval_mem pkeys.I_eval_cpu)
  with assms(1) evaluatePlugins_total show ?thesis
    by (auto simp: EvaluateSnapshot_def Let_def split: option.splits)
qed

section \<open>Start-up\<close>

lemma adopt_alerts_active:
  "set (ae_active (adopt_alerts as e)) = set (ae_active e) \<union>
     {active_key (al_VPSID a) (al_Type a) (al_Key a) | a.
        a \<in> set as \<and> \<not> al_Resolved a \<and> al_Type a \<noteq> AlertServiceDown}"
  by (induction as e rule: adopt_alerts.induct) auto

lemma adopt_alerts_rows:
  "subseq (st_Alerts (ae_store (adopt_alerts as e))) (st_Alerts (ae_store e))"
proof (induction as e rule: adopt_alerts.induct)
  case (2 a as e)
  with ResolveAlert_subseq [of "al_ID a" "ae_store e"] show ?case
    by (auto split: if_splits intro: subseq_order.trans)
qed simp

lemma adopt_alerts_wf: "store_wf (ae_store e) \<Longrightarrow> store_wf (ae_store (adopt_alerts as e))"
  by (induction as e rule: adopt_alerts.induct) (simp_all add: wf_intros)

lemma purge_rows: "st_Alerts (snd (PurgeResolvedAlerts s)) = filter (\<lambda>a. \<not> al_Resolved a) (st_Alerts s)"
proof (cases "length (st_Alerts s) - length (filter (\<lambda>a. \<not> al_Resolved a) (st_Alerts s)) > 0")
  case False
  then have "length (filter (\<lambda>a. \<not> al_Resolved a) (st_Alerts s)) = length (st_Alerts s)"
    using length_filter_le [of "\<lambda>a. \<not> al_Resolved a" "st_Alerts s"] by linarith
  then have "filter (\<lambda>a. \<not> al_Resolved a) (st_Alerts s) = st_Alerts s"
    by (metis filter_id_conv length_filter_conv_card length_filter_less less_irrefl)
  with False show ?thesis by (simp add: PurgeResolvedAlerts_def Let_def)
qed (simp add: PurgeResolvedAlerts_def Let_def)

lemma NewAlertEngine_active:
  "set (ae_active (NewAlertEngine now s)) =
     {active_key (al_VPSID a) (al_Type a) (al_Key a) | a.
        a \<in> set (open_rows s) \<and> al_Type a \<noteq> AlertServiceDown}"
  by (auto simp: NewAlertEngine_def Let_def adopt_alerts_active ListAlerts_def purge_rows open_rows_def)

lemma NewAlertEngine_rows: "subseq (st_Alerts (ae_store (NewAlertEngine now s))) (open_rows s)"
  unfolding NewAlertEngine_def Let_def open_rows_def purge_rows [symmetric]
  by (rule subseq_order.trans [OF adopt_alerts_rows]) simp

lemma NewAlertEngine_agree:
  assumes "distinct (map condition (open_rows s))" and "\<forall>a \<in> set (open_rows s). no_bar (al_VPSID a)"
  shows "rows_agree (NewAlertEngine now s)"
proof -
  have "rows_agree ((NewAlertEngine now s)\<lparr>ae_store := set_Alerts (open_rows s) s\<rparr>)"
    using assms by (auto simp: rows_agree_def NewAlertEngine_active open_rows_def)
  then show ?thesis
    by (rule rows_agree_subseq) (simp_all add: NewAlertEngine_rows)
qed

lemma NewAlertEngine_wf: "store_wf s \<Longrightarrow> store_wf (ae_store (NewAlertEngine now s))"
  by (simp add: NewAlertEngine_def Let_def adopt_alerts_wf wf_intros)

lemma NewAlertEngine_pkeys:
  assumes "\<forall>a \<in> set (open_rows s). no_bar (al_VPSID a) \<and> (al_Type a = AlertPluginMetric \<longrightarrow> bar \<in> set (al_Key a))"
  shows "plugin_keys_ok (NewAlertEngine now s)"
  using assms by (auto simp: plugin_keys_ok_def NewAlertEngine_active)

end
