(* ===== verification/Alert_Properties.thy ===== *)
theory Alert_Properties
  imports Engine_Runs
begin

text \<open>
  Properties of the alert engine: one open row per condition over whole runs, no panic, when
  exactly a sustained alert stands, which certificate alerts stand after a snapshot, and which
  level a plugin metric is measured against.
\<close>

section \<open>Whole runs\<close>

text \<open>
  C1. However snapshots, plugin calls, sweeps, registry operations and the user's own resolving
  interleave, no two open alerts are ever about the same condition of the same server, and the
  registry stays well formed: a condition that is already reported is not reported beside itself,
  across a restart of the backend too, because start-up adopts the open rows.
\<close>

theorem one_open_row_per_condition:
  assumes "engine_run (NewAlertEngine now s) e"
    and "store_wf s" and "distinct (map condition (open_rows s))"
    and "\<forall>a \<in> set (open_rows s). no_bar (al_VPSID a)"
  shows "distinct (map condition (open_rows (ae_store e))) \<and> store_wf (ae_store e) \<and>
         length (open_rows (ae_store e)) \<le> maxAlerts"
proof -
  have "rows_agree e"
    using assms by (blast intro: rows_agree_run NewAlertEngine_agree)
  moreover have wf: "store_wf (ae_store e)"
    using assms by (blast intro: registry_run NewAlertEngine_wf)
  moreover have "length (open_rows (ae_store e)) \<le> length (st_Alerts (ae_store e))"
    by (simp add: open_rows_def)
  ultimately show ?thesis by (simp add: rows_agree_def store_wf_def state_wf_def)
qed

definition demo_engine :: engine where
  "demo_engine = NewAlertEngine 0 (NewStore 0 None None True demo_rand)"

lemma demo_engine_rows [simp]: "open_rows (NewStore now None peers b rnd) = []"
  by (simp add: open_rows_def NewStore_def Let_def empty_state_def)

lemma demo_engine_active [simp]: "ae_active demo_engine = []"
  by (simp add: demo_engine_def NewAlertEngine_def PurgeResolvedAlerts_def NewStore_def Let_def
      empty_state_def ListAlerts_def)

lemma demo_engine_since [simp]: "ae_since demo_engine = Map.empty" "ae_certHosts demo_engine = Map.empty"
  by (simp_all add: demo_engine_def NewAlertEngine_def PurgeResolvedAlerts_def NewStore_def Let_def
      empty_state_def ListAlerts_def)

theorem one_open_row_per_condition_witness:
  "let e = RaisePlugin 5 localVPS SeverityWarning ''disk|a'' (Lit ''full'') demo_engine
   in engine_run demo_engine e \<and>
      active_key ''local'' AlertPlugin ''disk|a'' \<in> set (ae_active e) \<and>
      distinct (map condition (open_rows (ae_store e)))"
proof -
  define e where "e = RaisePlugin 5 localVPS SeverityWarning ''disk|a'' (Lit ''full'') demo_engine"
  have run: "engine_run demo_engine e"
    unfolding e_def by (intro r_into_rtranclp engine_step.raise_plugin) simp
  have "store_wf (NewStore 0 None None True demo_rand)" by (rule NewStore_wf) simp
  then have "distinct (map condition (open_rows (ae_store e)))"
    using one_open_row_per_condition [OF run [unfolded demo_engine_def]] by simp
  moreover have "active_key ''local'' AlertPlugin ''disk|a'' \<in> set (ae_active e)"
    by (simp add: e_def RaisePlugin_def fire_active localVPS_def)
  ultimately show ?thesis using run by (simp add: Let_def e_def)
qed

text \<open>
  C33. A snapshot never panics the backend: the slice expression that cuts the level off a plugin
  condition (\<open>rest[:strings.LastIndex(rest, "|")]\<close>) always finds its separator, in every state
  the engine can reach, as long as the keys of the adopted plugin-metric rows have one.
\<close>

theorem snapshot_never_panics:
  assumes "engine_run (NewAlertEngine t0 s) e"
    and "\<forall>a \<in> set (open_rows s). no_bar (al_VPSID a) \<and>
           (al_Type a = AlertPluginMetric \<longrightarrow> bar \<in> set (al_Key a))"
    and "no_bar (vps_ID v)"
  shows "(\<exists>e'. EvaluateSnapshot now v snap e = Some e') \<and> (\<exists>e'. EvaluateLocal now vals defs e = Some e')"
proof -
  have ok: "plugin_keys_ok e"
    using assms by (blast intro: pkeys_run NewAlertEngine_pkeys)
  have "\<exists>e'. EvaluateSnapshot now v snap e = Some e'"
    using assms(3) ok by (rule EvaluateSnapshot_total)
  moreover have "\<exists>e'. EvaluateLocal now vals defs e = Some e'"
    unfolding EvaluateLocal_def using ok by (intro evaluatePlugins_total) simp_all
  ultimately show ?thesis ..
qed

theorem snapshot_never_panics_witness:
  "\<exists>e'. EvaluateLocal 9 [(''t.cpu'', 80)] [(''t.*'', \<lparr> md_Label = [], md_Unit = [], md_Warn = 70, md_Crit = 90 \<rparr>)]
          demo_engine = Some e'"
  using snapshot_never_panics [of 0 "NewStore 0 None None True demo_rand" demo_engine localVPS]
  by (simp add: demo_engine_def)

section \<open>Sustained alerts\<close>

text \<open>
  The contract the CPU and the memory alert share: a clock that starts at the first sample at
  or above \<open>high\<close> and is reset by any sample below it, and an alarm that is raised when the
  clock has run for ten seconds and taken back by a sample below \<open>clear_at\<close>.
\<close>

locale sustained_alarm =
  fixes step :: "time \<Rightarrow> 'm \<Rightarrow> 'e \<Rightarrow> 'e"
    and val :: "'m \<Rightarrow> real"
    and clock :: "'e \<Rightarrow> time option"
    and alarm :: "'e \<Rightarrow> bool"
    and high :: real
    and clear_at :: real
  assumes band: "clear_at < high"
    and clock_step: "clock (step t m e) =
      (if val m \<ge> high then Some (case clock e of None \<Rightarrow> t | Some s \<Rightarrow> s) else None)"
    and alarm_step: "alarm (step t m e) \<longleftrightarrow>
      (val m \<ge> high \<and> (\<exists>s. clock e = Some s \<and> t - s \<ge> SustainedSeconds * second)) \<or>
      (val m \<ge> clear_at \<and> alarm e)"
begin

definition run :: "(time \<times> 'm) list \<Rightarrow> 'e \<Rightarrow> 'e" where
  "run xs e = fold (\<lambda>(t, m). step t m) xs e"

definition over :: "time \<times> 'm \<Rightarrow> bool" where
  "over x \<longleftrightarrow> val (snd x) \<ge> high"

lemma run_snoc: "run (xs @ [x]) e = step (fst x) (snd x) (run xs e)"
  by (simp add: run_def split_def)

lemma clock_run:
  assumes "clock e = None"
  shows "clock (run xs e) =
    (case takeWhile over (rev xs) of [] \<Rightarrow> None | y # ys \<Rightarrow> Some (fst (last (y # ys))))"
proof (induction xs rule: rev_induct)
  case (snoc x xs)
  then show ?case
    by (auto simp: run_snoc clock_step over_def split: list.splits)
qed (simp add: run_def assms)

definition standing :: "(time \<times> 'm) list \<Rightarrow> bool" where
  "standing xs \<longleftrightarrow> (\<exists>before streak rest.
     xs = before @ streak @ rest \<and> streak \<noteq> [] \<and> (\<forall>x \<in> set streak. val (snd x) \<ge> high) \<and>
     fst (last streak) - fst (hd streak) \<ge> SustainedSeconds * second \<and>
     (\<forall>x \<in> set rest. val (snd x) \<ge> clear_at))"

lemma standing_snoc_old:
  assumes "val (snd x) \<ge> clear_at" and "standing xs"
  shows "standing (xs @ [x])"
proof -
  from assms(2) obtain b k r where "xs = b @ k @ r" "k \<noteq> []" "\<forall>x \<in> set k. val (snd x) \<ge> high"
    "fst (last k) - fst (hd k) \<ge> SustainedSeconds * second" "\<forall>x \<in> set r. val (snd x) \<ge> clear_at"
    unfolding standing_def by blast
  with assms(1) show ?thesis
    unfolding standing_def by (intro exI [of _ b] exI [of _ k] exI [of _ "r @ [x]"]) auto
qed

lemma streak_start:
  assumes "clock e = None" and "clock (run xs e) = Some s"
  shows "\<exists>b k. xs = b @ k \<and> k \<noteq> [] \<and> fst (hd k) = s \<and> (\<forall>x \<in> set k. val (snd x) \<ge> high)"
proof -
  let ?k = "rev (takeWhile over (rev xs))"
  have ne: "?k \<noteq> []" and s: "s = fst (hd ?k)"
    using assms by (auto simp: clock_run hd_rev split: list.splits)
  have "xs = rev (dropWhile over (rev xs)) @ ?k"
    by (metis rev_append rev_rev_ident takeWhile_dropWhile_id)
  moreover have "\<forall>x \<in> set ?k. val (snd x) \<ge> high"
    by (auto simp: over_def dest: set_takeWhileD)
  ultimately show ?thesis using ne s by blast
qed

lemma standing_snoc_new:
  assumes "clock e = None" and "clock (run xs e) = Some s"
    and "val (snd x) \<ge> high" and "fst x - s \<ge> SustainedSeconds * second"
  shows "standing (xs @ [x])"
proof -
  from streak_start [OF assms(1,2)] obtain b k where "xs = b @ k" "k \<noteq> []" "fst (hd k) = s"
    "\<forall>x \<in> set k. val (snd x) \<ge> high" by blast
  with assms(3,4) show ?thesis
    unfolding standing_def by (intro exI [of _ b] exI [of _ "k @ [x]"] exI [of _ "[]"]) auto
qed

lemma streak_clock:
  assumes "clock e = None" and "sorted (map fst (b @ k))" and "k \<noteq> []" and "\<forall>x \<in> set k. val (snd x) \<ge> high"
  shows "\<exists>s. clock (run (b @ k) e) = Some s \<and> s \<le> fst (hd k)"
proof -
  let ?c = "takeWhile over (rev b)"
  have c: "takeWhile over (rev (b @ k)) = rev k @ ?c"
    using assms(4) takeWhile_append2 [of "rev k" over "rev b"] by (simp add: over_def)
  have "last ?c \<in> set b" if "?c \<noteq> []"
    using last_in_set [OF that] by (auto dest: set_takeWhileD)
  with assms(2,3) have "fst (last (rev k @ ?c)) \<le> fst (hd k)"
    by (cases "?c = []") (auto simp: last_rev sorted_append)
  with c assms(1,3) show ?thesis
    by (auto simp: clock_run split: list.splits)
qed

lemma standing_snocD:
  assumes "clock e = None" and "sorted (map fst (xs @ [x]))" and "standing (xs @ [x])"
  shows "(val (snd x) \<ge> high \<and> (\<exists>s. clock (run xs e) = Some s \<and> fst x - s \<ge> SustainedSeconds * second))
       \<or> (val (snd x) \<ge> clear_at \<and> standing xs)"
proof -
  from assms(3) obtain b k r where split: "xs @ [x] = b @ k @ r" and k: "k \<noteq> []"
    "\<forall>x \<in> set k. val (snd x) \<ge> high" "fst (last k) - fst (hd k) \<ge> SustainedSeconds * second"
    and r: "\<forall>x \<in> set r. val (snd x) \<ge> clear_at"
    unfolding standing_def by blast
  show ?thesis
  proof (cases r rule: rev_cases)
    case Nil
    with split k(1) obtain j where j: "k = j @ [x]" "xs = b @ j"
      by (cases k rule: rev_cases) auto
    with k(3) have "j \<noteq> []" by auto
    with j k(2) assms(2) have "\<exists>s. clock (run (b @ j) e) = Some s \<and> s \<le> fst (hd j)"
      by (intro streak_clock [OF assms(1)]) (auto simp: sorted_append)
    with j k(2,3) \<open>j \<noteq> []\<close> show ?thesis by fastforce
  next
    case (snoc r' y)
    with split have "xs = b @ k @ r'" "y = x" by auto
    with k r snoc have "standing xs" "val (snd x) \<ge> clear_at"
      unfolding standing_def by auto
    then show ?thesis by blast
  qed
qed

lemma alarm_run:
  assumes "clock e = None" and "\<not> alarm e" and "sorted (map fst xs)"
  shows "alarm (run xs e) \<longleftrightarrow> standing xs"
  using assms(3)
proof (induction xs rule: rev_induct)
  case Nil
  then show ?case using assms(2) by (simp add: run_def standing_def)
next
  case (snoc x xs)
  then have IH: "alarm (run xs e) \<longleftrightarrow> standing xs" by (simp add: sorted_append)
  show ?case
    using standing_snocD [OF assms(1) snoc.prems] standing_snoc_old [of x xs]
      standing_snoc_new [OF assms(1), of xs _ x] band
    unfolding run_snoc alarm_step IH by blast
qed

end

lemma sustained_fields:
  "ae_since (snd (sustained now i m b e)) (i @ [bar] @ m) =
     (if b then Some (case ae_since e (i @ [bar] @ m) of None \<Rightarrow> now | Some s \<Rightarrow> s) else None)"
  "fst (sustained now i m b e) \<longleftrightarrow> b \<and> (\<exists>s. ae_since e (i @ [bar] @ m) = Some s \<and> now - s \<ge> SustainedSeconds * second)"
  "ae_active (snd (sustained now i m b e)) = ae_active e"
  "ae_store (snd (sustained now i m b e)) = ae_store e"
  by (auto simp: sustained_def Let_def split: option.splits)

interpretation cpu: sustained_alarm "\<lambda>t m. eval_cpu t v m" sm_CPUPercent
  "\<lambda>e. ae_since e (vps_ID v @ [bar] @ ''cpu'')"
  "\<lambda>e. active_key (vps_ID v) AlertCPUHigh [] \<in> set (ae_active e)"
  "et_cpuHigh (EffectiveThresholds v)" "et_cpuClear (EffectiveThresholds v)" for v
  using EffectiveThresholds_hysteresis [of v] sustained_fields [of _ "vps_ID v" "''cpu''"]
  by unfold_locales (auto simp: eval_cpu_def Let_def split_def fire_active clear_active)

interpretation mem: sustained_alarm "\<lambda>t m. eval_mem t v m" sm_MemPercent
  "\<lambda>e. ae_since e (vps_ID v @ [bar] @ ''mem'')"
  "\<lambda>e. active_key (vps_ID v) AlertMemHigh [] \<in> set (ae_active e)"
  "et_memHigh (EffectiveThresholds v)" "et_memClear (EffectiveThresholds v)" for v
  using EffectiveThresholds_hysteresis [of v] sustained_fields [of _ "vps_ID v" "''mem''"]
  by unfold_locales (auto simp: eval_mem_def Let_def split_def fire_active clear_active)

text \<open>
  C14. The CPU alert stands after a sequence of samples exactly when some unbroken streak of
  samples at or above the server's own limit lasted at least ten seconds and no later sample
  fell below the clear level: a momentary spike never raises it, a value inside the band between
  the two levels never changes it.
\<close>

theorem cpu_alert_exactly_when_sustained:
  assumes "sorted (map fst xs)" and "ae_since e (vps_ID v @ ''|cpu'') = None"
    and "active_key (vps_ID v) AlertCPUHigh [] \<notin> set (ae_active e)"
  shows "active_key (vps_ID v) AlertCPUHigh [] \<in> set (ae_active (fold (\<lambda>(t, m). eval_cpu t v m) xs e)) \<longleftrightarrow>
    (\<exists>before streak rest. xs = before @ streak @ rest \<and> streak \<noteq> [] \<and>
       (\<forall>(t, m) \<in> set streak. sm_CPUPercent m \<ge> et_cpuHigh (EffectiveThresholds v)) \<and>
       fst (last streak) - fst (hd streak) \<ge> SustainedSeconds * second \<and>
       (\<forall>(t, m) \<in> set rest. sm_CPUPercent m \<ge> et_cpuClear (EffectiveThresholds v)))"
  using cpu.alarm_run [of e v xs] assms by (simp add: cpu.run_def cpu.standing_def split_def)

abbreviation cpu_sample :: "real \<Rightarrow> system_metrics" where
  "cpu_sample x \<equiv> zero_metrics\<lparr>sm_CPUPercent := x\<rparr>"

theorem cpu_alert_exactly_when_sustained_witness:
  "active_key ''local'' AlertCPUHigh [] \<in>
     set (ae_active (fold (\<lambda>(t, m). eval_cpu t localVPS m)
       [(0, cpu_sample 90), (10 * second, cpu_sample 95), (12 * second, cpu_sample 80)] demo_engine))"
proof -
  let ?xs = "[(0, cpu_sample 90), (10 * second, cpu_sample 95), (12 * second, cpu_sample 80)]"
  have "\<exists>before streak rest. ?xs = before @ streak @ rest \<and> streak \<noteq> [] \<and>
       (\<forall>(t, m) \<in> set streak. sm_CPUPercent m \<ge> et_cpuHigh (EffectiveThresholds localVPS)) \<and>
       fst (last streak) - fst (hd streak) \<ge> SustainedSeconds * second \<and>
       (\<forall>(t, m) \<in> set rest. sm_CPUPercent m \<ge> et_cpuClear (EffectiveThresholds localVPS))"
    by (rule exI [of _ "[]"], rule exI [of _ "take 2 ?xs"], rule exI [of _ "drop 2 ?xs"])
      (simp add: localVPS_def zero_vps_def EffectiveThresholds_def threshold_defs zero_metrics_def)
  then show ?thesis
    using cpu_alert_exactly_when_sustained [of ?xs demo_engine localVPS]
    by (simp add: localVPS_def)
qed

text \<open>The memory alert stands after a sequence of samples under the same rule, with its own limits.\<close>

lemma mem_alert_exactly_when_sustained:
  assumes "sorted (map fst xs)" and "ae_since e (vps_ID v @ ''|mem'') = None"
    and "active_key (vps_ID v) AlertMemHigh [] \<notin> set (ae_active e)"
  shows "active_key (vps_ID v) AlertMemHigh [] \<in> set (ae_active (fold (\<lambda>(t, m). eval_mem t v m) xs e)) \<longleftrightarrow>
    (\<exists>before streak rest. xs = before @ streak @ rest \<and> streak \<noteq> [] \<and>
       (\<forall>(t, m) \<in> set streak. sm_MemPercent m \<ge> et_memHigh (EffectiveThresholds v)) \<and>
       fst (last streak) - fst (hd streak) \<ge> SustainedSeconds * second \<and>
       (\<forall>(t, m) \<in> set rest. sm_MemPercent m \<ge> et_memClear (EffectiveThresholds v)))"
  using mem.alarm_run [of e v xs] assms by (simp add: mem.run_def mem.standing_def split_def)

section \<open>Certificates\<close>

lemma level_key_eq:
  "no_bar l \<Longrightarrow> no_bar l' \<Longrightarrow> d @ bar # l = d' @ bar # l' \<longleftrightarrow> d = d' \<and> l = l'"
  using split_at_bar [of "rev l" "rev l'" "rev d" "rev d'"]
  by (metis no_bar_def append.assoc append_Cons append_Nil rev.simps(2) rev_append rev_rev_ident set_rev)

lemma certLevels_no_bar: "l \<in> set certLevels \<Longrightarrow> no_bar l"
  by (auto simp: certLevels_def no_bar_def)

lemma cert_level_cases: "cert_level now x \<in> insert [] (set certLevels)"
  by (simp add: cert_level_def certLevels_def Let_def)

lemma cert_level_no_bar: "no_bar (cert_level now x)"
  using cert_level_cases [of now x] certLevels_no_bar by (auto simp: no_bar_def)

lemma clear_levels_active:
  "set (ae_active (clear_levels i t k lv ls e)) =
   set (ae_active e) - {active_key i t (k @ bar # l) | l. l \<in> set ls \<and> l \<noteq> lv}"
  by (induction i t k lv ls e rule: clear_levels.induct) (auto simp: clear_active)

lemma clear_levels_certHosts [simp]: "ae_certHosts (clear_levels i t k lv ls e) = ae_certHosts e"
  by (induction i t k lv ls e rule: clear_levels.induct) simp_all

lemma eval_site_certHosts [simp]: "ae_certHosts (eval_site now v d x e) = ae_certHosts e"
  by (simp add: eval_site_def Let_def)

lemma clear_gone_certHosts [simp]: "ae_certHosts (clear_gone i seen ds e) = ae_certHosts e"
  by (induction i seen ds e rule: clear_gone.induct) simp_all

abbreviation cert_key :: "vps \<Rightarrow> string \<Rightarrow> string \<Rightarrow> string" where
  "cert_key v d l \<equiv> active_key (vps_ID v) AlertCertExpiring (d @ bar # l)"

lemma eval_site_active:
  assumes "no_bar (vps_ID v)" and "l \<in> set certLevels"
  shows "cert_key v d l \<in> set (ae_active (eval_site now v d' x e)) \<longleftrightarrow>
    (if d = d' then l = cert_level now x else cert_key v d l \<in> set (ae_active e))"
proof -
  have "l \<noteq> []" using assms(2) by (auto simp: certLevels_def)
  then show ?thesis
    using assms certLevels_no_bar [OF assms(2)] certLevels_no_bar cert_level_no_bar [of now x]
    by (auto simp: eval_site_def Let_def fire_active clear_levels_active level_key_eq)
qed

text \<open>The certificate the snapshot shows for a domain: the last site that carries one.\<close>

fun cert_of :: "string \<Rightarrow> proxy_site list \<Rightarrow> time option" where
  "cert_of d [] = None"
| "cert_of d (s # ss) =
     (case cert_of d ss of
        Some x \<Rightarrow> Some x
      | None \<Rightarrow> if ps_Domain s = d \<and> d \<noteq> [] then ps_CertNotAfter s else None)"

lemma eval_sites_certHosts: "ae_certHosts (snd (eval_sites now v ss p)) = ae_certHosts (snd p)"
  by (induction now v ss p rule: eval_sites.induct) (simp_all split: option.splits)

lemma eval_sites_seen:
  "set (fst (eval_sites now v ss p)) = set (fst p) \<union> {d. cert_of d ss \<noteq> None}"
  by (induction now v ss p rule: eval_sites.induct) (auto simp: split: option.splits if_splits)

lemma eval_sites_active:
  assumes "no_bar (vps_ID v)" and "l \<in> set certLevels"
  shows "cert_key v d l \<in> set (ae_active (snd (eval_sites now v ss p))) \<longleftrightarrow>
    (case cert_of d ss of Some x \<Rightarrow> l = cert_level now x | None \<Rightarrow> cert_key v d l \<in> set (ae_active (snd p)))"
  using assms
  by (induction now v ss p rule: eval_sites.induct)
    (auto simp: eval_site_active split: option.splits if_splits)

lemma clear_gone_active:
  assumes "no_bar i" and "l \<in> set certLevels"
  shows "active_key i AlertCertExpiring (d @ bar # l) \<in> set (ae_active (clear_gone i seen ds e)) \<longleftrightarrow>
    active_key i AlertCertExpiring (d @ bar # l) \<in> set (ae_active e) \<and> (d \<in> set seen \<or> d \<notin> set ds)"
  using assms
proof (induction i seen ds e rule: clear_gone.induct)
  case (2 i seen g ds e)
  moreover have "l \<noteq> []" using assms(2) by (auto simp: certLevels_def)
  ultimately show ?case
    using certLevels_no_bar by (auto simp: clear_levels_active level_key_eq)
qed simp

text \<open>
  C32. After a snapshot the certificate alerts of every domain are exactly right: a domain the
  proxy shows has one alert, at the level its remaining time asks for, or none when it is far from
  expiring; a domain that disappeared since the previous snapshot has none. An alert for a domain
  neither this nor the previous snapshot shows is left as it is.
\<close>

theorem certificate_alerts_exact:
  assumes "no_bar (vps_ID v)" and "l \<in> set certLevels"
  shows "active_key (vps_ID v) AlertCertExpiring (d @ bar # l) \<in> set (ae_active (evaluateCerts now v sites e)) \<longleftrightarrow>
    (case cert_of d sites of
       Some x \<Rightarrow> l = cert_level now x
     | None \<Rightarrow> active_key (vps_ID v) AlertCertExpiring (d @ bar # l) \<in> set (ae_active e) \<and>
              (\<forall>hs. ae_certHosts e (vps_ID v) = Some hs \<longrightarrow> d \<notin> set hs))"
  using assms
  by (auto simp: evaluateCerts_def Let_def split_def clear_gone_active eval_sites_active eval_sites_seen
      eval_sites_certHosts split: option.splits)

theorem certificate_alerts_exact_witness:
  "active_key ''local'' AlertCertExpiring (''a.io'' @ bar # ''crit'') \<in>
     set (ae_active (evaluateCerts 0 localVPS [\<lparr> ps_Domain = ''a.io'', ps_CertNotAfter = Some (48 * hour) \<rparr>] demo_engine))"
  using certificate_alerts_exact [of localVPS "''crit''" "''a.io''" 0
      "[\<lparr> ps_Domain = ''a.io'', ps_CertNotAfter = Some (48 * hour) \<rparr>]" demo_engine]
  by (simp add: certLevels_def cert_level_def localVPS_def no_bar_def)

text \<open>
  A restart forgets which domains had a certificate (\<open>certHosts\<close> is not rebuilt from the
  adopted rows), so the alert of a site that was removed while the backend was down is never
  resolved: however many snapshots without the site follow, the condition stays active.
\<close>

lemma certificate_alert_stuck_after_restart:
  assumes "a \<in> set (open_rows s)" and "al_Type a = AlertCertExpiring" and "al_VPSID a = vps_ID v"
    and "al_Key a = d @ bar # l" and "l \<in> set certLevels" and "no_bar (vps_ID v)"
    and "\<forall>(t, sites) \<in> set snaps. cert_of d sites = None"
  shows "active_key (vps_ID v) AlertCertExpiring (d @ bar # l) \<in>
           set (ae_active (fold (\<lambda>(t, sites). evaluateCerts t v sites) snaps (NewAlertEngine now s)))"
proof -
  have adopt: "ae_certHosts (adopt_alerts as e) = ae_certHosts e" for as e
    by (induction as e rule: adopt_alerts.induct) simp_all
  have "ae_certHosts (NewAlertEngine now s) (vps_ID v) = None"
    by (simp add: NewAlertEngine_def Let_def adopt)
  moreover have "cert_key v d l \<in> set (ae_active (NewAlertEngine now s))"
    unfolding NewAlertEngine_active using assms(1-4) by (intro CollectI exI [of _ a]) simp
  moreover have "cert_key v d l \<in> set (ae_active (fold (\<lambda>(t, sites). evaluateCerts t v sites) snaps e))"
    if "cert_key v d l \<in> set (ae_active e)" and "\<forall>hs. ae_certHosts e (vps_ID v) = Some hs \<longrightarrow> d \<notin> set hs" for e
    using that assms(7)
  proof (induction snaps arbitrary: e)
    case (Cons p ps)
    obtain t sites where p: "p = (t, sites)" by (cases p)
    have "cert_key v d l \<in> set (ae_active (evaluateCerts t v sites e))"
      using Cons.prems assms(5,6) p
      by (auto simp: evaluateCerts_def Let_def split_def clear_gone_active eval_sites_active
          eval_sites_seen eval_sites_certHosts split: option.splits)
    moreover have "\<forall>hs. ae_certHosts (evaluateCerts t v sites e) (vps_ID v) = Some hs \<longrightarrow> d \<notin> set hs"
      using Cons.prems(3) eval_sites_seen [of t v sites "([], e)"] p
      by (auto simp: evaluateCerts_def Let_def split_def)
    ultimately show ?case using Cons.IH Cons.prems(3) p by simp
  qed simp
  ultimately show ?thesis by simp
qed

section \<open>Plugin metric levels\<close>

text \<open>
  A metric's declaration does not depend on the order Go iterates the declarations in: it is
  the one under the metric's own name, else the one under the longest matching \<open>prefix*\<close>.
\<close>

lemma LookupMetric_longest_match:
  assumes "gomap_ok defs" and "set defs' = set defs" and "gomap_ok defs'"
  shows "LookupMetric defs' name = LookupMetric defs name \<and>
    (\<forall>d. LookupMetric defs name = Some d \<longrightarrow>
       (name, d) \<in> set defs \<or>
       (name \<notin> fst ` set defs \<and> (\<exists>k. (k, d) \<in> set defs \<and> wildcard_matches name k \<and>
          (\<forall>j \<in> fst ` set defs. wildcard_matches name j \<longrightarrow> length j \<le> length k))))"
proof -
  have maps: "map_of defs' = map_of defs"
    using assms by (intro ext) (metis gomap_lookup_iff not_Some_eq)
  have "set (map fst defs') = set (map fst defs)" using assms(2) by simp
  then have best: "best_wildcard name [] (map fst defs') = best_wildcard name [] (map fst defs)"
    by (rule best_wildcard_set_eq)
  have same: "LookupMetric defs' name = LookupMetric defs name"
    by (simp add: LookupMetric_def Let_def maps best split: option.split)
  have "(name, d) \<in> set defs \<or>
       (name \<notin> fst ` set defs \<and> (\<exists>k. (k, d) \<in> set defs \<and> wildcard_matches name k \<and>
          (\<forall>j \<in> fst ` set defs. wildcard_matches name j \<longrightarrow> length j \<le> length k)))"
    if "LookupMetric defs name = Some d" for d
  proof (cases "map_of defs name")
    case None
    with that have "best_wildcard name [] (map fst defs) \<noteq> []"
      and "map_of defs (best_wildcard name [] (map fst defs)) = Some d"
      by (auto simp: LookupMetric_def Let_def split: if_splits)
    with None show ?thesis
      using best_wildcard_spec [of name "[]" "map fst defs"]
      by (auto simp: map_of_eq_None_iff dest: map_of_SomeD)
  next
    case (Some x)
    with that show ?thesis by (auto simp: LookupMetric_def dest: map_of_SomeD)
  qed
  with same show ?thesis by blast
qed

end
