(* ===== verification/Sweep_Properties.thy ===== *)
theory Sweep_Properties
  imports Alert_Properties
begin

text \<open>
  When the offline sweep reports a server, and when it keeps quiet.
\<close>

section \<open>What one server's turn leaves alone\<close>

text \<open>
  The turn of one server is invisible to the others: their markers, their probe cache and the
  entry fields a probe reads stay as they were.
\<close>

definition same_for :: "string \<Rightarrow> engine \<Rightarrow> engine \<Rightarrow> bool" where
  "same_for i e e' \<longleftrightarrow>
     map_of (st_VPS (ae_store e')) i = map_of (st_VPS (ae_store e)) i \<and>
     ae_reach e' i = ae_reach e i \<and>
     (\<forall>t k. active_key i t k \<in> set (ae_active e') \<longleftrightarrow> active_key i t k \<in> set (ae_active e))"

lemma same_for_refl [simp]: "same_for i e e"
  by (simp add: same_for_def)

lemma same_for_trans: "same_for i e e1 \<Longrightarrow> same_for i e1 e2 \<Longrightarrow> same_for i e e2"
  by (simp add: same_for_def)

lemma reachability_fields [simp]:
  "ae_store (clearReachability i e) = snd (ResolveAlertsFor i AlertAgentDown []
      (snd (ResolveAlertsFor i AlertAgentOffline [] (ae_store e))))"
  "ae_reach (clearReachability i e) = (ae_reach e)(i := None)"
  "set (ae_active (clearReachability i e)) =
     set (ae_active e) - {active_key i AlertAgentOffline [], active_key i AlertAgentDown []}"
  by (auto simp: clearReachability_def Let_def)

lemma resolve_VPS [simp]: "st_VPS (snd (ResolveAlertsFor i t k s)) = st_VPS s"
  by (simp add: ResolveAlertsFor_def Let_def)

lemma add_VPS [simp]: "st_VPS (snd (AddAlert now a s)) = st_VPS s"
  by (simp add: AddAlert_def newID_def Let_def)

lemma fire_VPS [simp]: "st_VPS (ae_store (fire now v t sev k msg e)) = st_VPS (ae_store e)"
  by (simp add: fire_store)

lemma clear_VPS [simp]: "st_VPS (ae_store (clear i t k e)) = st_VPS (ae_store e)"
  by (simp add: clear_store)

lemma forget_VPS [simp]: "st_VPS (ClearSnapshot i s) = st_VPS s"
  by (simp add: ClearSnapshot_def)

lemma change_fields [simp]:
  "ae_reach (change_vps i f e) = ae_reach e" "ae_active (change_vps i f e) = ae_active e"
  "ae_tailnetLost (change_vps i f e) = ae_tailnetLost e"
  "map_of (st_VPS (ae_store (change_vps i f e))) j =
     (if j = i then map_option (\<lambda>en. en\<lparr>en_VPS := f (en_VPS en)\<rparr>) (map_of (st_VPS (ae_store e)) i)
      else map_of (st_VPS (ae_store e)) j)"
  by (auto simp: change_vps_def Let_def UpdateVPS_def split: option.splits)

lemma unmark_VPS [simp]:
  "map_of (st_VPS (ClearRestart i s)) j =
     (if j = i then map_option (\<lambda>en. en\<lparr>en_Restart := None\<rparr>) (map_of (st_VPS s) i) else map_of (st_VPS s) j)"
  by (auto simp: ClearRestart_def split: option.splits)

lemma hostReachable_fields [simp]:
  "ae_active (snd (hostReachable w i h e)) = ae_active e" "ae_store (snd (hostReachable w i h e)) = ae_store e"
  "j \<noteq> i \<Longrightarrow> ae_reach (snd (hostReachable w i h e)) j = ae_reach e j"
  by (auto simp: hostReachable_def Let_def split: option.splits)

lemma sweep_gone_same:
  "no_bar i \<Longrightarrow> no_bar (vps_ID v) \<Longrightarrow> i \<noteq> vps_ID v \<Longrightarrow> same_for i e (sweep_gone w v e)"
  by (auto simp: same_for_def sweep_gone_def Let_def split_def fire_active clear_active)

lemma sweep_vps_same:
  assumes "no_bar i" and "no_bar (vps_ID v)" and "i \<noteq> vps_ID v"
  shows "same_for i e (sweep_vps w al v e)"
proof -
  have live: "same_for i e (sweep_live w v m e)" for m e
    using assms by (auto simp: same_for_def sweep_live_def split: option.splits)
  have ch: "same_for i e (change_vps (vps_ID v) f e)" for f e
    using assms by (simp add: same_for_def)
  have un: "same_for i e (with_store (ClearRestart (vps_ID v)) e)" for e
    using assms by (simp add: same_for_def)
  have sil: "same_for i e (sweep_silent w al v e)" for e
    using same_for_trans [OF ch sweep_gone_same [OF assms]] ch sweep_gone_same [OF assms]
    by (simp add: sweep_silent_def Let_def)
  show ?thesis
    unfolding sweep_vps_def Let_def
    using live sil ch un same_for_trans [OF un live] same_for_trans [OF un sil] same_for_trans [OF un ch]
    by simp
qed

lemma sweep_list_same:
  "no_bar i \<Longrightarrow> \<forall>v \<in> set vs. no_bar (vps_ID v) \<and> vps_ID v \<noteq> i \<Longrightarrow> same_for i e (sweep_list w al vs e)"
proof (induction w al vs e rule: sweep_list.induct)
  case (2 w al v vs e)
  then show ?case using sweep_vps_same [of i v e w al] same_for_trans by auto
qed simp

lemma sweep_list_split: "sweep_list w al (xs @ ys) e = sweep_list w al ys (sweep_list w al xs e)"
  by (induction w al xs e rule: sweep_list.induct) simp_all

text \<open>So the outcome for one server is its own turn, taken in the state before the sweep.\<close>

lemma sweep_list_one:
  assumes "v \<in> set vs" and "distinct (map vps_ID vs)" and "\<forall>v \<in> set vs. no_bar (vps_ID v)"
  shows "\<exists>e1. same_for (vps_ID v) e e1 \<and>
           same_for (vps_ID v) (sweep_vps w al v e1) (sweep_list w al vs e)"
proof -
  obtain xs ys where vs: "vs = xs @ v # ys" using assms(1) by (meson split_list)
  have "same_for (vps_ID v) e (sweep_list w al xs e)"
    and "same_for (vps_ID v) e2 (sweep_list w al ys e2)" for e2
    using assms by (auto simp: vs image_iff intro!: sweep_list_same)
  then show ?thesis by (auto simp: vs sweep_list_split)
qed

section \<open>When a server is reported\<close>

definition alertable_sweep :: "sweep_env \<Rightarrow> engine \<Rightarrow> bool" where
  "alertable_sweep w e \<longleftrightarrow>
     sw_now w \<ge> ae_quietUntil e \<and> ln_online (ae_net e) \<and>
     (time_Sub (sw_now w) (ln_checked (ae_net e)) < netUpRecheck \<or> sw_internet w) \<and>
     \<not> ae_tailnetLost e \<and>
     (sw_hub w = None \<or> length (watched_of (ListVPS (ae_store e))) < 2 \<or> live_of w (ListVPS (ae_store e)) \<noteq> [])"

definition outage :: "sweep_env \<Rightarrow> engine \<Rightarrow> vps \<Rightarrow> bool" where
  "outage w e v \<longleftrightarrow>
     alertable_sweep w e \<and> vps_Status v \<noteq> VPSPending \<and> \<not> Connected w (vps_ID v) \<and>
     \<not> Fresh (sw_now w) (RestartMarker (vps_ID v) (ae_store e)) \<and>
     sw_now w - vps_LastSeen v > OfflineAfterSec * second"

lemma missing_server:
  "v \<in> set vs \<Longrightarrow> vps_Status v \<noteq> VPSPending \<Longrightarrow> \<not> Connected w (vps_ID v) \<Longrightarrow>
   length (live_of w vs) < length (watched_of vs)"
  unfolding live_of_def by (rule length_filter_less [of v]) (auto simp: watched_of_def)

lemma Up_fields [simp]:
  "ae_store (snd (LocalNet_Up w d e)) = ae_store e" "ae_active (snd (LocalNet_Up w d e)) = ae_active e"
  "ae_reach (snd (LocalNet_Up w d e)) = ae_reach e" "ae_tailnetLost (snd (LocalNet_Up w d e)) = ae_tailnetLost e"
  by (simp_all add: LocalNet_Up_def LocalNet_Check_def Let_def)

lemma Up_result:
  "fst (LocalNet_Up w d e) \<longleftrightarrow>
     (ln_online (ae_net e) \<and> time_Sub (sw_now w) (ln_checked (ae_net e)) < d) \<or> sw_internet w"
  by (auto simp: LocalNet_Up_def LocalNet_Check_def Let_def)

lemma hold_fields [simp]:
  "ae_store (holdAlerts w d e) = ae_store e" "ae_active (holdAlerts w d e) = ae_active e"
  "ae_reach (holdAlerts w d e) = ae_reach e"
  by (simp_all add: holdAlerts_def)

lemma sweep_turns:
  "\<exists>al e2. (sweepOffline w e = e2 \<or> sweepOffline w e = sweep_list w al (ListVPS (ae_store e)) e2) \<and>
     (\<forall>i. same_for i e e2) \<and>
     (al \<and> length (live_of w (ListVPS (ae_store e))) < length (watched_of (ListVPS (ae_store e))) \<longrightarrow>
      alertable_sweep w e)"
proof (cases "sw_now w < ae_quietUntil e")
  case True
  then show ?thesis by (intro exI [of _ False] exI [of _ e]) (simp add: sweepOffline_def)
next
  case False
  let ?vs = "ListVPS (ae_store e)"
  define live watched where "live = length (live_of w ?vs)" and "watched = length (watched_of ?vs)"
  define p where "p = (if live < watched \<or> \<not> ln_online (ae_net e) then LocalNet_Up w netUpRecheck e else (True, e))"
  define e1 up where "e1 = snd p" and "up = fst p"
  have e1: "ae_store e1 = ae_store e" "ae_active e1 = ae_active e" "ae_reach e1 = ae_reach e"
    "ae_tailnetLost e1 = ae_tailnetLost e"
    by (simp_all add: e1_def p_def)
  define lost where "lost \<longleftrightarrow> up \<and> sw_hub w \<noteq> None \<and> 2 \<le> watched"
  have eq: "sweepOffline w e =
      (if up \<and> \<not> ln_online (ae_net e) then holdAlerts w localOutageGrace e1
       else if lost \<and> live \<noteq> 0 \<and> ae_tailnetLost e1
       then holdAlerts w localOutageGrace (e1\<lparr>ae_tailnetLost := False\<rparr>)
       else if lost \<and> live = 0 then sweep_list w False ?vs (e1\<lparr>ae_tailnetLost := True\<rparr>)
       else sweep_list w (up \<and> \<not> ae_tailnetLost e1) ?vs e1)"
    unfolding sweepOffline_def Let_def case_prod_unfold live_def [symmetric] watched_def [symmetric]
      p_def [symmetric] e1_def [symmetric] up_def [symmetric]
    using False by (cases up; cases "ae_tailnetLost e1"; cases "sw_hub w = None"; cases "2 \<le> watched"; cases "live = 0")
      (simp_all add: lost_def)
  have up: "up \<and> live < watched \<longrightarrow>
      (ln_online (ae_net e) \<and> time_Sub (sw_now w) (ln_checked (ae_net e)) < netUpRecheck) \<or> sw_internet w"
    by (auto simp: up_def p_def Up_result)
  consider (hold) "sweepOffline w e = holdAlerts w localOutageGrace e1"
    | (regained) "sweepOffline w e = holdAlerts w localOutageGrace (e1\<lparr>ae_tailnetLost := False\<rparr>)"
    | (lost) "sweepOffline w e = sweep_list w False ?vs (e1\<lparr>ae_tailnetLost := True\<rparr>)"
    | (turn) "sweepOffline w e = sweep_list w (up \<and> \<not> ae_tailnetLost e1) ?vs e1"
        "up \<longrightarrow> ln_online (ae_net e)" "\<not> (lost \<and> live = 0)"
    using eq by (cases "up \<and> \<not> ln_online (ae_net e)"; cases "lost \<and> live = 0"; cases "lost \<and> live \<noteq> 0 \<and> ae_tailnetLost e1") auto
  then show ?thesis
  proof cases
    case hold
    then show ?thesis by (intro exI [of _ False] exI [of _ "sweepOffline w e"]) (simp add: same_for_def e1)
  next
    case regained
    then show ?thesis by (intro exI [of _ False] exI [of _ "sweepOffline w e"]) (simp add: same_for_def e1)
  next
    case lost
    then show ?thesis
      by (intro exI [of _ False] exI [of _ "e1\<lparr>ae_tailnetLost := True\<rparr>"]) (simp add: same_for_def e1)
  next
    case turn
    have "(up \<and> \<not> ae_tailnetLost e1) \<and> live < watched \<longrightarrow> alertable_sweep w e"
      using False e1(4) up turn(2,3)
      by (auto simp: alertable_sweep_def lost_def live_def watched_def)
    with turn(1) show ?thesis
      by (intro exI [of _ "up \<and> \<not> ae_tailnetLost e1"] exI [of _ e1])
        (simp add: same_for_def e1 live_def watched_def)
  qed
qed

lemma sweep_runs:
  assumes "v \<in> set (ListVPS (ae_store e))" and "outage w e v"
  shows "\<exists>e2. sweepOffline w e = sweep_list w True (ListVPS (ae_store e)) e2 \<and> (\<forall>i. same_for i e e2)"
proof -
  have "length (live_of w (ListVPS (ae_store e))) < length (watched_of (ListVPS (ae_store e)))"
    using assms by (intro missing_server) (auto simp: outage_def)
  with assms(2) show ?thesis
    by (intro exI [of _ "snd (LocalNet_Up w netUpRecheck e)"])
      (auto simp: outage_def alertable_sweep_def sweepOffline_def Let_def split_def Up_result same_for_def)
qed

section \<open>One server's own turn\<close>

text \<open>What a probe reads of an entry.\<close>

definition probe_view :: "vps_entry \<Rightarrow> string \<times> string \<times> string \<times> string" where
  "probe_view en = (vps_Transport (en_VPS en), vps_WGPublicKey (en_VPS en), vps_PublicIP (en_VPS en),
                    vps_WGEndpoint (en_VPS en))"

lemma probe_view_cong:
  "probe_view en' = probe_view en \<Longrightarrow>
   IsWireGuard (en_VPS en') = IsWireGuard (en_VPS en) \<and>
   vps_WGPublicKey (en_VPS en') = vps_WGPublicKey (en_VPS en) \<and>
   ping_target (en_VPS en') h = ping_target (en_VPS en) h"
  by (simp add: probe_view_def IsWireGuard_def ping_target_def)

lemma hostReachable_cong:
  assumes "map_option probe_view (map_of (st_VPS (ae_store e')) i) = map_option probe_view (map_of (st_VPS (ae_store e)) i)"
    and "ae_reach e' i = ae_reach e i"
  shows "fst (hostReachable w i h e') = fst (hostReachable w i h e)"
proof -
  have "probeHost w i h e' = probeHost w i h e"
  proof (cases "map_of (st_VPS (ae_store e)) i")
    case None
    with assms(1) show ?thesis by (simp add: probeHost_def GetVPS_def)
  next
    case (Some en)
    with assms(1) obtain en' where en': "map_of (st_VPS (ae_store e')) i = Some en'"
      and "probe_view en' = probe_view en" by auto
    from this(1) Some probe_view_cong [OF this(2)] show ?thesis
      by (simp add: probeHost_def GetVPS_def)
  qed
  with assms(2) show ?thesis by (simp add: hostReachable_def Let_def split: option.splits)
qed

lemma sweep_gone_keys:
  assumes "no_bar (vps_ID v)"
  shows "(active_key (vps_ID v) AlertAgentDown [] \<in> set (ae_active (sweep_gone w v e)) \<longleftrightarrow>
            fst (hostReachable w (vps_ID v) (vps_Host v) e)) \<and>
         (active_key (vps_ID v) AlertAgentOffline [] \<in> set (ae_active (sweep_gone w v e)) \<longleftrightarrow>
            \<not> fst (hostReachable w (vps_ID v) (vps_Host v) e))"
proof -
  have "fst (hostReachable w (vps_ID v) (vps_Host v) (with_store (ClearSnapshot (vps_ID v)) e)) =
        fst (hostReachable w (vps_ID v) (vps_Host v) e)"
    by (rule hostReachable_cong) simp_all
  with assms show ?thesis
    by (simp add: sweep_gone_def Let_def split_def fire_active clear_active)
qed

lemma map_option_probe_view [simp]:
  "map_option probe_view (map_option (\<lambda>en. en\<lparr>en_VPS := (en_VPS en)\<lparr>vps_Status := st\<rparr>\<rparr>) x) = map_option probe_view x"
  "map_option probe_view (map_option (\<lambda>en. en\<lparr>en_Restart := r\<rparr>) x) = map_option probe_view x"
  by (cases x; simp add: probe_view_def)+

lemma sweep_silent_keys:
  assumes "no_bar (vps_ID v)" and "sw_now w - vps_LastSeen v > OfflineAfterSec * second"
  shows "(active_key (vps_ID v) AlertAgentDown [] \<in> set (ae_active (sweep_silent w True v e)) \<longleftrightarrow>
            fst (hostReachable w (vps_ID v) (vps_Host v) e)) \<and>
         (active_key (vps_ID v) AlertAgentOffline [] \<in> set (ae_active (sweep_silent w True v e)) \<longleftrightarrow>
            \<not> fst (hostReachable w (vps_ID v) (vps_Host v) e))"
proof -
  have "fst (hostReachable w (vps_ID v) (vps_Host v) (change_vps (vps_ID v) (set_status VPSOffline) e)) =
        fst (hostReachable w (vps_ID v) (vps_Host v) e)"
    by (rule hostReachable_cong) simp_all
  with assms sweep_gone_keys [OF assms(1)] show ?thesis
    by (simp add: sweep_silent_def Let_def)
qed

lemma sweep_live_keys:
  "set (ae_active (sweep_live w v m e)) =
     set (ae_active e) - {active_key (vps_ID v) AlertAgentOffline [], active_key (vps_ID v) AlertAgentDown []}"
  by (auto simp: sweep_live_def split: option.splits if_splits)

text \<open>The turn that reports: nothing excuses the silence of this server.\<close>

definition silent_turn :: "sweep_env \<Rightarrow> engine \<Rightarrow> vps \<Rightarrow> bool" where
  "silent_turn w e v \<longleftrightarrow> vps_Status v \<noteq> VPSPending \<and> \<not> Connected w (vps_ID v) \<and>
     \<not> Fresh (sw_now w) (RestartMarker (vps_ID v) (ae_store e)) \<and>
     sw_now w - vps_LastSeen v > OfflineAfterSec * second"

lemma outage_iff: "outage w e v \<longleftrightarrow> alertable_sweep w e \<and> silent_turn w e v"
  by (auto simp: outage_def silent_turn_def)

lemma sweep_vps_reports:
  assumes "no_bar (vps_ID v)" and "silent_turn w e v"
  shows "(active_key (vps_ID v) AlertAgentDown [] \<in> set (ae_active (sweep_vps w True v e)) \<longleftrightarrow>
            fst (hostReachable w (vps_ID v) (vps_Host v) e)) \<and>
         (active_key (vps_ID v) AlertAgentOffline [] \<in> set (ae_active (sweep_vps w True v e)) \<longleftrightarrow>
            \<not> fst (hostReachable w (vps_ID v) (vps_Host v) e))"
proof -
  have "fst (hostReachable w (vps_ID v) (vps_Host v) (with_store (ClearRestart (vps_ID v)) e)) =
        fst (hostReachable w (vps_ID v) (vps_Host v) e)"
    by (rule hostReachable_cong) simp_all
  then show ?thesis
    using assms sweep_silent_keys [OF assms(1)] by (simp add: sweep_vps_def silent_turn_def Let_def)
qed

lemma sweep_vps_quiet:
  "\<not> (al \<and> silent_turn w e v) \<Longrightarrow> set (ae_active (sweep_vps w al v e)) \<subseteq> set (ae_active e)"
  by (auto simp: sweep_vps_def silent_turn_def sweep_silent_def sweep_live_keys Let_def Fresh_def
      split: if_splits option.splits)

lemma silent_turn_same: "same_for (vps_ID v) e e' \<Longrightarrow> silent_turn w e' v = silent_turn w e v"
  by (simp add: silent_turn_def same_for_def RestartMarker_def)

lemma hostReachable_same: "same_for i e e' \<Longrightarrow> fst (hostReachable w i h e') = fst (hostReachable w i h e)"
  by (rule hostReachable_cong) (simp_all add: same_for_def)

lemma ListVPS_distinct: "store_wf s \<Longrightarrow> distinct (map vps_ID (ListVPS s))"
proof -
  assume wf: "store_wf s"
  then have "map vps_ID (map (en_VPS \<circ> snd) (st_VPS s)) = map fst (st_VPS s)"
    by (auto dest: store_wf_key)
  then have "distinct (map vps_ID (map (en_VPS \<circ> snd) (st_VPS s)))"
    using store_wf_gomap [OF wf] by (simp only: gomap_ok_def)
  moreover have "mset (map vps_ID (ListVPS s)) = mset (map vps_ID (map (en_VPS \<circ> snd) (st_VPS s)))"
    by (simp add: ListVPS_def sortVPS_def image_mset.compositionality)
  ultimately show ?thesis by (metis mset_eq_imp_distinct_iff)
qed

lemma same_for_keys:
  "same_for i e e' \<Longrightarrow> active_key i t k \<in> set (ae_active e') \<longleftrightarrow> active_key i t k \<in> set (ae_active e)"
  by (simp add: same_for_def)

lemma outage_reported:
  assumes "store_wf (ae_store e)" and "\<forall>v \<in> set (ListVPS (ae_store e)). no_bar (vps_ID v)"
    and "v \<in> set (ListVPS (ae_store e))" and "outage w e v"
  shows "(active_key (vps_ID v) AlertAgentDown [] \<in> set (ae_active (sweepOffline w e)) \<longleftrightarrow>
            fst (hostReachable w (vps_ID v) (vps_Host v) e)) \<and>
         (active_key (vps_ID v) AlertAgentOffline [] \<in> set (ae_active (sweepOffline w e)) \<longleftrightarrow>
            \<not> fst (hostReachable w (vps_ID v) (vps_Host v) e))"
proof -
  have nb: "no_bar (vps_ID v)" using assms(2,3) by blast
  from sweep_runs [OF assms(3,4)] obtain e2 where
    e2: "sweepOffline w e = sweep_list w True (ListVPS (ae_store e)) e2" "same_for (vps_ID v) e e2" by auto
  from sweep_list_one [OF assms(3) ListVPS_distinct [OF assms(1)] assms(2), of e2 w True]
  obtain e1 where e1: "same_for (vps_ID v) e2 e1"
    "same_for (vps_ID v) (sweep_vps w True v e1) (sweepOffline w e)" unfolding e2(1) by auto
  note same = same_for_trans [OF e2(2) e1(1)]
  have "silent_turn w e1 v" using assms(4) silent_turn_same [OF same] by (simp add: outage_iff)
  from sweep_vps_reports [OF nb this] show ?thesis
    using hostReachable_same [OF same] same_for_keys [OF e1(2)] by simp
qed

lemma no_outage_unreported:
  assumes "store_wf (ae_store e)" and "\<forall>v \<in> set (ListVPS (ae_store e)). no_bar (vps_ID v)"
    and "v \<in> set (ListVPS (ae_store e))" and "\<not> outage w e v"
    and "active_key (vps_ID v) t k \<in> set (ae_active (sweepOffline w e))"
  shows "active_key (vps_ID v) t k \<in> set (ae_active e)"
proof -
  from sweep_turns [of w e] obtain al e2 where
    e2: "sweepOffline w e = e2 \<or> sweepOffline w e = sweep_list w al (ListVPS (ae_store e)) e2"
      "same_for (vps_ID v) e e2"
      "al \<and> length (live_of w (ListVPS (ae_store e))) < length (watched_of (ListVPS (ae_store e))) \<longrightarrow>
         alertable_sweep w e" by blast
  from sweep_list_one [OF assms(3) ListVPS_distinct [OF assms(1)] assms(2), of e2 w al]
  obtain e1 where e1: "same_for (vps_ID v) e2 e1"
    "same_for (vps_ID v) (sweep_vps w al v e1) (sweep_list w al (ListVPS (ae_store e)) e2)" by blast
  note same = same_for_trans [OF e2(2) e1(1)]
  have "\<not> (al \<and> silent_turn w e1 v)"
    using assms(4) e2(3) missing_server [OF assms(3)] silent_turn_same [OF same]
    by (auto simp: outage_iff silent_turn_def)
  from sweep_vps_quiet [OF this] e2(1) assms(5) show ?thesis
    using same_for_keys [OF e1(2)] same_for_keys [OF same] same_for_keys [OF e2(2)] by auto
qed

lemma live_unreported:
  assumes "store_wf (ae_store e)" and "\<forall>v \<in> set (ListVPS (ae_store e)). no_bar (vps_ID v)"
    and "v \<in> set (ListVPS (ae_store e))"
    and "sw_now w \<ge> ae_quietUntil e" and "ln_online (ae_net e)" and "\<not> ae_tailnetLost e"
    and "Connected w (vps_ID v)" and "vps_Status v \<noteq> VPSPending" and "t \<in> {AlertAgentOffline, AlertAgentDown}"
  shows "active_key (vps_ID v) t [] \<notin> set (ae_active (sweepOffline w e))"
proof -
  have "v \<in> set (live_of w (ListVPS (ae_store e)))"
    using assms(3,7,8) by (simp add: live_of_def watched_of_def)
  then have "live_of w (ListVPS (ae_store e)) \<noteq> []" by auto
  then have "\<exists>al e2. sweepOffline w e = sweep_list w al (ListVPS (ae_store e)) e2"
    using assms(4-6) by (auto simp: sweepOffline_def Let_def split_def)
  then obtain al e2 where e2: "sweepOffline w e = sweep_list w al (ListVPS (ae_store e)) e2" by blast
  from sweep_list_one [OF assms(3) ListVPS_distinct [OF assms(1)] assms(2), of e2 w al]
  obtain e1 where "same_for (vps_ID v) (sweep_vps w al v e1) (sweepOffline w e)" unfolding e2 by blast
  moreover have "active_key (vps_ID v) t [] \<notin> set (ae_active (sweep_vps w al v e1))"
    using assms(7-9) by (auto simp: sweep_vps_def Let_def sweep_live_keys)
  ultimately show ?thesis using same_for_keys by blast
qed

section \<open>Properties\<close>

text \<open>
  C2. The sweep raises an offline or agent-down alert exactly for the servers that are out: past
  the grace period, with this computer's own line up and its tunnel not lost, the socket missing,
  no fresh restart marker and more than 45 seconds since the last sign of life. Then exactly one of
  the two alerts stands, chosen by whether the host still answers. For every other server neither
  condition becomes active.
\<close>

theorem sweep_reports_exactly_outages:
  assumes "store_wf (ae_store e)" and "\<forall>v \<in> set (ListVPS (ae_store e)). no_bar (vps_ID v)"
    and "v \<in> set (ListVPS (ae_store e))"
  shows "(outage w e v \<longrightarrow>
      (active_key (vps_ID v) AlertAgentDown [] \<in> set (ae_active (sweepOffline w e)) \<longleftrightarrow>
         fst (hostReachable w (vps_ID v) (vps_Host v) e)) \<and>
      (active_key (vps_ID v) AlertAgentOffline [] \<in> set (ae_active (sweepOffline w e)) \<longleftrightarrow>
         \<not> fst (hostReachable w (vps_ID v) (vps_Host v) e))) \<and>
    (\<not> outage w e v \<longrightarrow> t \<in> {AlertAgentOffline, AlertAgentDown} \<longrightarrow>
      active_key (vps_ID v) t [] \<in> set (ae_active (sweepOffline w e)) \<longrightarrow>
      active_key (vps_ID v) t [] \<in> set (ae_active e))"
  using outage_reported [OF assms] no_outage_unreported [OF assms] by blast

definition demo_fleet :: engine where
  "demo_fleet = NewAlertEngine 0 (set_VPS [(''a'', plain_entry (fresh_vps 7 ''a'' ''web'' ''h1'' VPSOnline))]
     (NewStore 0 None None True demo_rand))"

definition demo_sweep :: "(string \<Rightarrow> bool) \<Rightarrow> sweep_env" where
  "demo_sweep c = \<lparr> sw_now = 100 * second, sw_hub = Some c, sw_internet = True, sw_icmp = (\<lambda>_. False),
     sw_tailscale = (\<lambda>_. False), sw_handshake = None \<rparr>"

lemma demo_fleet_fields:
  "store_wf (ae_store demo_fleet)"
  "ListVPS (ae_store demo_fleet) = [fresh_vps 7 ''a'' ''web'' ''h1'' VPSOnline]"
  "ae_quietUntil demo_fleet = 20 * second" "ln_online (ae_net demo_fleet)" "ln_checked (ae_net demo_fleet) = 0"
  "\<not> ae_tailnetLost demo_fleet" "ae_reach demo_fleet = Map.empty" "ae_active demo_fleet = []"
  "RestartMarker ''a'' (ae_store demo_fleet) = None"
  "GetVPS ''a'' (ae_store demo_fleet) = Some (plain_entry (fresh_vps 7 ''a'' ''web'' ''h1'' VPSOnline))"
  "rows_agree demo_fleet"
  by (simp_all add: demo_fleet_def NewAlertEngine_def PurgeResolvedAlerts_def NewStore_def Let_def
      empty_state_def ListAlerts_def ListVPS_def sortVPS_def plain_entry_def fresh_vps_def NewLocalNet_def
      agentReconnectGrace_def RestartMarker_def GetVPS_def store_wf_def state_wf_def gomap_ok_def
      rows_agree_def open_rows_def)

theorem sweep_reports_exactly_outages_witness:
  "active_key ''a'' AlertAgentOffline [] \<in> set (ae_active (sweepOffline (demo_sweep (\<lambda>_. False)) demo_fleet))"
proof -
  let ?v = "fresh_vps 7 ''a'' ''web'' ''h1'' VPSOnline"
  let ?w = "demo_sweep (\<lambda>_. False)"
  have v: "vps_ID ?v = ''a''" "vps_Status ?v = VPSOnline" "vps_LastSeen ?v = 7" "\<not> IsWireGuard ?v"
    by (simp_all add: fresh_vps_def IsWireGuard_def zero_vps_def)
  have "outage ?w demo_fleet ?v"
    by (simp add: outage_def alertable_sweep_def demo_fleet_fields demo_sweep_def Connected_def v
        Fresh_def watched_of_def)
  moreover have "\<not> fst (hostReachable ?w ''a'' (vps_Host ?v) demo_fleet)"
    by (simp add: hostReachable_def probeHost_def demo_fleet_fields v plain_entry_def Let_def demo_sweep_def)
  ultimately show ?thesis
    using sweep_reports_exactly_outages [of demo_fleet ?v ?w]
    by (simp add: demo_fleet_fields v no_bar_def)
qed

text \<open>
  A server that holds a socket has no open offline or agent-down alert after a sweep, whatever
  status the panel shows for it: a recovered server never stays listed as a problem.
\<close>

lemma sweep_clears_recovered:
  assumes "store_wf (ae_store e)" and "rows_agree e" and "\<forall>v \<in> set (ListVPS (ae_store e)). no_bar (vps_ID v)"
    and "v \<in> set (ListVPS (ae_store e))"
    and "sw_now w \<ge> ae_quietUntil e" and "ln_online (ae_net e)" and "\<not> ae_tailnetLost e"
    and "Connected w (vps_ID v)" and "vps_Status v \<noteq> VPSPending"
  shows "\<not> (\<exists>a \<in> set (open_rows (ae_store (sweepOffline w e))).
            al_VPSID a = vps_ID v \<and> al_Type a \<in> {AlertAgentOffline, AlertAgentDown} \<and> al_Key a = [])"
proof -
  have "rows_agree (sweepOffline w e)"
    using assms(2,3) by (intro agree.I_sweepOffline)
  with live_unreported [OF assms(1,3-9)] show ?thesis by (auto simp: rows_agree_def)
qed

end
