(* ===== verification/Time_Series.thy ===== *)
theory Time_Series
  imports Shared_Models
begin

text \<open>
  The two time series the backend keeps per server: metric history
  (\<^verbatim>\<open>src/backend/history.go\<close>) and spike records (\<^verbatim>\<open>src/backend/spikes.go\<close>). A series file is
  the list of its decoded lines (a torn line decodes to \<open>None\<close>); \<open>disk_ok\<close> says whether the file
  system accepts a write. The locale \<open>dedup_series\<close> is what both promise about a batch an agent may
  send twice; it is interpreted for both.
\<close>

section \<open>Admitting a batch\<close>

text \<open>The loop both components run over a batch: skip what is not acceptable or already taken.\<close>

fun admit :: "('a \<Rightarrow> bool) \<Rightarrow> ('a \<Rightarrow> 'k) \<Rightarrow> 'a list \<Rightarrow> 'k list \<Rightarrow> 'a list \<Rightarrow> 'a list" where
  "admit ok key [] occupied existing = existing"
| "admit ok key (s # ss) occupied existing =
     (if \<not> ok s \<or> key s \<in> set occupied then admit ok key ss occupied existing
      else admit ok key ss (key s # occupied) (existing @ [s]))"

definition in_window :: "time \<Rightarrow> time \<Rightarrow> time \<Rightarrow> bool" where
  "in_window from till t \<longleftrightarrow> \<not> (\<not> time_IsZero from \<and> t < from) \<and> \<not> (\<not> time_IsZero till \<and> t > till)"

section \<open>Metric history\<close>

abbreviation historyInterval :: duration where "historyInterval \<equiv> minute"
abbreviation historyRetain :: duration where "historyRetain \<equiv> 14 * 24 * hour"
definition maxSamplesPerVPS :: nat where "maxSamplesPerVPS = 30 * 24 * 60"

record disk_forecast =
  df_at :: time
  df_mounts :: "string list"
  df_full :: "string \<rightharpoonup> time"

record history =
  hi_samples :: "(string, metric_sample list) gomap"
  hi_lastAt :: "string \<rightharpoonup> time"
  hi_forecasts :: "string \<rightharpoonup> disk_forecast"
  hi_files :: "(string, metric_sample option list) gomap"
  hi_disk_ok :: bool

definition hist_of :: "history \<Rightarrow> string \<Rightarrow> metric_sample list" where
  "hist_of h i = (case map_of (hi_samples h) i of None \<Rightarrow> [] | Some xs \<Rightarrow> xs)"

definition decoded :: "'a option list \<Rightarrow> 'a list" where
  "decoded ls = map the (filter (\<lambda>l. l \<noteq> None) ls)"

fun history_load :: "time \<Rightarrow> (string, metric_sample option list) gomap \<Rightarrow> history \<Rightarrow> history" where
  "history_load now [] h = h"
| "history_load now ((i, ls) # fs) h =
     (let out = filter (\<lambda>s. \<not> ms_At s < now - historyRetain) (decoded ls) in
      if out = [] then history_load now fs h
      else let sorted_out = sort_key ms_At out
           in history_load now fs
                (h\<lparr>hi_samples := map_put i sorted_out (hi_samples h),
                   hi_lastAt := (hi_lastAt h)(i \<mapsto> ms_At (last sorted_out))\<rparr>))"

definition NewHistory :: "time \<Rightarrow> (string, metric_sample option list) gomap \<Rightarrow> bool \<Rightarrow> history" where
  "NewHistory now files ok =
     history_load now files \<lparr> hi_samples = [], hi_lastAt = Map.empty, hi_forecasts = Map.empty,
       hi_files = files, hi_disk_ok = ok \<rparr>"

definition history_Record :: "string \<Rightarrow> metric_sample \<Rightarrow> history \<Rightarrow> bool \<times> history" where
  "history_Record i s h =
     (if (case hi_lastAt h i of Some l \<Rightarrow> time_Sub (ms_At s) l < historyInterval | None \<Rightarrow> False)
      then (False, h)
      else
        let h1 = h\<lparr>hi_lastAt := (hi_lastAt h)(i \<mapsto> ms_At s),
                   hi_samples := map_put i (keep_last maxSamplesPerVPS (hist_of h i @ [s])) (hi_samples h)\<rparr>
        in if hi_disk_ok h
           then (True, h1\<lparr>hi_files := map_put i
                   ((case map_of (hi_files h1) i of None \<Rightarrow> [] | Some ls \<Rightarrow> ls) @ [Some s]) (hi_files h1)\<rparr>)
           else (False, h1))"

definition rewrite_history :: "string \<Rightarrow> metric_sample list \<Rightarrow> history \<Rightarrow> history" where
  "rewrite_history i xs h =
     (if hi_disk_ok h then h\<lparr>hi_files := map_put i (map Some xs) (hi_files h)\<rparr> else h)"

definition minute_key :: "time \<Rightarrow> int" where
  "minute_key t = go_quot (time_Unix t) 60"

definition backfill_ok :: "time \<Rightarrow> metric_sample \<Rightarrow> bool" where
  "backfill_ok now s \<longleftrightarrow>
     \<not> (time_IsZero (ms_At s) \<or> ms_At s < now - historyRetain) \<and> \<not> ms_At s > now + hour"

definition Backfill :: "time \<Rightarrow> string \<Rightarrow> metric_sample list \<Rightarrow> history \<Rightarrow> nat \<times> history" where
  "Backfill now i ss h =
     (if ss = [] then (0, h)
      else
        let existing = hist_of h i;
            merged = admit (backfill_ok now) (\<lambda>s. minute_key (ms_At s)) ss
                       (map (\<lambda>s. minute_key (ms_At s)) existing) existing;
            added = length merged - length existing
        in if added = 0 then (0, h)
           else
             let kept = keep_last maxSamplesPerVPS (sort_key ms_At merged);
                 newest = ms_At (last kept);
                 last_at = (case hi_lastAt h i of None \<Rightarrow> 0 | Some t \<Rightarrow> t);
                 h1 = h\<lparr>hi_samples := map_put i kept (hi_samples h)\<rparr>;
                 h2 = (if newest > last_at then h1\<lparr>hi_lastAt := (hi_lastAt h1)(i \<mapsto> newest)\<rparr> else h1)
             in (added, rewrite_history i kept h2))"

definition history_Query :: "string \<Rightarrow> time \<Rightarrow> time \<Rightarrow> history \<Rightarrow> metric_sample list" where
  "history_Query i from till h = filter (\<lambda>s. in_window from till (ms_At s)) (hist_of h i)"

definition Span :: "string \<Rightarrow> history \<Rightarrow> time \<times> time" where
  "Span i h = (if hist_of h i = [] then (0, 0) else (ms_At (hd (hist_of h i)), ms_At (last (hist_of h i))))"

fun history_trim_all ::
  "time \<Rightarrow> (string, metric_sample list) gomap \<Rightarrow> history \<Rightarrow> history" where
  "history_trim_all cutoff [] h = h"
| "history_trim_all cutoff ((i, xs) # m) h =
     (let keep = filter (\<lambda>s. ms_At s > cutoff) xs in
      history_trim_all cutoff m
        (if length keep = length xs then h
         else rewrite_history i keep (h\<lparr>hi_samples := map_put i keep (hi_samples h)\<rparr>)))"

definition history_Trim :: "time \<Rightarrow> history \<Rightarrow> history" where
  "history_Trim now h = history_trim_all (now - historyRetain) (hi_samples h) h"

definition history_Forget :: "string \<Rightarrow> history \<Rightarrow> history" where
  "history_Forget i h =
     h\<lparr>hi_samples := map_del i (hi_samples h), hi_lastAt := (hi_lastAt h)(i := None),
       hi_forecasts := (hi_forecasts h)(i := None),
       hi_files := (if hi_disk_ok h then map_del i (hi_files h) else hi_files h)\<rparr>"

section \<open>Spike records\<close>

abbreviation spikeRetain :: duration where "spikeRetain \<equiv> 14 * 24 * hour"
definition maxSpikesPerVPS :: nat where "maxSpikesPerVPS = 5000"

record spikes =
  sk_byVPS :: "(string, spike_record list) gomap"
  sk_files :: "(string, spike_record option list) gomap"
  sk_disk_ok :: bool

definition spikes_of :: "spikes \<Rightarrow> string \<Rightarrow> spike_record list" where
  "spikes_of k i = (case map_of (sk_byVPS k) i of None \<Rightarrow> [] | Some xs \<Rightarrow> xs)"

fun spikes_load :: "time \<Rightarrow> (string, spike_record option list) gomap \<Rightarrow> spikes \<Rightarrow> spikes" where
  "spikes_load now [] k = k"
| "spikes_load now ((i, ls) # fs) k =
     (let out = filter (\<lambda>r. \<not> (time_IsZero (sr_At r) \<or> sr_At r < now - spikeRetain)) (decoded ls)
      in spikes_load now fs
           (if out = [] then k else k\<lparr>sk_byVPS := map_put i (sort_key sr_At out) (sk_byVPS k)\<rparr>))"

definition NewSpikes :: "time \<Rightarrow> (string, spike_record option list) gomap \<Rightarrow> bool \<Rightarrow> spikes" where
  "NewSpikes now files ok =
     spikes_load now files \<lparr> sk_byVPS = [], sk_files = files, sk_disk_ok = ok \<rparr>"

definition rewrite_spikes :: "string \<Rightarrow> spike_record list \<Rightarrow> spikes \<Rightarrow> spikes" where
  "rewrite_spikes i xs k =
     (if sk_disk_ok k then k\<lparr>sk_files := map_put i (map Some xs) (sk_files k)\<rparr> else k)"

definition spike_ok :: "time \<Rightarrow> spike_record \<Rightarrow> bool" where
  "spike_ok now r \<longleftrightarrow>
     \<not> (time_IsZero (sr_At r) \<or> sr_At r < now - spikeRetain) \<and> \<not> sr_At r > now + hour"

definition spike_key :: "spike_record \<Rightarrow> string \<times> int" where
  "spike_key r = (sr_Metric r, minute_key (sr_At r))"

definition spikes_Record :: "time \<Rightarrow> string \<Rightarrow> spike_record list \<Rightarrow> spikes \<Rightarrow> nat \<times> spikes" where
  "spikes_Record now i rs k =
     (if rs = [] then (0, k)
      else
        let existing = spikes_of k i;
            merged = admit (spike_ok now) spike_key rs (map spike_key existing) existing;
            added = length merged - length existing
        in if added = 0 then (0, k)
           else let kept = keep_last maxSpikesPerVPS (sort_key sr_At merged)
                in (added, rewrite_spikes i kept (k\<lparr>sk_byVPS := map_put i kept (sk_byVPS k)\<rparr>)))"

definition spikes_Query :: "string \<Rightarrow> time \<Rightarrow> time \<Rightarrow> spikes \<Rightarrow> spike_record list" where
  "spikes_Query i from till k = filter (\<lambda>r. in_window from till (sr_At r)) (spikes_of k i)"

definition abs_gap :: "time \<Rightarrow> time \<Rightarrow> duration" where
  "abs_gap t u = (if time_Sub t u < 0 then - time_Sub t u else time_Sub t u)"

fun nearest_loop ::
  "time \<Rightarrow> duration \<Rightarrow> spike_record list \<Rightarrow> (spike_record \<times> duration) option \<Rightarrow> (spike_record \<times> duration) option" where
  "nearest_loop t tol [] best = best"
| "nearest_loop t tol (r # rs) best =
     (let gap = abs_gap (sr_At r) t in
      nearest_loop t tol rs
        (if gap > tol then best
         else case best of None \<Rightarrow> Some (r, gap)
              | Some (b, g) \<Rightarrow> if gap < g then Some (r, gap) else Some (b, g)))"

definition Nearest :: "string \<Rightarrow> time \<Rightarrow> duration \<Rightarrow> spikes \<Rightarrow> spike_record option" where
  "Nearest i t tol k = map_option fst (nearest_loop t tol (spikes_of k i) None)"

definition spikes_Forget :: "string \<Rightarrow> spikes \<Rightarrow> spikes" where
  "spikes_Forget i k = k\<lparr>sk_byVPS := map_del i (sk_byVPS k),
     sk_files := (if sk_disk_ok k then map_del i (sk_files k) else sk_files k)\<rparr>"

fun spikes_trim_all :: "time \<Rightarrow> (string, spike_record list) gomap \<Rightarrow> spikes \<Rightarrow> spikes" where
  "spikes_trim_all cutoff [] k = k"
| "spikes_trim_all cutoff ((i, xs) # m) k =
     (let keep = filter (\<lambda>r. sr_At r > cutoff) xs in
      spikes_trim_all cutoff m
        (if length keep = length xs then k
         else rewrite_spikes i keep (k\<lparr>sk_byVPS := map_put i keep (sk_byVPS k)\<rparr>)))"

definition spikes_Trim :: "time \<Rightarrow> spikes \<Rightarrow> spikes" where
  "spikes_Trim now k = spikes_trim_all (now - spikeRetain) (sk_byVPS k) k"

end
