(* ===== verification/Time_Series_Laws.thy ===== *)
theory Time_Series_Laws
  imports Time_Series
begin

text \<open>
  Laws of the two series: the shared contract of a batch that may arrive twice, the invariant of
  the history over its runs, what survives a restart, and the spike a chart click resolves to.
\<close>

section \<open>The admission loop\<close>

lemma admit_append: "admit ok key ss occ ex = ex @ admit ok key ss occ []"
proof (induction ss arbitrary: occ ex)
  case (Cons s ss)
  show ?case
  proof (cases "\<not> ok s \<or> key s \<in> set occ")
    case True
    then show ?thesis using Cons.IH [of occ ex] by simp
  next
    case False
    then show ?thesis
      using Cons.IH [of "key s # occ" "ex @ [s]"] Cons.IH [of "key s # occ" "[s]"] by simp
  qed
qed simp

lemma admit_length: "length ex \<le> length (admit ok key ss occ ex)"
  by (subst admit_append) simp

lemma admit_bound: "length (admit ok key ss occ ex) \<le> length ex + length ss"
  by (induction ok key ss occ ex rule: admit.induct) auto

lemma admit_set: "set (admit ok key ss occ ex) \<subseteq> set ex \<union> {s \<in> set ss. ok s}"
  by (induction ok key ss occ ex rule: admit.induct) auto

lemma admit_distinct:
  "distinct (map key ex) \<Longrightarrow> key ` set ex \<subseteq> set occ \<Longrightarrow> distinct (map key (admit ok key ss occ ex))"
  by (induction ok key ss occ ex rule: admit.induct) auto

lemma admit_covers:
  "s \<in> set ss \<Longrightarrow> ok s \<Longrightarrow> key s \<in> set occ \<union> key ` set (admit ok key ss occ ex)"
proof (induction ok key ss occ ex rule: admit.induct)
  case (2 ok key q ss occ ex)
  have "q \<in> set (admit ok key ss (key q # occ) (ex @ [q]))" by (subst admit_append) simp
  with 2 show ?case by auto
qed simp

lemma admit_nothing:
  "\<forall>s \<in> set ss. ok s \<longrightarrow> key s \<in> set occ \<Longrightarrow> admit ok key ss occ ex = ex"
  by (induction ss) auto

lemma admit_grew: "length (admit ok key ss occ ex) = length ex \<longleftrightarrow> admit ok key ss occ ex = ex"
  by (metis admit_append append_Nil2 append_eq_append_conv length_append_singleton self_append_conv)

section \<open>The contract of a series\<close>

locale dedup_series =
  fixes stamp :: "'a \<Rightarrow> time"
    and key :: "'a \<Rightarrow> 'k"
    and ok :: "time \<Rightarrow> 'a \<Rightarrow> bool"
    and cap :: nat
    and contents :: "'s \<Rightarrow> string \<Rightarrow> 'a list"
    and receive :: "time \<Rightarrow> string \<Rightarrow> 'a list \<Rightarrow> 's \<Rightarrow> nat \<times> 's"
  assumes receive_count: "fst (receive now i xs s) =
      length (admit (ok now) key xs (map key (contents s i)) (contents s i)) - length (contents s i)"
    and receive_contents: "contents (snd (receive now i xs s)) j =
      (if j = i \<and> fst (receive now i xs s) \<noteq> 0
       then keep_last cap (sort_key stamp (admit (ok now) key xs (map key (contents s i)) (contents s i)))
       else contents s j)"
begin

definition series_ok :: "'a list \<Rightarrow> bool" where
  "series_ok xs \<longleftrightarrow> sorted (map stamp xs) \<and> distinct (map key xs) \<and> length xs \<le> cap"

lemma distinct_map_sort_key: "distinct (map key (sort_key stamp xs)) = distinct (map key xs)"
  by (metis mset_eq_imp_distinct_iff mset_map mset_sort)

lemma receive_series_ok:
  assumes "series_ok (contents s j)"
  shows "series_ok (contents (snd (receive now i xs s)) j)"
proof (cases "j = i \<and> fst (receive now i xs s) \<noteq> 0")
  case True
  let ?m = "admit (ok now) key xs (map key (contents s i)) (contents s i)"
  have "distinct (map key ?m)"
    using assms True by (intro admit_distinct) (simp_all add: series_ok_def)
  then have "distinct (map key (keep_last cap (sort_key stamp ?m)))"
    by (simp add: map_keep_last distinct_keep_last distinct_map_sort_key)
  moreover have "sorted (map stamp (keep_last cap (sort_key stamp ?m)))"
    by (simp add: map_keep_last sorted_keep_last)
  ultimately show ?thesis unfolding receive_contents using True by (simp add: series_ok_def)
qed (use assms receive_contents in auto)

text \<open>With room left, a batch replaces nothing and every acceptable element is represented.\<close>

lemma receive_keeps:
  assumes "length (contents s i) + length xs \<le> cap"
  shows "set (contents s i) \<subseteq> set (contents (snd (receive now i xs s)) i) \<and>
         (\<forall>x \<in> set xs. ok now x \<longrightarrow> key x \<in> key ` set (contents (snd (receive now i xs s)) i))"
proof -
  let ?m = "admit (ok now) key xs (map key (contents s i)) (contents s i)"
  have len: "length ?m \<le> cap" using admit_bound [of "ok now" key xs] assms by (meson le_trans)
  have after: "set (contents (snd (receive now i xs s)) i) = set ?m"
  proof (cases "fst (receive now i xs s) = 0")
    case True
    then have "length ?m = length (contents s i)"
      using receive_count [of now i xs s]
        admit_length [of "contents s i" "ok now" key xs "map key (contents s i)"] by linarith
    with True show ?thesis by (simp add: receive_contents admit_grew)
  qed (simp add: receive_contents keep_last_id len)
  have "set (contents s i) \<subseteq> set ?m" by (subst admit_append) simp
  moreover have "key x \<in> key ` set ?m" if "x \<in> set xs" "ok now x" for x
    using admit_covers [of x xs "ok now" key "map key (contents s i)" "contents s i"] that
      \<open>set (contents s i) \<subseteq> set ?m\<close> by auto
  ultimately show ?thesis by (simp add: after)
qed

lemma resend_adds_nothing:
  assumes "length (contents s i) + length xs \<le> cap"
    and "\<forall>x \<in> set xs. ok now' x \<longrightarrow> ok now x"
  shows "fst (receive now' i xs (snd (receive now i xs s))) = 0 \<and>
         contents (snd (receive now' i xs (snd (receive now i xs s)))) j = contents (snd (receive now i xs s)) j"
proof -
  let ?s = "snd (receive now i xs s)"
  have "admit (ok now') key xs (map key (contents ?s i)) (contents ?s i) = contents ?s i"
    using receive_keeps [OF assms(1), of now] assms(2) by (intro admit_nothing) auto
  then show ?thesis by (simp add: receive_count receive_contents)
qed

lemma receive_grows: "length (contents (snd (receive now i xs s)) i) \<le> length (contents s i) + length xs"
  using admit_bound [of "ok now" key xs "map key (contents s i)" "contents s i"]
  by (simp add: receive_contents min.coboundedI2)

lemma receive_frames:
  assumes "length (contents s i) + length (concat frames) \<le> cap"
  shows "set (contents s i) \<subseteq> set (contents (fold (\<lambda>xs s. snd (receive now i xs s)) frames s) i) \<and>
         (\<forall>x \<in> set (concat frames). ok now x \<longrightarrow>
            key x \<in> key ` set (contents (fold (\<lambda>xs s. snd (receive now i xs s)) frames s) i))"
  using assms
proof (induction frames arbitrary: s)
  case (Cons xs frames)
  let ?s = "snd (receive now i xs s)"
  have "length (contents s i) + length xs \<le> cap" using Cons.prems by simp
  note first = receive_keeps [OF this, of now]
  have "length (contents ?s i) + length (concat frames) \<le> cap"
    using receive_grows [of now i xs s] Cons.prems by simp
  from Cons.IH [OF this] first show ?case by fastforce
qed simp

lemma receive_invents_nothing:
  "set (contents (snd (receive now i xs s)) i) \<subseteq> set (contents s i) \<union> {x \<in> set xs. ok now x}"
proof (cases "fst (receive now i xs s) = 0")
  case False
  then show ?thesis
    using set_keep_last [of cap "sort_key stamp (admit (ok now) key xs (map key (contents s i)) (contents s i))"]
      admit_set [of "ok now" key xs "map key (contents s i)" "contents s i"]
    by (auto simp: receive_contents)
qed (simp add: receive_contents)

end

section \<open>History\<close>

lemma rewrite_history_fields [simp]:
  "hi_samples (rewrite_history i xs h) = hi_samples h" "hi_lastAt (rewrite_history i xs h) = hi_lastAt h"
  "hi_disk_ok (rewrite_history i xs h) = hi_disk_ok h" "hist_of (rewrite_history i xs h) = hist_of h"
  by (simp_all add: rewrite_history_def hist_of_def fun_eq_iff)

lemma hist_of_put [simp]:
  "hist_of (h\<lparr>hi_samples := map_put i xs m\<rparr>) j = (if j = i then xs else hist_of (h\<lparr>hi_samples := m\<rparr>) j)"
  "hist_of (h\<lparr>hi_lastAt := l\<rparr>) = hist_of h" "hist_of (h\<lparr>hi_files := f\<rparr>) = hist_of h"
  "hist_of (h\<lparr>hi_samples := hi_samples h\<rparr>) = hist_of h"
  by (simp_all add: hist_of_def fun_eq_iff)

abbreviation sample_key :: "metric_sample \<Rightarrow> int" where
  "sample_key s \<equiv> minute_key (ms_At s)"

interpretation hist: dedup_series ms_At sample_key backfill_ok maxSamplesPerVPS hist_of Backfill
proof unfold_locales
  fix now i xs h j
  show "fst (Backfill now i xs h) = length (admit (backfill_ok now) sample_key xs
      (map sample_key (hist_of h i)) (hist_of h i)) - length (hist_of h i)"
    by (simp add: Backfill_def Let_def)
  show "hist_of (snd (Backfill now i xs h)) j =
      (if j = i \<and> fst (Backfill now i xs h) \<noteq> 0
       then keep_last maxSamplesPerVPS (sort_key ms_At (admit (backfill_ok now) sample_key xs
         (map sample_key (hist_of h i)) (hist_of h i)))
       else hist_of h j)"
    by (simp add: Backfill_def Let_def)
qed

lemma rewrite_spikes_fields [simp]:
  "sk_byVPS (rewrite_spikes i xs k) = sk_byVPS k" "spikes_of (rewrite_spikes i xs k) = spikes_of k"
  by (simp_all add: rewrite_spikes_def spikes_of_def fun_eq_iff)

lemma spikes_of_put [simp]:
  "spikes_of (k\<lparr>sk_byVPS := map_put i xs (sk_byVPS k)\<rparr>) j = (if j = i then xs else spikes_of k j)"
  by (simp add: spikes_of_def)

interpretation spk: dedup_series sr_At spike_key spike_ok maxSpikesPerVPS spikes_of spikes_Record
proof unfold_locales
  fix now i xs k j
  show "fst (spikes_Record now i xs k) = length (admit (spike_ok now) spike_key xs
      (map spike_key (spikes_of k i)) (spikes_of k i)) - length (spikes_of k i)"
    by (simp add: spikes_Record_def Let_def)
  show "spikes_of (snd (spikes_Record now i xs k)) j =
      (if j = i \<and> fst (spikes_Record now i xs k) \<noteq> 0
       then keep_last maxSpikesPerVPS (sort_key sr_At (admit (spike_ok now) spike_key xs
         (map spike_key (spikes_of k i)) (spikes_of k i)))
       else spikes_of k j)"
    by (simp add: spikes_Record_def Let_def)
qed

section \<open>The history over its runs\<close>

abbreviation epoch :: time where "epoch \<equiv> 62135596800 * second"

lemma time_Unix_nonneg: "epoch \<le> t \<Longrightarrow> 0 \<le> time_Unix t"
  by (simp add: time_Unix_def pos_imp_zdiv_nonneg_iff)

lemma minute_key_pos: "epoch \<le> t \<Longrightarrow> minute_key t = time_Unix t div 60"
  using time_Unix_nonneg [of t] by (cases "time_Unix t = 0") (simp_all add: minute_key_def go_quot_def)

lemma minute_key_later: "epoch \<le> t \<Longrightarrow> t + minute \<le> u \<Longrightarrow> minute_key t < minute_key u"
proof -
  assume t: "epoch \<le> t" and u: "t + minute \<le> u"
  have "(t - epoch + 60 * second) div second \<le> (u - epoch) div second"
    using u by (intro zdiv_mono1) simp_all
  moreover have "(t - epoch + 60 * second) div second = (t - epoch) div second + 60"
    using div_mult_self1 [of second "t - epoch" 60] by simp
  ultimately have "(t - epoch) div second + 60 \<le> (u - epoch) div second" by simp
  then have "time_Unix t + 60 \<le> time_Unix u" by (simp add: time_Unix_def)
  then show ?thesis using t u by (simp add: minute_key_pos)
qed

text \<open>
  One step is one call under the history's mutex. Record sees times after 1970, and the backend's
  own clock is more than the retention period past it.
\<close>

inductive history_step :: "history \<Rightarrow> history \<Rightarrow> bool" where
  record_sample: "epoch \<le> ms_At s \<Longrightarrow> history_step h (snd (history_Record i s h))"
| backfill: "epoch + historyRetain \<le> now \<Longrightarrow> history_step h (snd (Backfill now i ss h))"
| trim: "history_step h (history_Trim now h)"
| forget: "history_step h (history_Forget i h)"

abbreviation history_run :: "history \<Rightarrow> history \<Rightarrow> bool" where
  "history_run \<equiv> history_step\<^sup>*\<^sup>*"

definition file_of :: "history \<Rightarrow> string \<Rightarrow> metric_sample list" where
  "file_of h i = (case map_of (hi_files h) i of None \<Rightarrow> [] | Some ls \<Rightarrow> decoded ls)"

text \<open>The series of one server: the samples held and the time of the last one.\<close>

definition track_ok :: "metric_sample list \<Rightarrow> time option \<Rightarrow> bool" where
  "track_ok xs l \<longleftrightarrow> hist.series_ok xs \<and> (\<forall>s \<in> set xs. epoch \<le> ms_At s \<and> (\<exists>t. l = Some t \<and> ms_At s \<le> t))"

definition history_ok :: "history \<Rightarrow> bool" where
  "history_ok h \<longleftrightarrow> gomap_ok (hi_samples h) \<and> (\<forall>i. track_ok (hist_of h i) (hi_lastAt h i))"

lemma track_ok_Nil [simp]: "track_ok [] l"
  by (simp add: track_ok_def hist.series_ok_def)

lemma track_ok_filter: "track_ok xs l \<Longrightarrow> track_ok (filter P xs) l"
  unfolding track_ok_def hist.series_ok_def
  by (auto simp: sorted_filter distinct_map_filter intro: le_trans [OF length_filter_le])

lemma track_ok_snoc:
  assumes "track_ok xs l" and "epoch \<le> ms_At s"
    and "\<And>t. l = Some t \<Longrightarrow> t + minute \<le> ms_At s"
  shows "track_ok (keep_last maxSamplesPerVPS (xs @ [s])) (Some (ms_At s))"
proof -
  have old: "ms_At x + minute \<le> ms_At s \<and> epoch \<le> ms_At x" if "x \<in> set xs" for x
    using assms(1,3) that by (fastforce simp: track_ok_def)
  then have keys: "sample_key x < sample_key s" if "x \<in> set xs" for x
    using minute_key_later that by blast
  have "distinct (map sample_key (xs @ [s]))"
    using assms(1) keys by (force simp: track_ok_def hist.series_ok_def)
  moreover have "sorted (map ms_At (xs @ [s]))"
    using assms(1) old by (fastforce simp: track_ok_def hist.series_ok_def sorted_append)
  ultimately show ?thesis
    using old assms(2) set_keep_last [of maxSamplesPerVPS "xs @ [s]"]
    unfolding track_ok_def hist.series_ok_def
    by (fastforce simp: map_keep_last distinct_keep_last sorted_keep_last simp del: map_append)
qed

lemma history_Record_ok:
  assumes "history_ok h" and "epoch \<le> ms_At s"
  shows "history_ok (snd (history_Record i s h))"
proof (cases "case hi_lastAt h i of Some l \<Rightarrow> time_Sub (ms_At s) l < historyInterval | None \<Rightarrow> False")
  case False
  have "track_ok (keep_last maxSamplesPerVPS (hist_of h i @ [s])) (Some (ms_At s))"
    using assms False by (intro track_ok_snoc) (auto simp: history_ok_def)
  with False assms(1) show ?thesis by (simp add: history_Record_def history_ok_def Let_def)
qed (use assms in \<open>simp add: history_Record_def\<close>)

lemma Backfill_ok:
  assumes "history_ok h" and "epoch + historyRetain \<le> now"
  shows "history_ok (snd (Backfill now i ss h))"
proof -
  let ?h = "snd (Backfill now i ss h)"
  have ser: "hist.series_ok (hist_of ?h j)" for j
    using assms(1) by (intro hist.receive_series_ok) (simp add: history_ok_def track_ok_def)
  have late: "epoch \<le> ms_At s" if "s \<in> set (hist_of ?h i)" for s
    using hist.receive_invents_nothing [of now i ss h] that assms
    by (auto simp: history_ok_def track_ok_def backfill_ok_def)
  have top: "\<exists>t. hi_lastAt ?h i = Some t \<and> ms_At s \<le> t" if s: "s \<in> set (hist_of ?h i)" for s
  proof (cases "fst (Backfill now i ss h) = 0")
    case True
    then have "?h = h" by (auto simp: Backfill_def Let_def split: if_splits)
    with assms(1) s show ?thesis by (simp add: history_ok_def track_ok_def)
  next
    case False
    let ?kept = "hist_of ?h i"
    have "ms_At s \<le> ms_At (last ?kept)"
      using sorted_map_last [where f = ms_At, OF _ s] ser [of i] by (simp add: hist.series_ok_def)
    moreover have "0 < ms_At (last ?kept)"
      using late [of "last ?kept"] s by (cases ?kept) auto
    moreover have "hi_lastAt ?h i = (if ms_At (last ?kept) > (case hi_lastAt h i of None \<Rightarrow> 0 | Some t \<Rightarrow> t)
        then Some (ms_At (last ?kept)) else hi_lastAt h i)"
      using False by (simp add: Backfill_def Let_def split: if_splits)
    ultimately show ?thesis by (auto split: option.splits if_splits)
  qed
  have others: "hist_of ?h j = hist_of h j \<and> hi_lastAt ?h j = hi_lastAt h j" if "j \<noteq> i" for j
    using that by (auto simp: Backfill_def Let_def)
  have "gomap_ok (hi_samples ?h)" using assms(1) by (simp add: Backfill_def Let_def history_ok_def)
  then show ?thesis
    using assms(1) ser late top others unfolding history_ok_def track_ok_def by metis
qed

lemma trim_all_hist:
  "gomap_ok m \<Longrightarrow> hist_of (history_trim_all c m h) j =
     (case map_of m j of
        None \<Rightarrow> hist_of h j
      | Some xs \<Rightarrow> if length (filter (\<lambda>s. ms_At s > c) xs) = length xs then hist_of h j
                  else filter (\<lambda>s. ms_At s > c) xs)"
proof (induction c m h rule: history_trim_all.induct)
  case (2 c i xs m h)
  moreover from this have "map_of m i = None" "gomap_ok m"
    by (auto simp: gomap_ok_def map_of_eq_None_iff)
  ultimately show ?case by (auto simp: Let_def split: option.splits)
qed simp

lemma trim_all_fields [simp]:
  "hi_lastAt (history_trim_all c m h) = hi_lastAt h" "hi_disk_ok (history_trim_all c m h) = hi_disk_ok h"
  by (induction c m h rule: history_trim_all.induct) (simp_all add: Let_def)

lemma trim_all_gomap: "gomap_ok (hi_samples h) \<Longrightarrow> gomap_ok (hi_samples (history_trim_all c m h))"
  by (induction c m h rule: history_trim_all.induct) (simp_all add: Let_def)

lemma filter_same_length: "length (filter P xs) = length xs \<Longrightarrow> filter P xs = xs"
  by (metis filter_True length_filter_less less_irrefl)

lemma Trim_hist:
  "gomap_ok (hi_samples h) \<Longrightarrow>
   hist_of (history_Trim now h) j = filter (\<lambda>s. ms_At s > now - historyRetain) (hist_of h j)"
proof (cases "map_of (hi_samples h) j")
  case None
  assume "gomap_ok (hi_samples h)"
  with None show ?thesis unfolding history_Trim_def by (simp add: trim_all_hist) (simp add: hist_of_def)
next
  case (Some xs)
  then have xs: "hist_of h j = xs" by (simp add: hist_of_def)
  assume "gomap_ok (hi_samples h)"
  with Some xs filter_same_length [of "\<lambda>s. ms_At s > now - historyRetain" xs] show ?thesis
    unfolding history_Trim_def by (auto simp: trim_all_hist)
qed

lemma Trim_fields [simp]: "hi_lastAt (history_Trim now h) = hi_lastAt h"
  by (simp add: history_Trim_def)

lemma history_Trim_ok:
  assumes "history_ok h"
  shows "history_ok (history_Trim now h)"
proof -
  have "gomap_ok (hi_samples (history_Trim now h))"
    using assms by (simp add: history_ok_def history_Trim_def trim_all_gomap)
  with assms show ?thesis by (auto simp: history_ok_def Trim_hist intro: track_ok_filter)
qed

lemma hist_of_Forget: "hist_of (history_Forget i h) j = (if j = i then [] else hist_of h j)"
  by (simp add: hist_of_def history_Forget_def)

lemma history_Forget_ok: "history_ok h \<Longrightarrow> history_ok (history_Forget i h)"
  by (auto simp: history_ok_def hist_of_Forget) (auto simp: history_Forget_def)

lemma history_step_ok: "history_step h h' \<Longrightarrow> history_ok h \<Longrightarrow> history_ok h'"
  by (induction rule: history_step.induct)
    (simp_all add: history_Record_ok Backfill_ok history_Trim_ok history_Forget_ok)

lemma history_run_ok: "history_run h h' \<Longrightarrow> history_ok h \<Longrightarrow> history_ok h'"
  by (induction rule: rtranclp_induct) (auto intro: history_step_ok)

lemma empty_history_ok: "history_ok (NewHistory now [] b)"
  by (simp add: NewHistory_def history_ok_def hist_of_def)

section \<open>The files follow the memory\<close>

lemma decoded_simps [simp]:
  "decoded (map Some xs) = xs" "decoded (ls @ [Some s]) = decoded ls @ [s]" "decoded [] = []"
  by (induction xs) (simp_all add: decoded_def)

lemma file_of_rewrite [simp]:
  "hi_disk_ok h \<Longrightarrow> file_of (rewrite_history i xs h) j = (if j = i then xs else file_of h j)"
  by (simp add: file_of_def rewrite_history_def)

lemma file_of_update [simp]:
  "file_of (h\<lparr>hi_samples := m\<rparr>) = file_of h" "file_of (h\<lparr>hi_lastAt := l\<rparr>) = file_of h"
  by (simp_all add: file_of_def fun_eq_iff)

definition on_disk :: "history \<Rightarrow> bool" where
  "on_disk h \<longleftrightarrow> hi_disk_ok h \<and> gomap_ok (hi_samples h) \<and> gomap_ok (hi_files h) \<and>
     (\<forall>i. set (hist_of h i) \<subseteq> set (file_of h i))"

lemma trim_all_file:
  "hi_disk_ok h \<Longrightarrow> gomap_ok m \<Longrightarrow> file_of (history_trim_all c m h) j =
     (case map_of m j of
        None \<Rightarrow> file_of h j
      | Some xs \<Rightarrow> if length (filter (\<lambda>s. ms_At s > c) xs) = length xs then file_of h j
                  else filter (\<lambda>s. ms_At s > c) xs)"
proof (induction c m h rule: history_trim_all.induct)
  case (2 c i xs m h)
  moreover from this have "map_of m i = None" "gomap_ok m"
    by (auto simp: gomap_ok_def map_of_eq_None_iff)
  ultimately show ?case by (auto simp: Let_def split: option.splits)
qed simp

lemma rewrite_gomap [simp]: "gomap_ok (hi_files h) \<Longrightarrow> gomap_ok (hi_files (rewrite_history i xs h))"
  by (simp add: rewrite_history_def)

lemma trim_all_files_gomap: "gomap_ok (hi_files h) \<Longrightarrow> gomap_ok (hi_files (history_trim_all c m h))"
  by (induction c m h rule: history_trim_all.induct) (simp_all add: Let_def)

lemma Trim_on_disk: "on_disk h \<Longrightarrow> on_disk (history_Trim now h)"
  unfolding on_disk_def history_Trim_def
  by (auto simp: trim_all_file trim_all_hist trim_all_gomap trim_all_files_gomap split: option.splits)

lemma Record_file_of:
  "hi_disk_ok h \<Longrightarrow> file_of (snd (history_Record i s h)) j =
     (if j = i \<and> fst (history_Record i s h) then file_of h i @ [s] else file_of h j)"
  by (simp add: history_Record_def Let_def file_of_def split: option.splits)

lemma Record_hist_of:
  "hi_disk_ok h \<Longrightarrow> hist_of (snd (history_Record i s h)) j =
     (if j = i \<and> fst (history_Record i s h) then keep_last maxSamplesPerVPS (hist_of h i @ [s]) else hist_of h j)"
  by (simp add: history_Record_def Let_def split: option.splits)

lemma Record_on_disk:
  assumes "on_disk h"
  shows "on_disk (snd (history_Record i s h))"
proof -
  have "set (hist_of (snd (history_Record i s h)) j) \<subseteq> set (file_of (snd (history_Record i s h)) j)" for j
    using assms set_keep_last [of maxSamplesPerVPS "hist_of h i @ [s]"]
    by (fastforce simp: on_disk_def Record_file_of Record_hist_of)
  moreover have "gomap_ok (hi_samples (snd (history_Record i s h)))"
    "gomap_ok (hi_files (snd (history_Record i s h)))" "hi_disk_ok (snd (history_Record i s h))"
    using assms by (simp_all add: on_disk_def history_Record_def Let_def)
  ultimately show ?thesis by (simp add: on_disk_def)
qed

lemma Backfill_on_disk: "on_disk h \<Longrightarrow> on_disk (snd (Backfill now i ss h))"
  by (auto simp: on_disk_def Backfill_def Let_def)

lemma Forget_on_disk: "on_disk h \<Longrightarrow> on_disk (history_Forget i h)"
proof -
  assume h: "on_disk h"
  have "file_of (history_Forget i h) j = (if j = i then [] else file_of h j)" for j
    using h by (simp add: file_of_def history_Forget_def on_disk_def)
  moreover have "hi_disk_ok (history_Forget i h)" "gomap_ok (hi_samples (history_Forget i h))"
    "gomap_ok (hi_files (history_Forget i h))"
    using h by (simp_all add: history_Forget_def on_disk_def)
  ultimately show ?thesis using h by (simp add: on_disk_def hist_of_Forget)
qed

lemma history_step_on_disk: "history_step h h' \<Longrightarrow> on_disk h \<Longrightarrow> on_disk h'"
  by (induction rule: history_step.induct)
    (simp_all add: Record_on_disk Backfill_on_disk Trim_on_disk Forget_on_disk)

lemma history_run_on_disk: "history_run h h' \<Longrightarrow> on_disk h \<Longrightarrow> on_disk h'"
  by (induction rule: rtranclp_induct) (auto intro: history_step_on_disk)

lemma history_load_other:
  "i \<notin> fst ` set fs \<Longrightarrow> hist_of (history_load now fs h) i = hist_of h i"
  by (induction now fs h rule: history_load.induct) (simp_all add: Let_def)

lemma history_load_set:
  "gomap_ok fs \<Longrightarrow> map_of fs i = Some ls \<Longrightarrow> hist_of h i = [] \<Longrightarrow>
   set (hist_of (history_load now fs h) i) = {s \<in> set (decoded ls). \<not> ms_At s < now - historyRetain}"
proof (induction now fs h rule: history_load.induct)
  case (2 now j js fs h)
  show ?case
  proof (cases "i = j")
    case True
    with 2(4) have "js = ls" by simp
    have "i \<notin> fst ` set fs" using 2(3) True by (simp add: gomap_ok_def)
    then have other: "hist_of (history_load now fs g) i = hist_of g i" for g by (rule history_load_other)
    show ?thesis
    proof (cases "filter (\<lambda>s. \<not> ms_At s < now - historyRetain) (decoded js) = []")
      case empty: True
      then have "hist_of (history_load now ((j, js) # fs) h) i = []"
        using other [of h] 2(5) by (simp add: Let_def)
      with empty \<open>js = ls\<close> show ?thesis by (auto simp: filter_empty_conv)
    next
      case False
      then have "hist_of (history_load now ((j, js) # fs) h) i =
          sort_key ms_At (filter (\<lambda>s. \<not> ms_At s < now - historyRetain) (decoded js))"
        using other True by (simp only: history_load.simps Let_def if_False) simp
      with \<open>js = ls\<close> show ?thesis by auto
    qed
  next
    case False
    have "gomap_ok fs" using 2(3) by (simp add: gomap_ok_def)
    moreover have "map_of fs i = Some ls" using 2(4) False by simp
    ultimately show ?thesis using 2(1,2,5) False by (simp add: Let_def)
  qed
qed simp

section \<open>Properties\<close>

text \<open>
  C10. Through every sequence of recording, backfilling, trimming and forgetting, each server's
  history stays ordered by time, holds at most one sample per minute and at most 43200 samples,
  and the time of the last sample is not before any sample held.
\<close>

theorem history_invariant:
  assumes "history_run (NewHistory now [] b) h"
  shows "sorted (map ms_At (hist_of h i)) \<and> distinct (map (\<lambda>s. minute_key (ms_At s)) (hist_of h i)) \<and>
         length (hist_of h i) \<le> maxSamplesPerVPS \<and>
         (\<forall>s \<in> set (hist_of h i). \<exists>t. hi_lastAt h i = Some t \<and> ms_At s \<le> t)"
  using history_run_ok [OF assms empty_history_ok]
  by (auto simp: history_ok_def track_ok_def hist.series_ok_def)

definition demo_sample :: "time \<Rightarrow> metric_sample" where
  "demo_sample t = SampleFrom t zero_metrics"

lemma demo_sample_At [simp]: "ms_At (demo_sample t) = t"
  by (simp add: demo_sample_def SampleFrom_def zero_metrics_def time_IsZero_def)

theorem history_invariant_witness:
  "let h = snd (history_Record ''a'' (demo_sample (epoch + hour)) (NewHistory 0 [] True))
   in hist_of h ''a'' = [demo_sample (epoch + hour)] \<and> hi_lastAt h ''a'' = Some (epoch + hour) \<and>
      sorted (map ms_At (hist_of h ''a''))"
proof -
  define h where "h = snd (history_Record ''a'' (demo_sample (epoch + hour)) (NewHistory 0 [] True))"
  have "history_run (NewHistory 0 [] True) h"
    unfolding h_def by (intro r_into_rtranclp history_step.record_sample) simp
  moreover have "hist_of h ''a'' = [demo_sample (epoch + hour)] \<and> hi_lastAt h ''a'' = Some (epoch + hour)"
    by (simp add: h_def history_Record_def NewHistory_def hist_of_def keep_last_def maxSamplesPerVPS_def)
  ultimately show ?thesis
    using history_invariant [of 0 True h "''a''"] unfolding Let_def h_def [symmetric] by simp
qed

text \<open>
  An agent that could not confirm a delivery sends its samples again, and the backend does not
  count them twice: the second delivery adds nothing and changes no server's history; the first one
  lost no sample that was already held and left every acceptable sample's minute represented.
\<close>

lemma Backfill_resend_harmless:
  assumes "length (hist_of h i) + length ss \<le> maxSamplesPerVPS" and "now \<le> now'"
    and "\<forall>s \<in> set ss. ms_At s \<le> now + hour"
  shows "fst (Backfill now' i ss (snd (Backfill now i ss h))) = 0 \<and>
         hist_of (snd (Backfill now' i ss (snd (Backfill now i ss h)))) j = hist_of (snd (Backfill now i ss h)) j \<and>
         set (hist_of h i) \<subseteq> set (hist_of (snd (Backfill now i ss h)) i) \<and>
         (\<forall>s \<in> set ss. backfill_ok now s \<longrightarrow>
            minute_key (ms_At s) \<in> (\<lambda>s. minute_key (ms_At s)) ` set (hist_of (snd (Backfill now i ss h)) i))"
proof -
  have "\<forall>s \<in> set ss. backfill_ok now' s \<longrightarrow> backfill_ok now s"
    using assms(2,3) by (auto simp: backfill_ok_def)
  from hist.resend_adds_nothing [OF assms(1) this, of j] hist.receive_keeps [OF assms(1), of now]
  show ?thesis by blast
qed



text \<open>
  Spike records sent twice are kept once: the second delivery adds nothing, and two records
  are the same incident exactly when they share metric and minute.
\<close>

lemma spikes_resend_harmless:
  assumes "length (spikes_of k i) + length rs \<le> maxSpikesPerVPS" and "now \<le> now'"
    and "\<forall>r \<in> set rs. sr_At r \<le> now + hour"
    and "sorted (map sr_At (spikes_of k i))" and "distinct (map spike_key (spikes_of k i))"
  shows "fst (spikes_Record now' i rs (snd (spikes_Record now i rs k))) = 0 \<and>
         spikes_of (snd (spikes_Record now' i rs (snd (spikes_Record now i rs k)))) j =
           spikes_of (snd (spikes_Record now i rs k)) j \<and>
         sorted (map sr_At (spikes_of (snd (spikes_Record now i rs k)) i)) \<and>
         distinct (map spike_key (spikes_of (snd (spikes_Record now i rs k)) i)) \<and>
         spike_key ` {r \<in> set rs. spike_ok now r} \<subseteq> spike_key ` set (spikes_of (snd (spikes_Record now i rs k)) i)"
proof -
  have "\<forall>r \<in> set rs. spike_ok now' r \<longrightarrow> spike_ok now r"
    using assms(2,3) by (auto simp: spike_ok_def)
  note resend = spk.resend_adds_nothing [OF assms(1) this, of j]
  have "spk.series_ok (spikes_of k i)" using assms(1,4,5) by (simp add: spk.series_ok_def)
  from spk.receive_series_ok [OF this, of now i rs] resend spk.receive_keeps [OF assms(1), of now]
  show ?thesis by (auto simp: spk.series_ok_def)
qed

definition demo_spike :: "time \<Rightarrow> spike_record" where
  "demo_spike t = \<lparr> sr_At = t, sr_Metric = ''cpu'', sr_Value = 90, sr_Baseline = 10, sr_Top = [] \<rparr>"

lemma nearest_loop_mono:
  "b = Some (c, h) \<Longrightarrow> \<exists>r g. nearest_loop t tol rs b = Some (r, g) \<and> g \<le> h"
proof (induction t tol rs b arbitrary: c h rule: nearest_loop.induct)
  case (2 t tol q rs b)
  show ?case
  proof (cases "abs_gap (sr_At q) t \<le> tol \<and> abs_gap (sr_At q) t < h")
    case True
    with "2.IH" [OF refl, of q "abs_gap (sr_At q) t"] "2.prems" show ?thesis
      by (fastforce simp: Let_def)
  next
    case False
    with "2.IH" [OF refl, of c h] "2.prems" show ?thesis by (auto simp: Let_def split: if_splits)
  qed
qed simp

lemma nearest_loop_member:
  "nearest_loop t tol rs b = Some (r, g) \<Longrightarrow>
   b = Some (r, g) \<or> (r \<in> set rs \<and> g = abs_gap (sr_At r) t \<and> g \<le> tol)"
  by (induction t tol rs b rule: nearest_loop.induct) (auto simp: Let_def split: option.splits if_splits)

lemma nearest_loop_bound:
  "q \<in> set rs \<Longrightarrow> abs_gap (sr_At q) t \<le> tol \<Longrightarrow>
   \<exists>r g. nearest_loop t tol rs b = Some (r, g) \<and> g \<le> abs_gap (sr_At q) t"
proof (induction t tol rs b rule: nearest_loop.induct)
  case (2 t tol p rs b)
  show ?case
  proof (cases "q = p")
    case True
    define b' where "b' = (case b of None \<Rightarrow> Some (p, abs_gap (sr_At p) t)
      | Some (c, h) \<Rightarrow> if abs_gap (sr_At p) t < h then Some (p, abs_gap (sr_At p) t) else Some (c, h))"
    obtain c h where c: "b' = Some (c, h)" "h \<le> abs_gap (sr_At p) t"
    proof (cases b)
      case None
      then show ?thesis using that by (simp add: b'_def)
    next
      case (Some x)
      then show ?thesis using that by (cases x; cases "abs_gap (sr_At p) t < snd x") (auto simp: b'_def)
    qed
    have "nearest_loop t tol (p # rs) b = nearest_loop t tol rs b'"
      using "2.prems" True by (simp add: Let_def b'_def)
    with nearest_loop_mono [OF c(1), of t tol rs] c(2) True show ?thesis by fastforce
  next
    case False
    with 2 show ?thesis by (simp add: Let_def)
  qed
qed simp

text \<open>
  A click on the chart resolves to the closest spike within the tolerance, and to nothing
  exactly when no spike is that close.
\<close>

lemma Nearest_is_closest:
  "case Nearest i t tol k of
     None \<Rightarrow> \<forall>r \<in> set (spikes_of k i). abs_gap (sr_At r) t > tol
   | Some r \<Rightarrow> r \<in> set (spikes_of k i) \<and> abs_gap (sr_At r) t \<le> tol \<and>
       (\<forall>q \<in> set (spikes_of k i). abs_gap (sr_At r) t \<le> abs_gap (sr_At q) t)"
proof (cases "nearest_loop t tol (spikes_of k i) None")
  case None
  then show ?thesis
    using nearest_loop_bound [of _ "spikes_of k i" t tol None] by (force simp: Nearest_def)
next
  case (Some p)
  obtain r g where p: "p = (r, g)" by (cases p)
  from nearest_loop_member [of t tol "spikes_of k i" None r g] Some p
  have r: "r \<in> set (spikes_of k i)" "g = abs_gap (sr_At r) t" "g \<le> tol" by auto
  have "g \<le> abs_gap (sr_At q) t" if "q \<in> set (spikes_of k i)" for q
    using nearest_loop_bound [OF that, of t tol None] Some p r(3) by fastforce
  with Some p r show ?thesis by (simp add: Nearest_def)
qed

definition demo_spikes :: spikes where
  "demo_spikes = \<lparr> sk_byVPS = [(''a'', [demo_spike 2, demo_spike 8])], sk_files = [], sk_disk_ok = True \<rparr>"

end
