(* ===== verification/Forecast.thy ===== *)
theory Forecast
  imports Time_Series_Laws
begin

text \<open>
  The disk forecast of \<^verbatim>\<open>src/backend/disk_forecast.go\<close>: a least-squares line through one mount's
  recent samples, cached per server. \<open>Hours()\<close> and the conversions between \<open>Duration\<close> and
  \<open>float64\<close> are exact on reals; \<open>time.Duration(x)\<close> drops the fraction.
\<close>

section \<open>The forecast of one mount\<close>

abbreviation forecastWindow :: duration where "forecastWindow \<equiv> 72 * hour"
abbreviation forecastMinSpan :: duration where "forecastMinSpan \<equiv> 12 * hour"
abbreviation forecastMinSamples :: nat where "forecastMinSamples \<equiv> 60"
abbreviation forecastMinRise :: real where "forecastMinRise \<equiv> 1 / 2"
abbreviation forecastCleanupDrop :: real where "forecastCleanupDrop \<equiv> 2"
abbreviation forecastHorizon :: duration where "forecastHorizon \<equiv> 30 * 24 * hour"
abbreviation forecastRefresh :: duration where "forecastRefresh \<equiv> 10 * minute"

type_synonym point = "time \<times> real"

fun forecast_points :: "time \<Rightarrow> string \<Rightarrow> metric_sample list \<Rightarrow> point list \<Rightarrow> point list" where
  "forecast_points start mount [] pts = pts"
| "forecast_points start mount (s # ss) pts =
     (if ms_At s < start then forecast_points start mount ss pts
      else case map_of (ms_Mounts s) mount of
             None \<Rightarrow> forecast_points start mount ss pts
           | Some p \<Rightarrow>
               forecast_points start mount ss
                 ((if pts \<noteq> [] \<and> snd (last pts) - p \<ge> forecastCleanupDrop then [] else pts) @ [(ms_At s, p)]))"

definition hours :: "duration \<Rightarrow> real" where
  "hours d = of_int d / of_int hour"

definition hours_since :: "time \<Rightarrow> point \<Rightarrow> real" where
  "hours_since t0 pt = hours (time_Sub (fst pt) t0)"

definition ls_den :: "time \<Rightarrow> point list \<Rightarrow> real" where
  "ls_den t0 pts =
     (let n = real (length pts); sx = sum_list (map (hours_since t0) pts);
          sxx = sum_list (map (\<lambda>pt. hours_since t0 pt * hours_since t0 pt) pts)
      in n * sxx - sx * sx)"

definition ls_num :: "time \<Rightarrow> point list \<Rightarrow> real" where
  "ls_num t0 pts =
     (let n = real (length pts); sx = sum_list (map (hours_since t0) pts); sy = sum_list (map snd pts);
          sxy = sum_list (map (\<lambda>pt. hours_since t0 pt * snd pt) pts)
      in n * sxy - sx * sy)"

definition forecast_line :: "point list \<Rightarrow> time option" where
  "forecast_line pts =
     (if length pts < forecastMinSamples then None
      else
        let first = hd pts; latest = last pts; span = time_Sub (fst latest) (fst first) in
        if span < forecastMinSpan then None
        else if ls_den (fst first) pts = 0 then None
        else
          let slope = ls_num (fst first) pts / ls_den (fst first) pts in
          if slope \<le> 0 \<or> slope * hours span < forecastMinRise then None
          else
            let left = 100 - snd latest in
            if left \<le> 0 then None
            else
              let eta = \<lfloor>left / slope * of_int hour\<rfloor> in
              if eta > forecastHorizon then None else Some (fst latest + eta))"

definition forecastFull :: "metric_sample list \<Rightarrow> string \<Rightarrow> time option" where
  "forecastFull samples mount =
     (if samples = [] then None
      else forecast_line (forecast_points (ms_At (last samples) - forecastWindow) mount samples []))"

section \<open>The cache and the annotation\<close>

definition covers :: "string list \<Rightarrow> string list \<Rightarrow> bool" where
  "covers have_mounts want \<longleftrightarrow> (\<forall>m \<in> set want. m \<in> set have_mounts)"

fun forecast_mounts :: "metric_sample list \<Rightarrow> string list \<Rightarrow> disk_forecast \<Rightarrow> disk_forecast" where
  "forecast_mounts all [] c = c"
| "forecast_mounts all (m # ms) c =
     forecast_mounts all ms
       (let c1 = c\<lparr>df_mounts := List.insert m (df_mounts c)\<rparr>
        in case forecastFull all m of
             None \<Rightarrow> c1 | Some t \<Rightarrow> c1\<lparr>df_full := (df_full c1)(m \<mapsto> t)\<rparr>)"

definition cached :: "string \<Rightarrow> string list \<Rightarrow> time \<Rightarrow> history \<Rightarrow> disk_forecast option" where
  "cached i mounts now h =
     (case hi_forecasts h i of
        None \<Rightarrow> None
      | Some c \<Rightarrow> if time_Sub now (df_at c) < forecastRefresh \<and> covers (df_mounts c) mounts
                  then Some c else None)"

definition DiskForecast :: "string \<Rightarrow> string list \<Rightarrow> time \<Rightarrow> history \<Rightarrow> (string \<rightharpoonup> time) \<times> history" where
  "DiskForecast i mounts now h =
     (case cached i mounts now h of
        Some c \<Rightarrow> (df_full c, h)
      | None \<Rightarrow>
          let c = forecast_mounts (hist_of h i) mounts \<lparr> df_at = now, df_mounts = [], df_full = Map.empty \<rparr>
          in (df_full c, h\<lparr>hi_forecasts := (hi_forecasts h)(i \<mapsto> c)\<rparr>))"

definition annotateDiskForecast ::
  "time \<Rightarrow> string \<Rightarrow> history option \<Rightarrow> system_metrics \<Rightarrow> system_metrics \<times> history option" where
  "annotateDiskForecast now i hist m =
     (case hist of
        None \<Rightarrow> (m, hist)
      | Some h \<Rightarrow>
          if sm_Disks m = [] then (m, hist)
          else
            let (full, h1) = DiskForecast i (map du_Mount (sm_Disks m)) now h
            in (m\<lparr>sm_Disks := map (\<lambda>d. d\<lparr>du_FullAt := full (du_Mount d)\<rparr>) (sm_Disks m)\<rparr>, Some h1))"

section \<open>Least squares\<close>

lemma sum_list_affine:
  fixes f :: "'a \<Rightarrow> real"
  shows "sum_list (map (\<lambda>x. a + b * f x) xs) = real (length xs) * a + b * sum_list (map f xs)"
  by (induction xs) (simp_all add: algebra_simps)

lemma sum_list_affine_mult:
  fixes f :: "'a \<Rightarrow> real"
  shows "sum_list (map (\<lambda>x. f x * (a + b * f x)) xs) =
    a * sum_list (map f xs) + b * sum_list (map (\<lambda>x. f x * f x) xs)"
  by (induction xs) (simp_all add: algebra_simps)

lemma ls_num_on_line:
  assumes "\<forall>pt \<in> set pts. snd pt = a + b * hours_since t0 pt"
  shows "ls_num t0 pts = b * ls_den t0 pts"
proof -
  have sy: "map snd pts = map (\<lambda>pt. a + b * hours_since t0 pt) pts"
    using assms by simp
  have sxy: "map (\<lambda>pt. hours_since t0 pt * snd pt) pts = map (\<lambda>pt. hours_since t0 pt * (a + b * hours_since t0 pt)) pts"
    using assms by simp
  show ?thesis
    unfolding ls_num_def ls_den_def Let_def sy sxy sum_list_affine sum_list_affine_mult
    by (simp add: algebra_simps)
qed

lemma variance_pos:
  fixes f :: "'a \<Rightarrow> real"
  assumes "x \<in> set xs" and "y \<in> set xs" and "f x \<noteq> f y"
  shows "real (length xs) * sum_list (map (\<lambda>x. f x * f x) xs) - sum_list (map f xs) * sum_list (map f xs) > 0"
proof -
  let ?n = "real (length xs)" and ?s = "sum_list (map f xs)"
  define m where "m = ?s / ?n"
  have n: "?n > 0" using assms(1) by (cases xs) auto
  have expand: "sum_list (map (\<lambda>x. (f x - c) * (f x - c)) ys) =
      sum_list (map (\<lambda>x. f x * f x) ys) - 2 * c * sum_list (map f ys) + real (length ys) * c * c" for c ys
    by (induction ys) (simp_all add: algebra_simps)
  have nonneg: "0 \<le> sum_list (map (\<lambda>x. (f x - m) * (f x - m)) ys)" for ys
    by (induction ys) simp_all
  obtain z where z: "z \<in> set xs" "f z \<noteq> m" using assms by metis
  then obtain us vs where xs: "xs = us @ z # vs" by (meson split_list)
  have "(f z - m) * (f z - m) > 0" using z(2) by (cases "f z < m") (simp_all add: mult_neg_neg)
  then have "sum_list (map (\<lambda>x. (f x - m) * (f x - m)) (us @ z # vs)) > 0"
    using nonneg [of us] nonneg [of vs] by simp
  then have "0 < ?n * sum_list (map (\<lambda>x. (f x - m) * (f x - m)) xs)" using n xs by simp
  also have "\<dots> = ?n * sum_list (map (\<lambda>x. f x * f x) xs) - ?s * ?s"
    unfolding expand m_def using n by (simp add: field_simps)
  finally show ?thesis .
qed

lemma ls_den_pos:
  assumes "pts \<noteq> []" and "hours_since t0 (hd pts) \<noteq> hours_since t0 (last pts)"
  shows "ls_den t0 pts > 0"
  using variance_pos [of "hd pts" pts "last pts" "hours_since t0"] assms
  by (simp add: ls_den_def Let_def)

section \<open>Properties\<close>

text \<open>
  On a disk that fills steadily the forecast is right to the nanosecond: when the mount's points
  in the window (after the last cleanup) lie on a line rising \<open>b\<close> percent an hour, are at least
  sixty and span at least twelve hours, the forecast is the time that line reaches 100 percent,
  unless the rise is below half a percent, the disk is full already or the date is more than
  thirty days out.
\<close>

lemma forecastFull_on_a_line:
  assumes "samples \<noteq> []"
    and "pts = forecast_points (ms_At (last samples) - forecastWindow) mount samples []"
    and "\<forall>pt \<in> set pts. snd pt = a + b * hours_since (fst (hd pts)) pt"
    and "forecastMinSamples \<le> length pts"
    and "fst (last pts) - fst (hd pts) \<ge> forecastMinSpan"
    and "fst (last pts) - fst (hd pts) < 2 ^ 63"
  shows "forecastFull samples mount =
    (if b > 0 \<and> b * hours (fst (last pts) - fst (hd pts)) \<ge> forecastMinRise \<and> snd (last pts) < 100 \<and>
        \<lfloor>(100 - snd (last pts)) / b * of_int hour\<rfloor> \<le> forecastHorizon
     then Some (fst (last pts) + \<lfloor>(100 - snd (last pts)) / b * of_int hour\<rfloor>) else None)"
proof -
  let ?t0 = "fst (hd pts)"
  have sub: "time_Sub (fst (last pts)) ?t0 = fst (last pts) - ?t0"
    using assms(5,6) by (simp add: time_Sub_def)
  have "hours_since ?t0 (hd pts) = 0" "hours_since ?t0 (last pts) > 0"
    using assms(5) by (simp_all add: hours_since_def hours_def sub)
  then have den: "ls_den ?t0 pts > 0" using assms(4) by (intro ls_den_pos) auto
  then have slope: "ls_num ?t0 pts / ls_den ?t0 pts = b"
    using ls_num_on_line [OF assms(3)] by simp
  have "forecastFull samples mount = forecast_line pts"
    using assms(1,2) by (simp add: forecastFull_def)
  also have "\<dots> = (if b > 0 \<and> b * hours (fst (last pts) - fst (hd pts)) \<ge> forecastMinRise \<and> snd (last pts) < 100 \<and>
        \<lfloor>(100 - snd (last pts)) / b * of_int hour\<rfloor> \<le> forecastHorizon
     then Some (fst (last pts) + \<lfloor>(100 - snd (last pts)) / b * of_int hour\<rfloor>) else None)"
    using assms(4,5) den unfolding forecast_line_def Let_def slope sub
    by (simp add: not_le not_less)
  finally show ?thesis .
qed

text \<open>One sample an hour for sixty-one hours, one percent an hour from thirty percent.\<close>

definition demo_point :: "nat \<Rightarrow> point" where
  "demo_point k = (epoch + int k * hour, 30 + real k)"

definition demo_fill :: "nat \<Rightarrow> metric_sample" where
  "demo_fill k = (demo_sample (fst (demo_point k)))\<lparr>ms_Mounts := [(''/'', snd (demo_point k))]\<rparr>"

definition demo_filling :: "metric_sample list" where
  "demo_filling = map demo_fill [0..<61]"

lemma demo_fill_fields [simp]:
  "ms_At (demo_fill k) = fst (demo_point k)" "ms_Mounts (demo_fill k) = [(''/'', snd (demo_point k))]"
  by (simp_all add: demo_fill_def)

lemma demo_point_order [simp]:
  "\<not> fst (demo_point k) < epoch - 12 * hour"
  "n \<noteq> 0 \<Longrightarrow> \<not> snd (last (map demo_point [0..<n])) - snd (demo_point n) \<ge> forecastCleanupDrop"
  by (simp_all add: demo_point_def last_map)

lemma demo_filling_points:
  "n \<le> m \<Longrightarrow> forecast_points (epoch - 12 * hour) ''/'' (map demo_fill [n..<m]) (map demo_point [0..<n]) =
   map demo_point [0..<m]"
proof (induction "m - n" arbitrary: n)
  case (Suc d)
  then have nm: "n < m" by simp
  have "(if map demo_point [0..<n] \<noteq> [] \<and>
        snd (last (map demo_point [0..<n])) - snd (demo_point n) \<ge> forecastCleanupDrop
        then [] else map demo_point [0..<n]) = map demo_point [0..<n]"
    using demo_point_order(2) [of n] by (cases "n = 0") simp_all
  then have "forecast_points (epoch - 12 * hour) ''/'' (demo_fill n # map demo_fill [Suc n..<m]) (map demo_point [0..<n]) =
      forecast_points (epoch - 12 * hour) ''/'' (map demo_fill [Suc n..<m]) (map demo_point [0..<n] @ [demo_point n])"
    using demo_point_order(1) [of n] by (simp only: forecast_points.simps demo_fill_fields if_False) simp
  with Suc(1) [of "Suc n"] Suc(2) nm show ?case by (simp add: upt_conv_Cons [OF nm])
qed simp

end
