(* ===== verification/Snapshot_Merge.thy ===== *)
theory Snapshot_Merge
  imports Sweep_Properties Forecast
begin

text \<open>
  What one agent frame does to the backend (\<^verbatim>\<open>src/backend/snapshot_merge.go\<close>): registry,
  snapshot, forecast, alerts and history in one pass. The state is the alert engine (which holds
  the registry) and the history, \<open>None\<close> when the backend runs without one.
\<close>

definition merge_entry :: "time \<Rightarrow> string \<Rightarrow> vps_status \<Rightarrow> vps_entry \<Rightarrow> vps_entry" where
  "merge_entry now agentVer status e =
     (let v = (en_VPS e)\<lparr>vps_LastSeen := now\<rparr>;
          v1 = (if agentVer \<noteq> [] then v\<lparr>vps_AgentVer := agentVer\<rparr> else v)
      in if vps_Status v1 = VPSPending then e\<lparr>en_VPS := v1\<rparr>
         else if en_Restart e \<noteq> None \<and> Fresh now (en_Restart e)
         then e\<lparr>en_VPS := v1\<lparr>vps_Status := MarkerStatus (en_Restart e)\<rparr>\<rparr>
         else e\<lparr>en_VPS := v1\<lparr>vps_Status := status\<rparr>\<rparr>)"

definition frame_status :: "system_metrics \<Rightarrow> vps_status" where
  "frame_status m = (if sm_Hostname m \<noteq> [] \<or> sm_CPUPercent m > 0 then statusFor m else VPSOnline)"

definition mergeSnapshot ::
  "time \<Rightarrow> string \<Rightarrow> string \<Rightarrow> (vps_snapshot \<Rightarrow> vps_snapshot) \<Rightarrow> engine \<times> history option \<Rightarrow>
     (engine \<times> history option) option" where
  "mergeSnapshot now i agentVer merge st =
     (case st of (e, hist) \<Rightarrow>
        let snap = merge (case GetSnapshot i (ae_store e) of None \<Rightarrow> zero_snapshot | Some s \<Rightarrow> s);
            (updated, s1) = UpdateVPS i (merge_entry now agentVer (frame_status (sn_Metrics snap))) (ae_store e)
        in case updated of
             None \<Rightarrow> Some (e, hist)
           | Some en \<Rightarrow>
               let (m, hist1) = annotateDiskForecast now (vps_ID (en_VPS en)) hist (sn_Metrics snap);
                   snap1 = snap\<lparr>sn_VPS := en_VPS en, sn_Updated := now, sn_Metrics := m\<rparr>;
                   e1 = e\<lparr>ae_store := SetSnapshot snap1 s1\<rparr>
               in case EvaluateSnapshot now (en_VPS en) snap1 e1 of
                    None \<Rightarrow> None
                  | Some e2 \<Rightarrow>
                      let hist2 = (case hist1 of
                             None \<Rightarrow> None
                           | Some h \<Rightarrow> if sm_CollectedAt m > 0
                                       then Some (snd (history_Record (vps_ID (en_VPS en)) (SampleFrom now m) h))
                                       else Some h)
                      in Some (send_out (BroadcastSnapshot (Some snap1)) e2, hist2))"

section \<open>What the evaluation leaves alone\<close>

definition registry_view :: "store \<Rightarrow> (string, vps_entry) gomap \<times> (string, vps_snapshot) gomap" where
  "registry_view s = (st_VPS s, st_snapshots s)"

lemma registry_view_alerts [simp]:
  "registry_view (snd (AddAlert now a s)) = registry_view s"
  "registry_view (snd (ResolveAlertsFor i t k s)) = registry_view s"
  by (simp_all add: registry_view_def AddAlert_def ResolveAlertsFor_def newID_def Let_def)

interpretation view: engine_invariant "\<lambda>e. registry_view (ae_store e) = x" for x
  by unfold_locales
    (simp_all add: fire_store clear_store clearReachability_def Let_def)

lemma EvaluateSnapshot_view:
  "EvaluateSnapshot now v snap e = Some e' \<Longrightarrow> no_bar (vps_ID v) \<Longrightarrow>
   registry_view (ae_store e') = registry_view (ae_store e)"
  using view.I_EvaluateSnapshot by blast

section \<open>Properties\<close>

text \<open>
  A frame that is still in flight when its server is deleted changes nothing: no entry, no
  snapshot, no alert and no history comes back.
\<close>

lemma frame_for_deleted_server:
  assumes "GetVPS i (ae_store e) = None"
  shows "mergeSnapshot now i ver merge (e, hist) = Some (e, hist)"
  using assms by (simp add: mergeSnapshot_def UpdateVPS_def GetVPS_def)

text \<open>
  After a frame the registry and the stored snapshot show the same server, seen just now: a
  pending server stays pending, a fresh restart marker keeps its status, and otherwise the status is
  the one the metrics call for. No other server's entry or snapshot changes.
\<close>

lemma frame_updates_registry:
  assumes "mergeSnapshot now i ver merge (e, hist) = Some (e', hist')"
    and "GetVPS i (ae_store e) = Some en" and "vps_ID (en_VPS en) = i" and "no_bar i"
  shows "\<exists>en' sn. GetVPS i (ae_store e') = Some en' \<and> GetSnapshot i (ae_store e') = Some sn \<and>
     sn_VPS sn = en_VPS en' \<and> vps_LastSeen (en_VPS en') = now \<and> en_Restart en' = en_Restart en \<and>
     vps_Status (en_VPS en') =
       (if vps_Status (en_VPS en) = VPSPending then VPSPending
        else if Fresh now (en_Restart en) then MarkerStatus (en_Restart en)
        else frame_status (sn_Metrics (merge (case GetSnapshot i (ae_store e) of None \<Rightarrow> zero_snapshot | Some s \<Rightarrow> s)))) \<and>
     (\<forall>j. j \<noteq> i \<longrightarrow> GetVPS j (ae_store e') = GetVPS j (ae_store e) \<and>
                     GetSnapshot j (ae_store e') = GetSnapshot j (ae_store e))"
proof -
  define snap where "snap = merge (case GetSnapshot i (ae_store e) of None \<Rightarrow> zero_snapshot | Some s \<Rightarrow> s)"
  define en' where "en' = merge_entry now ver (frame_status (sn_Metrics snap)) en"
  define s1 where "s1 = snd (UpdateVPS i (merge_entry now ver (frame_status (sn_Metrics snap))) (ae_store e))"
  define p where "p = annotateDiskForecast now i hist (sn_Metrics snap)"
  define snap1 where "snap1 = snap\<lparr>sn_VPS := en_VPS en', sn_Updated := now, sn_Metrics := fst p\<rparr>"
  have id: "vps_ID (en_VPS en') = i"
    using assms(3) by (simp add: en'_def merge_entry_def Let_def)
  have upd: "UpdateVPS i (merge_entry now ver (frame_status (sn_Metrics snap))) (ae_store e) = (Some en', s1)"
    using assms(2) by (simp add: UpdateVPS_def GetVPS_def s1_def en'_def)
  from assms(1) obtain e2 where e2: "EvaluateSnapshot now (en_VPS en') snap1 (e\<lparr>ae_store := SetSnapshot snap1 s1\<rparr>) = Some e2"
    and e': "ae_store e' = ae_store e2"
    by (auto simp: mergeSnapshot_def Let_def snap_def [symmetric] upd id p_def [symmetric] snap1_def [symmetric]
        split_def split: option.splits)
  have view: "registry_view (ae_store e') = registry_view (SetSnapshot snap1 s1)"
    using EvaluateSnapshot_view [OF e2] id assms(4) e' by simp
  have vps1: "sn_VPS snap1 = en_VPS en'" by (simp add: snap1_def)
  have get: "GetVPS j (ae_store e') = (if j = i then Some en' else GetVPS j (ae_store e))" for j
    using view assms(2) by (simp add: registry_view_def GetVPS_def SetSnapshot_def s1_def UpdateVPS_def en'_def)
  have snaps: "st_snapshots s1 = st_snapshots (ae_store e)"
    by (simp add: s1_def UpdateVPS_def split: option.splits)
  have sn: "GetSnapshot j (ae_store e') = (if j = i then Some snap1 else GetSnapshot j (ae_store e))" for j
    using view by (simp add: registry_view_def GetSnapshot_def SetSnapshot_def vps1 id snaps)
  have "vps_LastSeen (en_VPS en') = now \<and> en_Restart en' = en_Restart en \<and>
     vps_Status (en_VPS en') =
       (if vps_Status (en_VPS en) = VPSPending then VPSPending
        else if Fresh now (en_Restart en) then MarkerStatus (en_Restart en)
        else frame_status (sn_Metrics snap))"
    by (simp add: en'_def merge_entry_def Let_def Fresh_def split: option.splits)
  then show ?thesis using get sn vps1 by (intro exI [of _ en'] exI [of _ snap1]) (simp add: snap_def)
qed

lemma mergeSnapshot_total:
  assumes "GetVPS i (ae_store e) = Some en" and "vps_ID (en_VPS en) = i" and "no_bar i" and "plugin_keys_ok e"
  shows "\<exists>e' hist'. mergeSnapshot now i ver merge (e, hist) = Some (e', hist')"
proof -
  have ok: "plugin_keys_ok (e\<lparr>ae_store := s\<rparr>)" for s
    using assms(4) by (simp add: plugin_keys_ok_def)
  have ne: "EvaluateSnapshot now (en_VPS (merge_entry now ver st en)) snap (e\<lparr>ae_store := s\<rparr>) \<noteq> None" for st snap s
    using EvaluateSnapshot_total [OF _ ok] assms(2,3) by (force simp: merge_entry_def Let_def)
  have "mergeSnapshot now i ver merge (e, hist) \<noteq> None"
    using assms(1) ne by (simp add: mergeSnapshot_def Let_def split_def UpdateVPS_def GetVPS_def split: option.splits)
  then show ?thesis by auto
qed

end
