(* ===== verification/Uptime.thy ===== *)
theory Uptime
  imports Go_Prelude
begin

text \<open>
  The record of when the panel itself ran (\<^verbatim>\<open>src/backend/uptime_log.go\<close>) and the question the
  chart asks of it: which gaps are the panel's own. The file is the list of its decoded lines.
\<close>

section \<open>State and operations\<close>

record uptime_run =
  ur_From :: time
  ur_To :: time

record uptime_log =
  ul_current :: uptime_run
  ul_runs :: "uptime_run list"
  ul_file :: "uptime_run option list"
  ul_disk_ok :: bool

abbreviation uptimeGapAfter :: duration where "uptimeGapAfter \<equiv> 3 * minute"
abbreviation uptimeRetain :: duration where "uptimeRetain \<equiv> 14 * 24 * hour"

definition uptime_load :: "time \<Rightarrow> uptime_run option list \<Rightarrow> uptime_run list" where
  "uptime_load now ls = sort_key ur_From
     (filter (\<lambda>r. \<not> (ur_To r < now - uptimeRetain \<or> ur_To r < ur_From r))
       (map the (filter (\<lambda>l. l \<noteq> None) ls)))"

definition NewUptimeLog :: "time \<Rightarrow> uptime_run option list \<Rightarrow> bool \<Rightarrow> uptime_log" where
  "NewUptimeLog now ls ok =
     \<lparr> ul_current = \<lparr> ur_From = now, ur_To = now \<rparr>, ul_runs = uptime_load now ls, ul_file = ls,
       ul_disk_ok = ok \<rparr>"

definition uptime_persist :: "uptime_log \<Rightarrow> uptime_log" where
  "uptime_persist u =
     (if ul_disk_ok u then u\<lparr>ul_file := map Some (ul_runs u @ [ul_current u])\<rparr> else u)"

text \<open>One tick of \<open>Run\<close>.\<close>

definition uptime_heartbeat :: "time \<Rightarrow> uptime_log \<Rightarrow> uptime_log" where
  "uptime_heartbeat now u = uptime_persist (u\<lparr>ul_current := (ul_current u)\<lparr>ur_To := now\<rparr>\<rparr>)"

fun merge_from :: "uptime_run \<Rightarrow> uptime_run list \<Rightarrow> uptime_run list" where
  "merge_from cur [] = [cur]"
| "merge_from cur (r # rs) =
     (if time_Sub (ur_From r) (ur_To cur) \<le> uptimeGapAfter
      then merge_from (if ur_To r > ur_To cur then cur\<lparr>ur_To := ur_To r\<rparr> else cur) rs
      else cur # merge_from r rs)"

fun merge_runs :: "uptime_run list \<Rightarrow> uptime_run list" where
  "merge_runs [] = []"
| "merge_runs (r # rs) = merge_from r rs"

fun down_loop ::
  "time \<Rightarrow> time \<Rightarrow> time \<Rightarrow> uptime_run list \<Rightarrow> time \<times> uptime_run list" where
  "down_loop start till cursor [] = (cursor, [])"
| "down_loop start till cursor (r # rs) =
     (if ur_To r < start then down_loop start till cursor rs
      else if ur_From r > till then (cursor, [])
      else
        let gap = (if ur_From r > cursor \<and> time_Sub (ur_From r) cursor > uptimeGapAfter
                   then [\<lparr> ur_From = cursor, ur_To = ur_From r \<rparr>] else []);
            (c, d) = down_loop start till (if ur_To r > cursor then ur_To r else cursor) rs
        in (c, gap @ d))"

definition all_runs :: "uptime_log \<Rightarrow> uptime_run list" where
  "all_runs u = ul_runs u @ [ul_current u]"

definition DownFrom :: "time \<Rightarrow> time \<Rightarrow> uptime_log \<Rightarrow> uptime_run list" where
  "DownFrom start till u =
     (let (cursor, down) = down_loop start till start (merge_runs (sort_key ur_From (all_runs u)))
      in if time_Sub till cursor > uptimeGapAfter then down @ [\<lparr> ur_From = cursor, ur_To = till \<rparr>] else down)"

section \<open>Merging\<close>

lemma merge_from_first:
  "sorted (map ur_From (cur # rs)) \<Longrightarrow> m \<in> set (merge_from cur rs) \<Longrightarrow> ur_From cur \<le> ur_From m"
proof (induction cur rs rule: merge_from.induct)
  case (2 cur r rs)
  show ?case
  proof (cases "time_Sub (ur_From r) (ur_To cur) \<le> uptimeGapAfter")
    case True
    from "2.IH"(1) [OF True] "2.prems" True show ?thesis by (cases "ur_To r > ur_To cur") auto
  next
    case False
    from "2.IH"(2) [OF False] "2.prems" False show ?thesis by auto
  qed
qed simp

lemma merge_from_sorted: "sorted (map ur_From (cur # rs)) \<Longrightarrow> sorted (map ur_From (merge_from cur rs))"
proof (induction cur rs rule: merge_from.induct)
  case (2 cur r rs)
  show ?case
  proof (cases "time_Sub (ur_From r) (ur_To cur) \<le> uptimeGapAfter")
    case True
    from "2.IH"(1) [OF True] "2.prems" True show ?thesis by (cases "ur_To r > ur_To cur") auto
  next
    case False
    have "sorted (map ur_From (r # rs))" using "2.prems" by simp
    from "2.IH"(2) [OF False this] merge_from_first [OF this] "2.prems" False show ?thesis by fastforce
  qed
qed simp

lemma merge_from_contains:
  "r \<in> set (cur # rs) \<Longrightarrow> sorted (map ur_From (cur # rs)) \<Longrightarrow>
   \<exists>m \<in> set (merge_from cur rs). ur_From m \<le> ur_From r \<and> ur_To r \<le> ur_To m"
proof (induction cur rs arbitrary: r rule: merge_from.induct)
  case (2 cur q rs)
  show ?case
  proof (cases "time_Sub (ur_From q) (ur_To cur) \<le> uptimeGapAfter")
    case True
    let ?c = "if ur_To q > ur_To cur then cur\<lparr>ur_To := ur_To q\<rparr> else cur"
    have sorted: "sorted (map ur_From (?c # rs))" using "2.prems"(2) by auto
    have grown: "ur_From ?c = ur_From cur" "ur_To cur \<le> ur_To ?c" "ur_To q \<le> ur_To ?c" by auto
    show ?thesis
    proof (cases "r = cur \<or> r = q")
      case rq: True
      from "2.IH"(1) [OF True _ sorted, of ?c] obtain m where
        "m \<in> set (merge_from ?c rs)" "ur_From m \<le> ur_From ?c" "ur_To ?c \<le> ur_To m" by auto
      with rq grown True "2.prems"(2) show ?thesis by (intro bexI [of _ m]) auto
    next
      case False
      with "2.IH"(1) [OF True _ sorted, of r] "2.prems"(1) True show ?thesis by auto
    qed
  next
    case False
    with 2 show ?thesis by auto
  qed
qed simp

section \<open>What is reported\<close>

lemma down_loop_sound:
  assumes "sorted (map ur_From ms)" and "start \<le> cursor"
  shows "cursor \<le> fst (down_loop start till cursor ms) \<and>
    (\<forall>g \<in> set (snd (down_loop start till cursor ms)).
       cursor \<le> ur_From g \<and> ur_To g \<le> till \<and> ur_To g - ur_From g > uptimeGapAfter \<and>
       (\<forall>m \<in> set ms. ur_To m \<le> ur_From g \<or> ur_To g \<le> ur_From m)) \<and>
    (\<forall>m \<in> set ms. ur_To m \<le> fst (down_loop start till cursor ms) \<or> till \<le> ur_From m)"
  using assms
proof (induction start till cursor ms rule: down_loop.induct)
  case (2 start till cursor r rs)
  let ?c = "if ur_To r > cursor then ur_To r else cursor"
  consider "ur_To r < start" | "ur_From r > till" "\<not> ur_To r < start" | "\<not> ur_To r < start" "\<not> ur_From r > till"
    by linarith
  then show ?case
  proof cases
    case 1
    with 2 show ?thesis by fastforce
  next
    case c: 2
    with "2.prems" show ?thesis by fastforce
  next
    case 3
    with "2.IH"(2) [OF 3] "2.prems" show ?thesis
      by (fastforce simp: Let_def split_def split: if_splits)
  qed
qed simp

section \<open>What is left out\<close>

definition running_at :: "uptime_run list \<Rightarrow> time \<Rightarrow> bool" where
  "running_at rs x \<longleftrightarrow> (\<exists>r \<in> set rs. ur_From r \<le> x \<and> x \<le> ur_To r)"

text \<open>
  A moment inside a pause that is too short to be called down: between the end of a run (or the
  start of the window) and the start of a run (or the end of the window), at most three minutes apart.
\<close>

definition short_pause :: "time set \<Rightarrow> time set \<Rightarrow> time \<Rightarrow> bool" where
  "short_pause ends starts x \<longleftrightarrow>
     (\<exists>a \<in> ends. \<exists>b \<in> starts. a \<le> x \<and> x \<le> b \<and> b - a \<le> uptimeGapAfter)"

lemma short_pause_mono: "short_pause A B x \<Longrightarrow> A \<subseteq> A' \<Longrightarrow> B \<subseteq> B' \<Longrightarrow> short_pause A' B' x"
  unfolding short_pause_def by blast

definition explained :: "uptime_run list \<Rightarrow> time \<Rightarrow> bool" where
  "explained rs x \<longleftrightarrow> running_at rs x \<or> short_pause (ur_To ` set rs) (ur_From ` set rs) x"

lemma merge_from_explained:
  assumes "set rs \<subseteq> set all" and "ur_To cur \<in> ur_To ` set all" and "ur_From cur \<in> ur_From ` set all"
    and "\<And>x. ur_From cur \<le> x \<Longrightarrow> x \<le> ur_To cur \<Longrightarrow> explained all x"
    and "m \<in> set (merge_from cur rs)"
  shows "ur_To m \<in> ur_To ` set all \<and> ur_From m \<in> ur_From ` set all \<and>
         (\<forall>x. ur_From m \<le> x \<and> x \<le> ur_To m \<longrightarrow> explained all x)"
  using assms
proof (induction cur rs rule: merge_from.induct)
  case (2 cur r rs)
  have r: "r \<in> set all" using "2.prems"(1) by simp
  have inside: "explained all x" if "ur_From r \<le> x" "x \<le> ur_To r" for x
    using r that by (auto simp: explained_def running_at_def)
  show ?case
  proof (cases "time_Sub (ur_From r) (ur_To cur) \<le> uptimeGapAfter")
    case True
    let ?c = "if ur_To r > ur_To cur then cur\<lparr>ur_To := ur_To r\<rparr> else cur"
    have pause: "explained all x" if "ur_To cur \<le> x" "x \<le> ur_From r" for x
      using r that True "2.prems"(2) by (auto simp: explained_def short_pause_def)
    have "explained all x" if "ur_From ?c \<le> x" "x \<le> ur_To ?c" for x
      using that "2.prems"(4) [of x] pause [of x] inside [of x] by (cases "ur_To r > ur_To cur") force+
    moreover have "ur_To ?c \<in> ur_To ` set all" "ur_From ?c \<in> ur_From ` set all"
      using r "2.prems"(2,3) by auto
    ultimately show ?thesis
      using "2.IH"(1) [OF True] "2.prems"(1,5) True by simp
  next
    case False
    then consider "m = cur" | "m \<in> set (merge_from r rs)" using "2.prems"(5) by auto
    then show ?thesis
    proof cases
      case 1
      with "2.prems" show ?thesis by auto
    next
      case 2
      show ?thesis
        by (rule "2.IH"(2) [OF False]) (use "2.prems"(1) r inside 2 in auto)
    qed
  qed
qed auto

lemma merge_runs_explained:
  "m \<in> set (merge_runs rs) \<Longrightarrow>
   ur_To m \<in> ur_To ` set rs \<and> ur_From m \<in> ur_From ` set rs \<and>
   (\<forall>x. ur_From m \<le> x \<and> x \<le> ur_To m \<longrightarrow> explained rs x)"
proof (cases rs)
  case (Cons a list)
  assume "m \<in> set (merge_runs rs)"
  then show ?thesis unfolding Cons
    by (intro merge_from_explained [of list "a # list" a]) (auto simp: explained_def running_at_def)
qed simp

lemma down_loop_complete:
  assumes "start \<le> cursor" and "cursor \<le> x" and "x \<le> till"
    and "\<not> (\<exists>g \<in> set (snd (down_loop start till cursor ms)). ur_From g \<le> x \<and> x \<le> ur_To g)"
    and "\<not> (fst (down_loop start till cursor ms) \<le> x \<and> till - fst (down_loop start till cursor ms) > uptimeGapAfter)"
  shows "(\<exists>m \<in> set ms. ur_From m \<le> x \<and> x \<le> ur_To m) \<or>
         short_pause (insert cursor (ur_To ` set ms)) (insert till (ur_From ` set ms)) x"
  using assms
proof (induction start till cursor ms rule: down_loop.induct)
  case (1 start till cursor)
  then show ?case by (auto simp: short_pause_def)
next
  case (2 start till cursor r rs)
  let ?c = "if ur_To r > cursor then ur_To r else cursor"
  consider (skip) "ur_To r < start" | (stop) "ur_From r > till" "\<not> ur_To r < start"
    | (go) "\<not> ur_To r < start" "\<not> ur_From r > till"
    by linarith
  then show ?case
  proof cases
    case skip
    with "2.IH"(1) [OF skip] "2.prems" show ?thesis
      using short_pause_mono [of "insert cursor (ur_To ` set rs)" "insert till (ur_From ` set rs)" x
          "insert cursor (ur_To ` set (r # rs))" "insert till (ur_From ` set (r # rs))"] by auto
  next
    case stop
    with "2.prems" show ?thesis by (auto simp: short_pause_def)
  next
    case go
    let ?d = "down_loop start till ?c rs"
    have d: "fst (down_loop start till cursor (r # rs)) = fst ?d"
      "set (snd ?d) \<subseteq> set (snd (down_loop start till cursor (r # rs)))"
      using go by (auto simp: Let_def split_def)
    have gap: "\<not> (cursor < ur_From r \<and> ur_From r - cursor > uptimeGapAfter \<and> x \<le> ur_From r)"
      using "2.prems"(2,4) go by (auto simp: Let_def split_def)
    consider "x < ur_From r" | "ur_From r \<le> x" "x \<le> ur_To r" | "ur_From r \<le> x" "ur_To r < x" by linarith
    then show ?thesis
    proof cases
      case 1
      with gap "2.prems"(2) have "ur_From r - cursor \<le> uptimeGapAfter" by linarith
      with 1 "2.prems"(2) show ?thesis by (auto simp: short_pause_def)
    next
      case 3
      then have "?c \<le> x" using "2.prems"(2) by auto
      have "(\<exists>m \<in> set rs. ur_From m \<le> x \<and> x \<le> ur_To m) \<or>
         short_pause (insert ?c (ur_To ` set rs)) (insert till (ur_From ` set rs)) x"
      proof (rule "2.IH"(2) [OF go refl])
        show "\<not> (\<exists>g \<in> set (snd ?d). ur_From g \<le> x \<and> x \<le> ur_To g)" using "2.prems"(4) d(2) by blast
        show "\<not> (fst ?d \<le> x \<and> till - fst ?d > uptimeGapAfter)" using "2.prems"(5) unfolding d(1) .
      qed (use \<open>?c \<le> x\<close> "2.prems"(1,3) in auto)
      moreover have "insert ?c (ur_To ` set rs) \<subseteq> insert cursor (ur_To ` set (r # rs))"
        "insert till (ur_From ` set rs) \<subseteq> insert till (ur_From ` set (r # rs))"
        by auto
      ultimately show ?thesis
        using short_pause_mono [of "insert ?c (ur_To ` set rs)" "insert till (ur_From ` set rs)" x] by (meson list.set_intros(2))
    qed auto
  qed
qed

section \<open>Properties\<close>

lemma merge_runs_sorted: "sorted (map ur_From rs) \<Longrightarrow> sorted (map ur_From (merge_runs rs))"
  by (cases rs) (simp_all add: merge_from_sorted)

lemma merge_runs_contains:
  "sorted (map ur_From rs) \<Longrightarrow> r \<in> set rs \<Longrightarrow>
   \<exists>m \<in> set (merge_runs rs). ur_From m \<le> ur_From r \<and> ur_To r \<le> ur_To m"
  by (cases rs) (simp_all add: merge_from_contains)

lemma DownFrom_set:
  "g \<in> set (DownFrom start till u) \<longleftrightarrow>
     (let p = down_loop start till start (merge_runs (sort_key ur_From (all_runs u)))
      in g \<in> set (snd p) \<or> (till - fst p > uptimeGapAfter \<and> g = \<lparr> ur_From = fst p, ur_To = till \<rparr>))"
  by (auto simp: DownFrom_def Let_def split_def)

text \<open>
  C37. A stretch reported as "the panel was not running" really is one: it lies inside the window,
  is longer than three minutes, and no recorded run (the current one included) reaches into it. So
  a gap blamed on the panel never hides time the panel was there to see the server down.
\<close>

theorem DownFrom_sound:
  assumes "g \<in> set (DownFrom start till u)"
  shows "start \<le> ur_From g \<and> ur_To g \<le> till \<and> ur_To g - ur_From g > uptimeGapAfter \<and>
         (\<forall>r \<in> set (all_runs u). ur_To r \<le> ur_From g \<or> ur_To g \<le> ur_From r)"
proof -
  let ?rs = "sort_key ur_From (all_runs u)"
  let ?ms = "merge_runs ?rs"
  have sorted: "sorted (map ur_From ?rs)" by simp
  note loop = down_loop_sound [OF merge_runs_sorted [OF sorted], of start start till]
  have g: "start \<le> ur_From g \<and> ur_To g \<le> till \<and> ur_To g - ur_From g > uptimeGapAfter \<and>
      (\<forall>m \<in> set ?ms. ur_To m \<le> ur_From g \<or> ur_To g \<le> ur_From m)"
    using assms loop by (auto simp: DownFrom_set Let_def)
  moreover have "ur_To r \<le> ur_From g \<or> ur_To g \<le> ur_From r" if "r \<in> set (all_runs u)" for r
    using merge_runs_contains [OF sorted, of r] that g by fastforce
  ultimately show ?thesis by blast
qed

definition demo_uptime :: uptime_log where
  "demo_uptime = \<lparr> ul_current = \<lparr> ur_From = 8 * hour, ur_To = 9 * hour \<rparr>,
     ul_runs = [\<lparr> ur_From = hour, ur_To = 2 * hour \<rparr>], ul_file = [], ul_disk_ok = True \<rparr>"

lemma demo_uptime_down:
  "DownFrom hour (9 * hour) demo_uptime = [\<lparr> ur_From = 2 * hour, ur_To = 8 * hour \<rparr>]"
  by (simp add: DownFrom_def demo_uptime_def all_runs_def Let_def)

theorem DownFrom_sound_witness:
  "list_all (\<lambda>r. ur_To r \<le> 2 * hour \<or> 8 * hour \<le> ur_From r) (all_runs demo_uptime)"
  unfolding list_all_iff using DownFrom_sound [of "\<lparr> ur_From = 2 * hour, ur_To = 8 * hour \<rparr>" hour "9 * hour" demo_uptime]
    demo_uptime_down by simp

text \<open>
  Nothing is missed: every moment of the window that is not inside a reported stretch is a
  moment the panel was running, or lies in a pause of at most three minutes between the end of a run
  (or the start of the window) and the start of a run (or the end of the window).
\<close>

lemma DownFrom_complete:
  assumes "start \<le> x" and "x \<le> till"
    and "\<not> (\<exists>g \<in> set (DownFrom start till u). ur_From g \<le> x \<and> x \<le> ur_To g)"
  shows "running_at (all_runs u) x \<or>
         short_pause (insert start (ur_To ` set (all_runs u))) (insert till (ur_From ` set (all_runs u))) x"
proof -
  let ?rs = "sort_key ur_From (all_runs u)"
  let ?ms = "merge_runs ?rs"
  have "(\<exists>m \<in> set ?ms. ur_From m \<le> x \<and> x \<le> ur_To m) \<or>
      short_pause (insert start (ur_To ` set ?ms)) (insert till (ur_From ` set ?ms)) x"
  proof (rule down_loop_complete [where start = start and till = till])
    let ?p = "down_loop start till start ?ms"
    have g: "\<not> (ur_From g \<le> x \<and> x \<le> ur_To g)"
      if "g \<in> set (snd ?p) \<or> (till - fst ?p > uptimeGapAfter \<and> g = \<lparr> ur_From = fst ?p, ur_To = till \<rparr>)" for g
      using assms(3) that by (auto simp: DownFrom_set Let_def)
    then show "\<not> (\<exists>g \<in> set (snd ?p). ur_From g \<le> x \<and> x \<le> ur_To g)" by blast
    show "\<not> (fst ?p \<le> x \<and> till - fst ?p > uptimeGapAfter)"
      using g [of "\<lparr> ur_From = fst ?p, ur_To = till \<rparr>"] assms(2) by auto
  qed (use assms in auto)
  moreover have "ur_To ` set ?ms \<subseteq> ur_To ` set (all_runs u)" "ur_From ` set ?ms \<subseteq> ur_From ` set (all_runs u)"
    using merge_runs_explained [of _ ?rs] by auto
  moreover have "explained (all_runs u) x" if "m \<in> set ?ms" "ur_From m \<le> x" "x \<le> ur_To m" for m
    using merge_runs_explained [OF that(1)] that(2,3) by (simp add: explained_def running_at_def)
  ultimately show ?thesis
    using short_pause_mono [of _ _ x "insert start (ur_To ` set (all_runs u))" "insert till (ur_From ` set (all_runs u))"]
    unfolding explained_def by (meson insert_mono subset_insertI)
qed

end
