(* ===== verification/Agent_Buffers.thy ===== *)
theory Agent_Buffers
  imports Time_Series_Laws
begin

text \<open>
  What an agent keeps on its own disk while the panel is away: the sample buffer
  (\<^verbatim>\<open>src/agent/offline_buffer.go\<close>), the spike buffer (\<^verbatim>\<open>src/agent/spike_buffer.go\<close>, the same code
  over another record type) and the handover on reconnect (\<open>flushOffline\<close>, \<open>flushSpikes\<close> of
  \<^verbatim>\<open>src/agent/ws_client.go\<close>).

  A buffer file is its terminated lines and, after a write that was cut short, an unterminated
  tail; each is what \<open>json.Unmarshal\<close> makes of it, \<open>None\<close> when it does not decode. A later append
  continues the unterminated line, which then no longer decodes. What the operating system does
  during one call is the record \<open>disk_io\<close>. Lines fit the scanner's buffer.
\<close>

section \<open>Files\<close>

record 'a buf_file =
  bf_lines :: "'a option list"
  bf_tail :: "'a option option"

record 'a agent_buffer =
  ab_file :: "'a buf_file option"
  ab_max :: nat

datatype cut = NothingWritten | PartWritten | NewlineMissing

datatype append_io = AppendDone | OpenFailed | WriteCut cut | CloseFailed

record disk_io =
  io_now :: time
  io_append :: append_io
  io_read :: bool
  io_replace :: bool
  io_remove :: bool

datatype io_error = CannotAppend | CannotRead | CannotReplace | CannotRemove

definition scan_lines :: "'a buf_file \<Rightarrow> 'a option list" where
  "scan_lines f = bf_lines f @ (case bf_tail f of None \<Rightarrow> [] | Some l \<Rightarrow> [l])"

definition write_line :: "'a \<Rightarrow> 'a buf_file \<Rightarrow> 'a buf_file" where
  "write_line s f = f\<lparr>bf_lines := bf_lines f @ [if bf_tail f = None then Some s else None], bf_tail := None\<rparr>"

definition write_cut :: "cut \<Rightarrow> 'a \<Rightarrow> 'a buf_file \<Rightarrow> 'a buf_file" where
  "write_cut c s f =
     (case c of
        NothingWritten \<Rightarrow> f
      | PartWritten \<Rightarrow> f\<lparr>bf_tail := Some None\<rparr>
      | NewlineMissing \<Rightarrow> f\<lparr>bf_tail := Some (if bf_tail f = None then Some s else None)\<rparr>)"

section \<open>The operations both buffers share\<close>

definition opened :: "'a agent_buffer \<Rightarrow> 'a buf_file" where
  "opened b = (case ab_file b of None \<Rightarrow> \<lparr> bf_lines = [], bf_tail = None \<rparr> | Some f \<Rightarrow> f)"

definition buf_load ::
  "(time \<Rightarrow> 'a \<Rightarrow> bool) \<Rightarrow> ('a \<Rightarrow> time) \<Rightarrow> disk_io \<Rightarrow> 'a agent_buffer \<Rightarrow> io_error + 'a list" where
  "buf_load keep stamp io b =
     (case ab_file b of
        None \<Rightarrow> Inr []
      | Some f \<Rightarrow>
          if \<not> io_read io then Inl CannotRead
          else Inr (sort_key stamp (filter (keep (io_now io)) (decoded (scan_lines f)))))"

definition buf_rewrite :: "disk_io \<Rightarrow> 'a list \<Rightarrow> 'a agent_buffer \<Rightarrow> io_error option \<times> 'a agent_buffer" where
  "buf_rewrite io xs b =
     (if io_replace io then (None, b\<lparr>ab_file := Some \<lparr> bf_lines = map Some xs, bf_tail = None \<rparr>\<rparr>)
      else (Some CannotReplace, b))"

definition buf_remove :: "disk_io \<Rightarrow> 'a agent_buffer \<Rightarrow> io_error option \<times> 'a agent_buffer" where
  "buf_remove io b =
     (if ab_file b = None then (None, b)
      else if io_remove io then (None, b\<lparr>ab_file := None\<rparr>)
      else (Some CannotRemove, b))"

definition buf_trim ::
  "(time \<Rightarrow> 'a \<Rightarrow> bool) \<Rightarrow> ('a \<Rightarrow> time) \<Rightarrow> disk_io \<Rightarrow> 'a agent_buffer \<Rightarrow> io_error option \<times> 'a agent_buffer" where
  "buf_trim keep stamp io b =
     (case buf_load keep stamp io b of
        Inl e \<Rightarrow> (Some e, b)
      | Inr xs \<Rightarrow> if length xs \<le> ab_max b then (None, b)
                  else buf_rewrite io (drop (length xs - ab_max b) xs) b)"

definition buf_append ::
  "(time \<Rightarrow> 'a \<Rightarrow> bool) \<Rightarrow> ('a \<Rightarrow> time) \<Rightarrow> disk_io \<Rightarrow> 'a \<Rightarrow> 'a agent_buffer \<Rightarrow> io_error option \<times> 'a agent_buffer" where
  "buf_append keep stamp io s b =
     (case io_append io of
        OpenFailed \<Rightarrow> (Some CannotAppend, b)
      | WriteCut c \<Rightarrow> (Some CannotAppend, b\<lparr>ab_file := Some (write_cut c s (opened b))\<rparr>)
      | CloseFailed \<Rightarrow> (Some CannotAppend, b\<lparr>ab_file := Some (write_line s (opened b))\<rparr>)
      | AppendDone \<Rightarrow> buf_trim keep stamp io (b\<lparr>ab_file := Some (write_line s (opened b))\<rparr>))"

definition buf_drop ::
  "(time \<Rightarrow> 'a \<Rightarrow> bool) \<Rightarrow> ('a \<Rightarrow> time) \<Rightarrow> disk_io \<Rightarrow> time \<Rightarrow> 'a agent_buffer \<Rightarrow> io_error option \<times> 'a agent_buffer" where
  "buf_drop keep stamp io cutoff b =
     (case buf_load keep stamp io b of
        Inl e \<Rightarrow> (Some e, b)
      | Inr xs \<Rightarrow>
          let kept = filter (\<lambda>s. stamp s > cutoff) xs
          in if kept = [] then buf_remove io b else buf_rewrite io kept b)"

text \<open>\<open>for i := 0; i < len(all); i += size\<close>\<close>

function chunk_from :: "'a list \<Rightarrow> nat \<Rightarrow> nat \<Rightarrow> 'a list list" where
  "chunk_from xs sz i =
     (if i < length xs \<and> 0 < sz
      then let till = (if i + sz > length xs then length xs else i + sz)
           in take (till - i) (drop i xs) # chunk_from xs sz (i + sz)
      else [])"
  by pat_completeness auto
termination
  by (relation "measure (\<lambda>(xs, sz, i). length xs - i)") auto

declare chunk_from.simps [simp del]

definition chunks :: "int \<Rightarrow> 'a list \<Rightarrow> int \<Rightarrow> 'a list list" where
  "chunks dflt xs sz =
     (if xs = [] then [] else chunk_from xs (nat (if sz \<le> 0 then dflt else sz)) 0)"

section \<open>The two buffers\<close>

abbreviation offlineMaxSamples :: nat where "offlineMaxSamples \<equiv> 14 * 24 * 60"
abbreviation offlineChunkSize :: int where "offlineChunkSize \<equiv> 500"
abbreviation spikeMaxRecords :: nat where "spikeMaxRecords \<equiv> 2000"
abbreviation spikeChunkSize :: int where "spikeChunkSize \<equiv> 50"

definition NewOfflineBuffer :: "metric_sample buf_file option \<Rightarrow> metric_sample agent_buffer" where
  "NewOfflineBuffer f = \<lparr> ab_file = f, ab_max = offlineMaxSamples \<rparr>"

definition sample_kept :: "time \<Rightarrow> metric_sample \<Rightarrow> bool" where
  "sample_kept now s \<longleftrightarrow> \<not> time_IsZero (ms_At s)"

definition offline_Load where "offline_Load = buf_load sample_kept ms_At"
definition offline_Append where "offline_Append = buf_append sample_kept ms_At"
definition offline_DropUpTo where "offline_DropUpTo = buf_drop sample_kept ms_At"
definition offline_Clear :: "disk_io \<Rightarrow> metric_sample agent_buffer \<Rightarrow> io_error option \<times> metric_sample agent_buffer" where
  "offline_Clear = buf_remove"
definition chunkSamples :: "metric_sample list \<Rightarrow> int \<Rightarrow> metric_sample list list" where
  "chunkSamples = chunks offlineChunkSize"

definition NewSpikeBuffer :: "spike_record buf_file option \<Rightarrow> spike_record agent_buffer" where
  "NewSpikeBuffer f = \<lparr> ab_file = f, ab_max = spikeMaxRecords \<rparr>"

definition spike_kept :: "time \<Rightarrow> spike_record \<Rightarrow> bool" where
  "spike_kept now r \<longleftrightarrow> \<not> (time_IsZero (sr_At r) \<or> sr_At r < now - spikeRetain)"

definition spike_Load where "spike_Load = buf_load spike_kept sr_At"
definition spike_Append where "spike_Append = buf_append spike_kept sr_At"
definition spike_DropUpTo where "spike_DropUpTo = buf_drop spike_kept sr_At"
definition chunkSpikes :: "spike_record list \<Rightarrow> int \<Rightarrow> spike_record list list" where
  "chunkSpikes = chunks spikeChunkSize"

section \<open>Handover\<close>

text \<open>
  One round of a flush: the chunk is queued on the session (or refused: session over, write buffer
  full), and only then dropped from the file. The log is the frames that were queued.
\<close>

fun flush_chunks ::
  "('a \<Rightarrow> time) \<Rightarrow> (disk_io \<Rightarrow> time \<Rightarrow> 'b \<Rightarrow> io_error option \<times> 'b) \<Rightarrow>
   (nat \<Rightarrow> bool) \<Rightarrow> (nat \<Rightarrow> disk_io) \<Rightarrow> 'a list list \<Rightarrow> nat \<Rightarrow> 'b \<Rightarrow> 'a list list \<times> 'b" where
  "flush_chunks stamp dropUpTo queued io [] k b = ([], b)"
| "flush_chunks stamp dropUpTo queued io (c # cs) k b =
     (if \<not> queued k then ([], b)
      else case dropUpTo (io k) (stamp (last c)) b of
             (Some _, b1) \<Rightarrow> ([c], b1)
           | (None, b1) \<Rightarrow>
               (let (sent, b2) = flush_chunks stamp dropUpTo queued io cs (Suc k) b1 in (c # sent, b2)))"

definition flushOffline ::
  "(nat \<Rightarrow> bool) \<Rightarrow> disk_io \<Rightarrow> (nat \<Rightarrow> disk_io) \<Rightarrow> metric_sample agent_buffer \<Rightarrow>
     metric_sample list list \<times> metric_sample agent_buffer" where
  "flushOffline queued io0 io b =
     (case offline_Load io0 b of
        Inl _ \<Rightarrow> ([], b)
      | Inr xs \<Rightarrow> if xs = [] then ([], b)
                  else flush_chunks ms_At offline_DropUpTo queued io (chunkSamples xs offlineChunkSize) 0 b)"

definition flushSpikes ::
  "(nat \<Rightarrow> bool) \<Rightarrow> disk_io \<Rightarrow> (nat \<Rightarrow> disk_io) \<Rightarrow> spike_record agent_buffer \<Rightarrow>
     spike_record list list \<times> spike_record agent_buffer" where
  "flushSpikes queued io0 io b =
     (case spike_Load io0 b of
        Inl _ \<Rightarrow> ([], b)
      | Inr xs \<Rightarrow> if xs = [] then ([], b)
                  else flush_chunks sr_At spike_DropUpTo queued io (chunkSpikes xs spikeChunkSize) 0 b)"

end
