(* ===== verification/Agent_Buffers_Laws.thy ===== *)
theory Agent_Buffers_Laws
  imports Agent_Buffers
begin

text \<open>
  Laws of the agent's buffers. The locale \<open>disk_queue\<close> is what a handover needs of a buffer:
  what dropping does to its contents, whether or not the disk obeys. It is interpreted on both
  buffers; the lemmas on a flush are proved once inside it.
\<close>

section \<open>Contents\<close>

definition contents :: "(time \<Rightarrow> 'a \<Rightarrow> bool) \<Rightarrow> ('a \<Rightarrow> time) \<Rightarrow> time \<Rightarrow> 'a agent_buffer \<Rightarrow> 'a list" where
  "contents keep stamp now b = sort_key stamp (filter (keep now) (decoded (scan_lines (opened b))))"

lemma decoded_line_simps [simp]:
  "decoded [] = []"
  "decoded (None # ls) = decoded ls"
  "decoded (Some x # ls) = x # decoded ls"
  "decoded (ls @ ms) = decoded ls @ decoded ms"
  "decoded (map Some xs) = xs"
  by (simp_all add: decoded_def filter_map o_def)

lemma contents_sorted: "sorted (map stamp (contents keep stamp now b))"
  by (simp add: contents_def)

lemma buf_load_contents:
  "buf_load keep stamp io b = Inr xs \<Longrightarrow> xs = contents keep stamp (io_now io) b"
  by (auto simp: buf_load_def contents_def opened_def scan_lines_def split: option.splits if_splits)

lemma contents_rewrite:
  assumes "sorted (map stamp xs)" and "\<forall>x \<in> set xs. keep now x"
  shows "contents keep stamp now (b\<lparr>ab_file := Some \<lparr> bf_lines = map Some xs, bf_tail = None \<rparr>\<rparr>) = xs"
  using assms by (simp add: contents_def opened_def scan_lines_def sort_key_id_if_sorted filter_id_conv)

lemma contents_kept: "x \<in> set (contents keep stamp now b) \<Longrightarrow> keep now x"
  by (simp add: contents_def)

lemma contents_removed: "contents keep stamp now (b\<lparr>ab_file := None\<rparr>) = []"
  by (simp add: contents_def opened_def scan_lines_def)

lemma contents_no_file: "ab_file b = None \<Longrightarrow> contents keep stamp now b = []"
  by (simp add: contents_def opened_def scan_lines_def)

lemma sort_key_of_sorted_append: "sort_key f (sort_key f xs @ ys) = sort_key f (xs @ ys)"
proof (rule properties_for_sort_key)
  show "filter (\<lambda>x. f k = f x) (sort_key f (xs @ ys)) = filter (\<lambda>x. f k = f x) (sort_key f xs @ ys)" for k
    using sort_key_stable [of f "f k"] by (simp add: eq_commute)
qed simp_all

lemma filter_sort_key_append:
  "sort_key f (filter P xs @ ys) = sort_key f (sort_key f (filter P xs) @ ys)"
  by (simp add: sort_key_of_sorted_append)

section \<open>Dropping\<close>

lemma buf_drop_ok:
  assumes "fst (buf_drop keep stamp io c b) = None"
  shows "contents keep stamp (io_now io) (snd (buf_drop keep stamp io c b)) =
         filter (\<lambda>s. stamp s > c) (contents keep stamp (io_now io) b)"
proof -
  obtain xs where xs: "buf_load keep stamp io b = Inr xs"
    using assms by (cases "buf_load keep stamp io b") (auto simp: buf_drop_def)
  note load = buf_load_contents [OF xs]
  let ?kept = "filter (\<lambda>s. stamp s > c) xs"
  show ?thesis
  proof (cases "?kept = []")
    case True
    then show ?thesis
      using assms xs load [symmetric]
      by (auto simp: buf_drop_def buf_remove_def contents_removed contents_no_file split: if_splits)
  next
    case False
    have "sorted (map stamp ?kept)" "\<forall>x \<in> set ?kept. keep (io_now io) x"
      using contents_sorted [of stamp keep "io_now io" b] contents_kept [of _ keep stamp "io_now io" b]
      by (auto simp: load sorted_filter)
    with False show ?thesis
      using assms xs load [symmetric]
      by (auto simp: buf_drop_def buf_rewrite_def contents_rewrite split: if_splits)
  qed
qed

lemma buf_drop_failed:
  "fst (buf_drop keep stamp io c b) \<noteq> None \<Longrightarrow> snd (buf_drop keep stamp io c b) = b"
  by (auto simp: buf_drop_def buf_remove_def buf_rewrite_def Let_def split: sum.splits if_splits)

section \<open>Chunks\<close>

lemma concat_chunk_from: "0 < sz \<Longrightarrow> concat (chunk_from xs sz i) = drop i xs"
proof (induction xs sz i rule: chunk_from.induct)
  case (1 xs sz i)
  show ?case
  proof (cases "i < length xs")
    case True
    have "concat (chunk_from xs sz (i + sz)) = drop (i + sz) xs" using 1 True by simp
    moreover have "take sz (drop i xs) @ drop (i + sz) xs = drop i xs"
      by (metis append_take_drop_id drop_drop add.commute)
    moreover have "i + sz > length xs \<Longrightarrow> take (length xs - i) (drop i xs) = drop i xs" by simp
    ultimately show ?thesis
      using True \<open>0 < sz\<close> by (subst chunk_from.simps) (auto simp: Let_def)
  qed (simp add: chunk_from.simps)
qed

lemma chunk_from_sizes: "c \<in> set (chunk_from xs sz i) \<Longrightarrow> c \<noteq> [] \<and> length c \<le> sz"
proof (induction xs sz i rule: chunk_from.induct)
  case (1 xs sz i)
  have i: "i < length xs \<and> 0 < sz"
    using "1.prems" by (rule contrapos_pp) (subst chunk_from.simps, simp)
  define n where "n = (if i + sz > length xs then length xs else i + sz) - i"
  have n: "0 < n" "n \<le> sz" using i by (auto simp: n_def)
  have "chunk_from xs sz i = take n (drop i xs) # chunk_from xs sz (i + sz)"
    using i by (subst chunk_from.simps) (simp add: Let_def n_def)
  with "1.prems" consider "c = take n (drop i xs)" | "c \<in> set (chunk_from xs sz (i + sz))" by auto
  then show ?case
    using i n "1.IH" by cases auto
qed

lemma concat_chunks: "0 < d \<Longrightarrow> concat (chunks d xs sz) = xs"
  by (simp add: chunks_def concat_chunk_from)

lemma chunks_sizes:
  "0 < d \<Longrightarrow> c \<in> set (chunks d xs sz) \<Longrightarrow> c \<noteq> [] \<and> int (length c) \<le> (if sz \<le> 0 then d else sz)"
  using chunk_from_sizes [of c xs "nat (if sz \<le> 0 then d else sz)" 0]
  by (auto simp: chunks_def split: if_splits)

section \<open>The interface of a handover\<close>

locale disk_queue =
  fixes stamp :: "'a \<Rightarrow> time"
    and held :: "'b \<Rightarrow> 'a list"
    and dropUpTo :: "disk_io \<Rightarrow> time \<Rightarrow> 'b \<Rightarrow> io_error option \<times> 'b"
    and usable :: "disk_io \<Rightarrow> bool"
  assumes held_sorted: "sorted (map stamp (held b))"
    and drop_ok: "usable io \<Longrightarrow> fst (dropUpTo io c b) = None \<Longrightarrow>
      held (snd (dropUpTo io c b)) = filter (\<lambda>s. stamp s > c) (held b)"
    and drop_failed: "fst (dropUpTo io c b) \<noteq> None \<Longrightarrow> snd (dropUpTo io c b) = b"
begin

lemma drop_prefix:
  assumes "usable io" and "fst (dropUpTo io (stamp (last c)) b) = None"
    and "held b = c @ rest" and "c \<noteq> []" and "distinct (map stamp (held b))"
  shows "held (snd (dropUpTo io (stamp (last c)) b)) = rest"
proof -
  have low: "stamp s \<le> stamp (last c)" if "s \<in> set c" for s
    using held_sorted [of b] assms(3) that by (intro sorted_map_last) (simp_all add: sorted_append)
  have "stamp s > stamp (last c)" if "s \<in> set rest" for s
  proof -
    have "stamp (last c) \<le> stamp s"
      using held_sorted [of b] assms(3,4) that by (simp add: sorted_append)
    moreover have "stamp (last c) \<in> stamp ` set c" using assms(4) by simp
    then have "stamp (last c) \<noteq> stamp s"
      using assms(3,5) that by (auto simp: disjoint_iff)
    ultimately show ?thesis by simp
  qed
  with low show ?thesis
    using drop_ok [OF assms(1,2)] assms(3) by (force simp: filter_empty_conv filter_id_conv)
qed

text \<open>
  What was queued is a prefix of what the file held; what the file still holds is a suffix; the
  two meet or overlap, so nothing falls between them.
\<close>

lemma flush_conserves:
  assumes "held b = concat cs" and "distinct (map stamp (held b))" and "\<forall>c \<in> set cs. c \<noteq> []"
    and "\<forall>k. usable (io k)"
    and "flush_chunks stamp dropUpTo queued io cs k b = (sent, b')"
  shows "\<exists>n m. n \<le> m \<and> concat sent = take m (held b) \<and> held b' = drop n (held b)"
  using assms
proof (induction cs arbitrary: k b sent)
  case Nil
  then show ?case by auto
next
  case (Cons c cs)
  let ?d = "dropUpTo (io k) (stamp (last c)) b"
  show ?case
  proof (cases "queued k")
    case False
    then show ?thesis using Cons.prems by auto
  next
    case True
    show ?thesis
    proof (cases "fst ?d")
      case (Some err)
      then have "sent = [c]" "b' = b"
        using Cons.prems(5) True drop_failed [of "io k" "stamp (last c)" b]
        by (auto simp: split_def split: prod.splits)
      then show ?thesis
        using Cons.prems(1) by (intro exI [of _ 0] exI [of _ "length c"]) simp
    next
      case None
      let ?b1 = "snd ?d"
      obtain rest where rest: "sent = c # rest" "flush_chunks stamp dropUpTo queued io cs (Suc k) ?b1 = (rest, b')"
        using Cons.prems(5) True None
        by (cases "flush_chunks stamp dropUpTo queued io cs (Suc k) ?b1") (auto simp: split_def Let_def)
      have held: "held ?b1 = concat cs"
        using Cons.prems None by (intro drop_prefix) auto
      obtain n m where nm: "n \<le> m" "concat rest = take m (held ?b1)" "held b' = drop n (held ?b1)"
        using Cons.IH [OF held _ _ Cons.prems(4) rest(2)] Cons.prems(1-3) held by auto
      then show ?thesis
        using rest(1) held Cons.prems(1)
        by (intro exI [of _ "length c + n"] exI [of _ "length c + m"]) simp
    qed
  qed
qed

lemma flush_complete:
  assumes "held b = concat cs" and "distinct (map stamp (held b))" and "\<forall>c \<in> set cs. c \<noteq> []"
    and "\<forall>k. usable (io k)" and "\<forall>k. queued k" and "\<And>k c b. fst (dropUpTo (io k) c b) = None"
  shows "\<exists>b'. flush_chunks stamp dropUpTo queued io cs k b = (cs, b') \<and> held b' = []"
  using assms(1-3)
proof (induction cs arbitrary: k b)
  case (Cons c cs)
  let ?d = "dropUpTo (io k) (stamp (last c)) b"
  have ok: "fst ?d = None" by (rule assms(6))
  have held: "held (snd ?d) = concat cs"
    using Cons.prems assms(4) by (intro drop_prefix [OF _ ok]) auto
  obtain b' where "flush_chunks stamp dropUpTo queued io cs (Suc k) (snd ?d) = (cs, b')" "held b' = []"
    using Cons.IH [OF held, of "Suc k"] Cons.prems held by auto
  then show ?case
    using ok spec [OF assms(5), of k] by (cases ?d) (simp add: Let_def)
qed simp

end

interpretation off: disk_queue ms_At "contents sample_kept ms_At 0" offline_DropUpTo "\<lambda>_. True"
proof unfold_locales
  have now: "contents sample_kept ms_At t = contents sample_kept ms_At 0" for t
    by (rule ext) (simp add: contents_def sample_kept_def [abs_def])
  show "fst (offline_DropUpTo io c b) = None \<Longrightarrow> contents sample_kept ms_At 0 (snd (offline_DropUpTo io c b)) =
      filter (\<lambda>s. ms_At s > c) (contents sample_kept ms_At 0 b)" for io c b
    using buf_drop_ok [of sample_kept ms_At io c b] by (simp add: offline_DropUpTo_def now [of "io_now io"])
qed (simp_all add: contents_sorted offline_DropUpTo_def buf_drop_failed)

interpretation spb: disk_queue sr_At "contents spike_kept sr_At now" spike_DropUpTo "\<lambda>io. io_now io = now"
  for now
  using buf_drop_ok [of spike_kept sr_At]
  by unfold_locales (auto simp: contents_sorted spike_DropUpTo_def buf_drop_failed)

end
