(* ===== verification/Handover.thy ===== *)
theory Handover
  imports Agent_Buffers_Laws
begin

text \<open>
  Properties of the agent's buffers and of the handover: the sample buffer implements a bounded
  log, a flush loses nothing however it is interrupted, and what a complete flush sends ends up in
  the backend's history.
\<close>

abbreviation buffered :: "metric_sample agent_buffer \<Rightarrow> metric_sample list" where
  "buffered \<equiv> contents sample_kept ms_At 0"

definition healthy :: "disk_io \<Rightarrow> bool" where
  "healthy io \<longleftrightarrow> io_append io = AppendDone \<and> io_read io \<and> io_replace io \<and> io_remove io"

definition terminated :: "'a agent_buffer \<Rightarrow> bool" where
  "terminated b \<longleftrightarrow> bf_tail (opened b) = None"

lemma buffered_any: "contents sample_kept ms_At t b = buffered b"
  by (simp add: contents_def sample_kept_def [abs_def])

lemma offline_Load_healthy: "io_read io \<Longrightarrow> offline_Load io b = Inr (buffered b)"
  by (cases "ab_file b")
    (simp_all add: offline_Load_def buf_load_def contents_def sample_kept_def [abs_def] opened_def scan_lines_def)

lemma offline_Load_Inr: "offline_Load io b = Inr xs \<Longrightarrow> xs = buffered b"
  using buf_load_contents [of sample_kept ms_At io b xs] by (simp add: offline_Load_def buffered_any [of "io_now io" b])

section \<open>The buffer as a bounded log\<close>

datatype buffer_op = OpAppend metric_sample | OpDropUpTo time | OpClear

fun log_step :: "nat \<Rightarrow> buffer_op \<Rightarrow> metric_sample list \<Rightarrow> metric_sample list" where
  "log_step cap (OpAppend s) xs =
     keep_last cap (sort_key ms_At (xs @ (if time_IsZero (ms_At s) then [] else [s])))"
| "log_step cap (OpDropUpTo c) xs = filter (\<lambda>s. ms_At s > c) xs"
| "log_step cap OpClear xs = []"

fun buffer_step :: "disk_io \<Rightarrow> buffer_op \<Rightarrow> metric_sample agent_buffer \<Rightarrow> io_error option \<times> metric_sample agent_buffer" where
  "buffer_step io (OpAppend s) b = offline_Append io s b"
| "buffer_step io (OpDropUpTo c) b = offline_DropUpTo io c b"
| "buffer_step io OpClear b = offline_Clear io b"

definition run_buffer :: "(disk_io \<times> buffer_op) list \<Rightarrow> metric_sample agent_buffer \<Rightarrow> metric_sample agent_buffer" where
  "run_buffer ops b = fold (\<lambda>(io, x) b. snd (buffer_step io x b)) ops b"

lemma buffered_written:
  assumes "terminated b"
  shows "buffered (b\<lparr>ab_file := Some (write_line s (opened b))\<rparr>) =
         sort_key ms_At (buffered b @ (if time_IsZero (ms_At s) then [] else [s]))"
  using assms
  by (simp add: contents_def opened_def scan_lines_def write_line_def terminated_def sort_key_of_sorted_append
      sample_kept_def split: option.splits)

lemma offline_Append_refines:
  assumes "healthy io" and "terminated b"
  shows "fst (offline_Append io s b) = None \<and> terminated (snd (offline_Append io s b)) \<and>
         ab_max (snd (offline_Append io s b)) = ab_max b \<and>
         buffered (snd (offline_Append io s b)) = log_step (ab_max b) (OpAppend s) (buffered b)"
proof -
  let ?b1 = "b\<lparr>ab_file := Some (write_line s (opened b))\<rparr>"
  let ?xs = "buffered ?b1"
  have load: "buf_load sample_kept ms_At io ?b1 = Inr ?xs"
    using offline_Load_healthy [of io ?b1] assms(1) by (simp add: offline_Load_def healthy_def)
  have run: "offline_Append io s b =
      (if length ?xs \<le> ab_max b then (None, ?b1) else buf_rewrite io (drop (length ?xs - ab_max b) ?xs) ?b1)"
    using assms(1) load by (simp add: offline_Append_def buf_append_def buf_trim_def healthy_def)
  have "buffered (?b1\<lparr>ab_file := Some \<lparr> bf_lines = map Some (drop n ?xs), bf_tail = None \<rparr>\<rparr>) = drop n ?xs" for n
    using contents_sorted [of ms_At sample_kept 0 ?b1] contents_kept [of _ sample_kept ms_At 0 ?b1]
    by (intro contents_rewrite) (auto simp: sorted_wrt_drop drop_map [symmetric] dest: in_set_dropD)
  then show ?thesis
    using assms by (auto simp: run buf_rewrite_def healthy_def keep_last_def buffered_written [symmetric]
        terminated_def opened_def write_line_def)
qed

lemma drop_keeps_shape:
  "terminated b \<Longrightarrow> terminated (snd (offline_DropUpTo io c b)) \<and> ab_max (snd (offline_DropUpTo io c b)) = ab_max b"
  by (auto simp: offline_DropUpTo_def buf_drop_def buf_remove_def buf_rewrite_def terminated_def opened_def Let_def
      split: sum.splits)

lemma drop_healthy: "healthy io \<Longrightarrow> fst (offline_DropUpTo io c b) = None"
  by (auto simp: offline_DropUpTo_def buf_drop_def buf_load_def buf_remove_def buf_rewrite_def healthy_def Let_def
      split: option.splits)

lemma buffer_step_refines:
  assumes "healthy io" and "terminated b"
  shows "fst (buffer_step io x b) = None \<and> terminated (snd (buffer_step io x b)) \<and>
         ab_max (snd (buffer_step io x b)) = ab_max b \<and>
         buffered (snd (buffer_step io x b)) = log_step (ab_max b) x (buffered b)"
proof (cases x)
  case (OpDropUpTo c)
  then show ?thesis
    using drop_healthy [OF assms(1)] drop_keeps_shape [OF assms(2)] off.drop_ok by simp
next
  case OpClear
  then show ?thesis
    using assms by (auto simp: offline_Clear_def buf_remove_def healthy_def terminated_def opened_def
        contents_removed contents_no_file)
qed (use offline_Append_refines [OF assms] in simp)

text \<open>
  C15. On a disk that obeys, the buffer file is a bounded log: whatever sequence of appends, drops and
  clears runs on it, what \<open>Load\<close> returns is what the abstract log holds, oldest first, the newest
  \<open>max\<close> samples, dropped ones gone. Rewriting the file, trimming it and removing it are invisible.
\<close>

theorem buffer_refines_bounded_log:
  assumes "terminated b" and "\<forall>(io, x) \<in> set ops. healthy io" and "io_read io"
  shows "offline_Load io (run_buffer ops b) = Inr (fold (log_step (ab_max b)) (map snd ops) (buffered b))"
proof -
  have "terminated (run_buffer ops b) \<and> ab_max (run_buffer ops b) = ab_max b \<and>
      buffered (run_buffer ops b) = fold (log_step (ab_max b)) (map snd ops) (buffered b)"
    using assms(1,2)
  proof (induction ops arbitrary: b)
    case (Cons p ops)
    obtain io x where p: "p = (io, x)" by (cases p)
    have "healthy io" using Cons.prems p by simp
    note step = buffer_step_refines [OF this Cons.prems(1), of x]
    then show ?case
      using Cons.IH [of "snd (buffer_step io x b)"] Cons.prems(2) p by (simp add: run_buffer_def)
  qed (simp add: run_buffer_def)
  then show ?thesis by (simp add: offline_Load_healthy [OF assms(3)])
qed

definition demo_io :: disk_io where
  "demo_io = \<lparr> io_now = 0, io_append = AppendDone, io_read = True, io_replace = True, io_remove = True \<rparr>"

theorem buffer_refines_bounded_log_witness:
  "offline_Load demo_io (run_buffer [(demo_io, OpAppend (demo_sample 7)), (demo_io, OpAppend (demo_sample 5)),
     (demo_io, OpDropUpTo 6)] (NewOfflineBuffer None)) = Inr [demo_sample 7]"
proof -
  let ?ops = "[(demo_io, OpAppend (demo_sample 7)), (demo_io, OpAppend (demo_sample 5)), (demo_io, OpDropUpTo 6)]"
  have "terminated (NewOfflineBuffer None)" "\<forall>(io, x) \<in> set ?ops. healthy io" "io_read demo_io"
    by (simp_all add: terminated_def opened_def NewOfflineBuffer_def healthy_def demo_io_def)
  from buffer_refines_bounded_log [OF this] show ?thesis
    by (simp add: contents_no_file NewOfflineBuffer_def keep_last_def time_IsZero_def)
qed

section \<open>Handing over\<close>

lemma flush_chunks_prefix: "prefix (fst (flush_chunks stamp d queued io cs k b)) cs"
proof (induction stamp d queued io cs k b rule: flush_chunks.induct)
  case (2 stamp d queued io c cs k b)
  obtain r b1 where d: "d (io k) (stamp (last c)) b = (r, b1)" by (cases "d (io k) (stamp (last c)) b")
  show ?case
  proof (cases "queued k \<and> r = None")
    case True
    then show ?thesis using 2 d by (simp add: split_def Let_def)
  next
    case False
    then show ?thesis using d by (cases r) auto
  qed
qed simp

lemma flushOffline_frames:
  assumes "flushOffline queued io0 io b = (sent, b')"
  shows "b' = b \<and> sent = [] \<or>
         flush_chunks ms_At offline_DropUpTo queued io (chunkSamples (buffered b) offlineChunkSize) 0 b = (sent, b')"
  using assms by (auto simp: flushOffline_def split: sum.splits if_splits dest: offline_Load_Inr)

lemma chunkSamples_concat: "concat (chunkSamples xs n) = xs"
  by (simp add: chunkSamples_def concat_chunks)

lemma chunkSamples_nonempty: "c \<in> set (chunkSamples xs n) \<Longrightarrow> c \<noteq> []"
  using chunks_sizes [of offlineChunkSize c xs n] by (simp add: chunkSamples_def)


text \<open>The frames of one flush of two samples whose second frame would not fit.\<close>

definition demo_buffer :: "metric_sample agent_buffer" where
  "demo_buffer = \<lparr> ab_file = Some \<lparr> bf_lines = [Some (demo_sample (epoch + hour)), None,
     Some (demo_sample (epoch + 2 * hour))], bf_tail = None \<rparr>, ab_max = offlineMaxSamples \<rparr>"

lemma demo_buffer_buffered: "buffered demo_buffer = [demo_sample (epoch + hour), demo_sample (epoch + 2 * hour)]"
  by (simp add: contents_def demo_buffer_def opened_def scan_lines_def sample_kept_def time_IsZero_def)


text \<open>
  C16. A handover that nothing interrupts arrives: the file is empty afterwards, and once the backend
  has taken in the frames one by one, every buffered sample it accepts (not older than a fortnight,
  not from the future) has its minute in the server's history, and nothing the history held before
  is gone, as long as the history has room for what comes.
\<close>

theorem handover_reaches_history:
  assumes "distinct (map ms_At (buffered b))" and "io_read io0" and "\<forall>k. healthy (io k)" and "\<forall>k. queued k"
    and "length (hist_of h i) + length (buffered b) \<le> maxSamplesPerVPS"
  shows "let (sent, b') = flushOffline queued io0 io b;
             h' = fold (\<lambda>frame h. snd (Backfill now i frame h)) sent h
         in buffered b' = [] \<and> set (hist_of h i) \<subseteq> set (hist_of h' i) \<and>
            (\<forall>s \<in> set (buffered b). backfill_ok now s \<longrightarrow>
               minute_key (ms_At s) \<in> (\<lambda>s. minute_key (ms_At s)) ` set (hist_of h' i))"
proof -
  let ?cs = "chunkSamples (buffered b) offlineChunkSize"
  obtain sent b' where run: "flushOffline queued io0 io b = (sent, b')"
    by (cases "flushOffline queued io0 io b")
  have complete: "sent = ?cs \<and> buffered b' = []"
  proof (cases "buffered b = []")
    case True
    then show ?thesis
      using run by (auto simp: flushOffline_def offline_Load_healthy assms(2) chunkSamples_def chunks_def)
  next
    case False
    have "\<exists>b'. flush_chunks ms_At offline_DropUpTo queued io ?cs 0 b = (?cs, b') \<and> buffered b' = []"
      using assms(1,3,4) by (intro off.flush_complete)
        (auto simp: chunkSamples_concat drop_healthy dest: chunkSamples_nonempty)
    with run False show ?thesis by (auto simp: flushOffline_def offline_Load_healthy assms(2))
  qed
  with hist.receive_frames [of h i ?cs now] assms(5) show ?thesis
    by (simp add: run chunkSamples_concat)
qed

theorem handover_reaches_history_witness:
  "let h' = fold (\<lambda>frame h. snd (Backfill (epoch + 3 * hour) ''a'' frame h))
              (fst (flushOffline (\<lambda>_. True) demo_io (\<lambda>_. demo_io) demo_buffer)) (NewHistory 0 [] True)
   in minute_key (epoch + hour) \<in> (\<lambda>s. minute_key (ms_At s)) ` set (hist_of h' ''a'')"
proof -
  have "length (hist_of (NewHistory 0 [] True) ''a'') + length (buffered demo_buffer) \<le> maxSamplesPerVPS"
    by (simp add: NewHistory_def hist_of_def demo_buffer_buffered maxSamplesPerVPS_def)
  from handover_reaches_history [OF _ _ _ _ this, of demo_io "\<lambda>_. demo_io" "\<lambda>_. True" "epoch + 3 * hour"]
  have "\<forall>s \<in> set (buffered demo_buffer). backfill_ok (epoch + 3 * hour) s \<longrightarrow>
      minute_key (ms_At s) \<in> (\<lambda>s. minute_key (ms_At s)) `
        set (hist_of (fold (\<lambda>frame h. snd (Backfill (epoch + 3 * hour) ''a'' frame h))
          (fst (flushOffline (\<lambda>_. True) demo_io (\<lambda>_. demo_io) demo_buffer)) (NewHistory 0 [] True)) ''a'')"
    by (simp add: demo_buffer_buffered demo_io_def healthy_def split_def Let_def)
  then show ?thesis by (simp add: demo_buffer_buffered backfill_ok_def time_IsZero_def Let_def)
qed

end
