(* ===== verification/Agent_Samplers.thy ===== *)
theory Agent_Samplers
  imports Handover
begin

text \<open>
  What an agent measures between two reports: CPU usage as a rate of counters
  (\<^verbatim>\<open>src/agent/cpu_sampler.go\<close>), the moment a metric departs from its own baseline
  (\<^verbatim>\<open>src/agent/spike_detect.go\<close>), and the minute tick that feeds both buffers
  (\<open>sampleOffline\<close> and \<open>checkSpikes\<close> of \<^verbatim>\<open>src/agent/ws_client.go\<close>).
\<close>

section \<open>CPU usage\<close>

record cpu_sampler =
  cs_prevIdle :: "64 word"
  cs_prevTotal :: "64 word"
  cs_hasPrev :: bool
  cs_last :: real
  cs_lastAt :: time

definition new_sampler :: cpu_sampler where
  "new_sampler = \<lparr> cs_prevIdle = 0, cs_prevTotal = 0, cs_hasPrev = False, cs_last = 0, cs_lastAt = 0 \<rparr>"

abbreviation minCPUWindow :: duration where "minCPUWindow \<equiv> 700 * millisecond"

definition deltaPercent :: "64 word \<Rightarrow> 64 word \<Rightarrow> 64 word \<Rightarrow> 64 word \<Rightarrow> real" where
  "deltaPercent prevIdle prevTotal idle tot =
     (if tot \<le> prevTotal \<or> idle < prevIdle then 0
      else
        let dTotal = real (unat (tot - prevTotal));
            dIdle = real (unat (idle - prevIdle))
        in if dTotal \<le> 0 then 0
           else let pct = (1 - dIdle / dTotal) * 100
                in if pct < 0 then 0 else if pct > 100 then 100 else pct)"

definition cpu_sample :: "64 word \<Rightarrow> 64 word \<Rightarrow> time \<Rightarrow> cpu_sampler \<Rightarrow> real \<times> cpu_sampler" where
  "cpu_sample idle tot now s =
     (if \<not> time_IsZero (cs_lastAt s) \<and> time_Sub now (cs_lastAt s) < minCPUWindow then (cs_last s, s)
      else
        let pct = (if cs_hasPrev s then deltaPercent (cs_prevIdle s) (cs_prevTotal s) idle tot else 0)
        in (pct, s\<lparr>cs_prevIdle := idle, cs_prevTotal := tot, cs_hasPrev := True,
                   cs_last := pct, cs_lastAt := now\<rparr>))"

record multi_sampler =
  mu_cores :: "cpu_sampler list"
  mu_last :: "real list"
  mu_lastAt :: time

fun sample_cores ::
  "time \<Rightarrow> 64 word list \<Rightarrow> 64 word list \<Rightarrow> cpu_sampler list \<Rightarrow> real list \<times> cpu_sampler list" where
  "sample_cores now (i # is) (t # ts) (c # cs) =
     (let (v, c1) = cpu_sample i t now (c\<lparr>cs_lastAt := 0\<rparr>);
          (vs, cs1) = sample_cores now is ts cs
      in (v # vs, c1 # cs1))"
| "sample_cores now _ _ cs = ([], cs)"

definition multi_sample :: "64 word list \<Rightarrow> 64 word list \<Rightarrow> time \<Rightarrow> multi_sampler \<Rightarrow> real list \<times> multi_sampler" where
  "multi_sample idle tot now m =
     (if idle = [] \<or> length idle \<noteq> length tot then ([], m)
      else if \<not> time_IsZero (mu_lastAt m) \<and> time_Sub now (mu_lastAt m) < minCPUWindow \<and>
              length (mu_last m) = length idle then (mu_last m, m)
      else
        let cores = (if length (mu_cores m) \<noteq> length idle then replicate (length idle) new_sampler else mu_cores m);
            (out, cores1) = sample_cores now idle tot cores
        in (out, m\<lparr>mu_cores := cores1, mu_last := out, mu_lastAt := now\<rparr>))"

section \<open>Spikes\<close>

record spike_tracker =
  tk_recent :: "real list"
  tk_firing :: bool

definition new_tracker :: spike_tracker where
  "new_tracker = \<lparr> tk_recent = [], tk_firing = False \<rparr>"

definition spikeWindow :: nat where "spikeWindow = 30"
definition spikeMinSamples :: nat where "spikeMinSamples = 10"
definition spikeRatio :: real where "spikeRatio = 2"
definition spikeAbsolute :: real where "spikeAbsolute = 15"

definition tracker_baseline :: "spike_tracker \<Rightarrow> real \<times> bool" where
  "tracker_baseline t =
     (if length (tk_recent t) < spikeMinSamples then (0, False)
      else
        let srt = sort (tk_recent t);
            mid = length srt div 2
        in if length srt mod 2 = 1 then (srt ! mid, True)
           else ((srt ! (mid - 1) + srt ! mid) / 2, True))"

definition aboveBaseline :: "real \<Rightarrow> real \<Rightarrow> bool" where
  "aboveBaseline v base \<longleftrightarrow> v \<ge> base * spikeRatio \<and> v \<ge> base + spikeAbsolute"

definition observe :: "real \<Rightarrow> spike_tracker \<Rightarrow> bool \<times> spike_tracker" where
  "observe v t =
     (let (base, ok) = tracker_baseline t;
          spike = (ok \<and> aboveBaseline v base);
          t1 = (if \<not> ok \<or> \<not> aboveBaseline v base
                then t\<lparr>tk_recent := keep_last spikeWindow (tk_recent t @ [v])\<rparr> else t)
      in if \<not> spike then (False, t1\<lparr>tk_firing := False\<rparr>)
         else if tk_firing t1 then (False, t1)
         else (True, t1\<lparr>tk_firing := True\<rparr>))"

definition spikeTopN :: nat where "spikeTopN = 8"

definition spike_process_of :: "process_info \<Rightarrow> spike_process" where
  "spike_process_of p =
     \<lparr> sp_PID = pi_PID p, sp_Name = pi_Name p, sp_User = pi_User p,
       sp_CPUPercent = pi_CPUPercent p, sp_MemPercent = pi_MemPercent p,
       sp_Command = (if length (pi_Command p) > 200 then take 200 (pi_Command p) @ ellipsis else pi_Command p) \<rparr>"

definition topProcesses :: "process_info list \<Rightarrow> string \<Rightarrow> nat \<Rightarrow> spike_process list" where
  "topProcesses procs metric n =
     (let ranked = sort_key (\<lambda>p. - (if metric = ''mem'' then pi_MemPercent p else pi_CPUPercent p)) procs;
          top = (if length ranked > n then take n ranked else ranked)
      in map spike_process_of top)"

section \<open>The minute tick\<close>

record ws_client =
  cl_offline :: "metric_sample agent_buffer"
  cl_spikes :: "spike_record agent_buffer"
  cl_cpuSpike :: spike_tracker
  cl_memSpike :: spike_tracker
  cl_connected :: bool

definition NewWSClient ::
  "metric_sample buf_file option \<Rightarrow> spike_record buf_file option \<Rightarrow> ws_client" where
  "NewWSClient samples recs =
     \<lparr> cl_offline = NewOfflineBuffer samples, cl_spikes = NewSpikeBuffer recs,
       cl_cpuSpike = new_tracker, cl_memSpike = new_tracker, cl_connected = False \<rparr>"

definition setConnected :: "bool \<Rightarrow> ws_client \<Rightarrow> ws_client" where
  "setConnected v c = c\<lparr>cl_connected := v\<rparr>"

definition store_spike ::
  "disk_io \<Rightarrow> process_info list option \<Rightarrow> metric_sample \<Rightarrow> string \<Rightarrow> real \<Rightarrow> real \<Rightarrow> ws_client \<Rightarrow> ws_client" where
  "store_spike io procs s metric val base c =
     (case procs of
        None \<Rightarrow> c
      | Some ps \<Rightarrow>
          c\<lparr>cl_spikes := snd (spike_Append io
              \<lparr> sr_At = ms_At s, sr_Metric = metric, sr_Value = val, sr_Baseline = base,
                sr_Top = topProcesses ps metric spikeTopN \<rparr> (cl_spikes c))\<rparr>)"

definition checkSpikes :: "disk_io \<Rightarrow> process_info list option \<Rightarrow> metric_sample \<Rightarrow> ws_client \<Rightarrow> ws_client" where
  "checkSpikes io procs s c =
     (let (cpu, t1) = observe (ms_CPU s) (cl_cpuSpike c);
          c1 = c\<lparr>cl_cpuSpike := t1\<rparr>
      in if cpu then store_spike io procs s ''cpu'' (ms_CPU s) (fst (tracker_baseline t1)) c1
         else
           let (mem, t2) = observe (ms_Mem s) (cl_memSpike c1);
               c2 = c1\<lparr>cl_memSpike := t2\<rparr>
           in if mem then store_spike io procs s ''mem'' (ms_Mem s) (fst (tracker_baseline t2)) c2
              else c2)"

text \<open>One tick; the metrics read may fail (\<open>None\<close>), and the append's error is only logged.\<close>

definition sampleOffline_tick ::
  "time \<Rightarrow> disk_io \<Rightarrow> system_metrics option \<Rightarrow> process_info list option \<Rightarrow> ws_client \<Rightarrow> ws_client" where
  "sampleOffline_tick now io metrics procs c =
     (case metrics of
        None \<Rightarrow> c
      | Some m \<Rightarrow>
          let s = SampleFrom now m;
              c1 = checkSpikes io procs s c
          in if cl_connected c1 then c1
             else c1\<lparr>cl_offline := snd (offline_Append io s (cl_offline c1))\<rparr>)"

end
