(* ===== verification/Agent_Samplers_Laws.thy ===== *)
theory Agent_Samplers_Laws
  imports Agent_Samplers
begin

text \<open>
  Properties of the samplers: a CPU figure is a measurement over a window long enough to hold one,
  and a spike is reported at its onset, against a median of the calm readings.
\<close>

section \<open>CPU figures\<close>

type_synonym reading = "64 word \<times> 64 word \<times> time"

definition busy :: "reading \<Rightarrow> reading \<Rightarrow> real" where
  "busy r q = (case (r, q) of ((i0, t0, n0), (i1, t1, n1)) \<Rightarrow>
     100 * (1 - (real (unat i1) - real (unat i0)) / (real (unat t1) - real (unat t0))))"

definition measured :: "reading set \<Rightarrow> real \<Rightarrow> bool" where
  "measured R v \<longleftrightarrow> (\<exists>i0 t0 n0 i1 t1 n1. (i0, t0, n0) \<in> R \<and> (i1, t1, n1) \<in> R \<and>
     n1 - n0 \<ge> minCPUWindow \<and> i0 \<le> i1 \<and> t0 < t1 \<and> v = busy (i0, t0, n0) (i1, t1, n1) \<and> 0 < v \<and> v \<le> 100)"

fun cpu_run :: "reading list \<Rightarrow> cpu_sampler \<Rightarrow> real list" where
  "cpu_run [] s = []"
| "cpu_run ((i, t, n) # rs) s = fst (cpu_sample i t n s) # cpu_run rs (snd (cpu_sample i t n s))"

lemma deltaPercent_nonzero:
  assumes "deltaPercent i0 t0 i1 t1 \<noteq> 0"
  shows "i0 \<le> i1 \<and> t0 < t1 \<and> deltaPercent i0 t0 i1 t1 = busy (i0, t0, n0) (i1, t1, n1) \<and>
         0 < deltaPercent i0 t0 i1 t1 \<and> deltaPercent i0 t0 i1 t1 \<le> 100"
proof -
  have ord: "i0 \<le> i1" "t0 < t1"
    using assms by (auto simp: deltaPercent_def not_le not_less split: if_splits)
  have le: "unat i0 \<le> unat i1" "unat t0 < unat t1"
    using ord by (simp_all add: word_le_nat_alt word_less_nat_alt)
  define dI where "dI = unat (i1 - i0)"
  define dT where "dT = unat (t1 - t0)"
  have d: "dI = unat i1 - unat i0" "dT = unat t1 - unat t0"
    using ord by (simp_all add: dI_def dT_def unat_sub)
  define q where "q = real dI / real dT"
  have q: "0 \<le> q" by (simp add: q_def)
  have busy: "busy (i0, t0, n0) (i1, t1, n1) = (1 - q) * 100"
    using le by (simp add: q_def d busy_def of_nat_diff)
  have "0 < dT" using le(2) by (simp add: d(2))
  then have guard: "\<not> (t1 \<le> t0 \<or> i1 < i0)" "\<not> real dT \<le> 0"
    using ord by (auto simp: not_le not_less)
  have "deltaPercent i0 t0 i1 t1 = (if (1 - q) * 100 < 0 then 0 else if (1 - q) * 100 > 100 then 100 else (1 - q) * 100)"
    unfolding deltaPercent_def dI_def [symmetric] dT_def [symmetric] Let_def q_def using guard by (simp only: if_False)
  with q busy ord assms show ?thesis by (auto split: if_splits)
qed

definition sampler_ok :: "reading set \<Rightarrow> cpu_sampler \<Rightarrow> bool" where
  "sampler_ok R s \<longleftrightarrow> (cs_hasPrev s \<longrightarrow> (cs_prevIdle s, cs_prevTotal s, cs_lastAt s) \<in> R \<and> cs_lastAt s \<noteq> 0) \<and>
     (cs_last s = 0 \<or> measured R (cs_last s))"

lemma measured_mono: "measured R v \<Longrightarrow> R \<subseteq> S \<Longrightarrow> measured S v"
  unfolding measured_def by blast

lemma cpu_sample_ok:
  assumes "sampler_ok R s" and "n \<noteq> 0"
  shows "sampler_ok (insert (i, t, n) R) (snd (cpu_sample i t n s)) \<and>
         fst (cpu_sample i t n s) = cs_last (snd (cpu_sample i t n s))"
proof -
  let ?R = "insert (i, t, n) R"
  have old: "cs_last s = 0 \<or> measured ?R (cs_last s)"
    using assms(1) measured_mono [of R _ ?R] by (auto simp: sampler_ok_def)
  have "measured ?R (deltaPercent (cs_prevIdle s) (cs_prevTotal s) i t)"
    if "cs_hasPrev s" "\<not> time_Sub n (cs_lastAt s) < minCPUWindow"
      "deltaPercent (cs_prevIdle s) (cs_prevTotal s) i t \<noteq> 0"
    unfolding measured_def using that assms(1) deltaPercent_nonzero [OF that(3), of "cs_lastAt s" n]
    by (intro exI [of _ "cs_prevIdle s"] exI [of _ "cs_prevTotal s"] exI [of _ "cs_lastAt s"]
        exI [of _ i] exI [of _ t] exI [of _ n]) (simp add: sampler_ok_def)
  then show ?thesis
    using old assms by (auto simp: sampler_ok_def cpu_sample_def Let_def time_IsZero_def)
qed

lemma cpu_run_measured:
  assumes "sampler_ok R s" and "\<forall>(i, t, n) \<in> set rs. n \<noteq> 0" and "v \<in> set (cpu_run rs s)"
  shows "v = 0 \<or> measured (R \<union> set rs) v"
  using assms
proof (induction rs arbitrary: s R)
  case (Cons r rs)
  obtain i t n where r: "r = (i, t, n)" by (cases r)
  let ?s = "snd (cpu_sample i t n s)"
  have ok: "sampler_ok (insert r R) ?s" "fst (cpu_sample i t n s) = cs_last ?s"
    using cpu_sample_ok [OF Cons.prems(1), of n i t] Cons.prems(2) r by auto
  show ?case
  proof (cases "v = fst (cpu_sample i t n s)")
    case True
    then show ?thesis
      using ok measured_mono [of "insert r R" v "R \<union> set (r # rs)"] by (auto simp: sampler_ok_def)
  next
    case False
    then have "v \<in> set (cpu_run rs ?s)" using Cons.prems(3) r by simp
    from Cons.IH [OF ok(1) _ this] Cons.prems(2) show ?thesis by auto
  qed
qed simp

text \<open>
  A CPU figure is never an artefact of the sampling: whatever counter readings arrive and however
  close together, going backwards or rolling over at 64 bits, every figure the sampler returns is
  either 0 or the busy share, at most 100, between two of the readings at least 700 ms apart over
  which both counters grew.
\<close>

lemma cpu_figures_are_measurements:
  assumes "\<forall>(i, t, n) \<in> set rs. n \<noteq> 0" and "v \<in> set (cpu_run rs new_sampler)"
  shows "v = 0 \<or> measured (set rs) v"
  using cpu_run_measured [of "{}" new_sampler rs v] assms by (simp add: sampler_ok_def new_sampler_def)

section \<open>Spike onsets\<close>

text \<open>The reference: a window of calm readings, its median, and what departs from it.\<close>

definition median :: "real list \<Rightarrow> real" where
  "median w = (let s = sort w; k = length w div 2
               in if odd (length w) then s ! k else (s ! (k - 1) + s ! k) / 2)"

definition departs :: "real list \<Rightarrow> real \<Rightarrow> bool" where
  "departs w v \<longleftrightarrow> 10 \<le> length w \<and> v \<ge> 2 * median w \<and> v \<ge> median w + 15"

fun calm :: "real list \<Rightarrow> real list \<Rightarrow> real list" where
  "calm acc [] = acc"
| "calm acc (v # vs) = calm (if departs (keep_last 30 acc) v then acc else acc @ [v]) vs"

fun observe_all :: "real list \<Rightarrow> spike_tracker \<Rightarrow> spike_tracker" where
  "observe_all [] t = t"
| "observe_all (v # vs) t = observe_all vs (snd (observe v t))"

lemma keep_last_snoc: "keep_last n (keep_last n xs @ [x]) = keep_last n (xs @ [x])"
  by (cases "n \<le> length xs") (auto simp: keep_last_def Suc_diff_le)

lemma baseline_departs:
  "(snd (tracker_baseline t) \<and> aboveBaseline v (fst (tracker_baseline t))) \<longleftrightarrow> departs (tk_recent t) v"
  by (auto simp: tracker_baseline_def aboveBaseline_def departs_def median_def spikeMinSamples_def spikeRatio_def
      spikeAbsolute_def Let_def odd_iff_mod_2_eq_one)

lemma observe_effect:
  "fst (observe v t) = (departs (tk_recent t) v \<and> \<not> tk_firing t)"
  "tk_firing (snd (observe v t)) = departs (tk_recent t) v"
  "tk_recent (snd (observe v t)) =
     (if departs (tk_recent t) v then tk_recent t else keep_last 30 (tk_recent t @ [v]))"
  unfolding baseline_departs [symmetric]
  by (auto simp: observe_def split_def Let_def spikeWindow_def)

lemma observe_all_snoc: "observe_all (xs @ [v]) t = snd (observe v (observe_all xs t))"
  by (induction xs arbitrary: t) auto

lemma observe_all_window:
  "tk_recent t = keep_last 30 acc \<Longrightarrow> tk_recent (observe_all xs t) = keep_last 30 (calm acc xs)"
  by (induction xs arbitrary: acc t) (simp_all add: observe_effect keep_last_snoc)

lemma length_filter_sort: "length (filter P (sort w)) = length (filter P w)"
  by (metis mset_filter mset_sort size_mset)

lemma sorted_low_count:
  assumes "sorted s" and "k < length s" and "s ! k \<le> m"
  shows "Suc k \<le> length (filter (\<lambda>x. x \<le> m) s)"
proof -
  have "x \<le> m" if x: "x \<in> set (take (Suc k) s)" for x
  proof -
    obtain j where "j < Suc k" "x = s ! j" using x assms(2) by (auto simp: in_set_conv_nth)
    then show ?thesis using assms sorted_nth_mono [of s j k] by simp
  qed
  then have "filter (\<lambda>x. x \<le> m) (take (Suc k) s) = take (Suc k) s" by (simp add: filter_id_conv)
  then have "length (take (Suc k) s) \<le> length (filter (\<lambda>x. x \<le> m) (take (Suc k) s @ drop (Suc k) s))"
    by (simp only: filter_append length_append)
  then show ?thesis using assms(2) by simp
qed

lemma sorted_high_count:
  assumes "sorted s" and "k < length s" and "m \<le> s ! k"
  shows "length s - k \<le> length (filter (\<lambda>x. m \<le> x) s)"
proof -
  have "m \<le> x" if x: "x \<in> set (drop k s)" for x
  proof -
    obtain j where "x = s ! (k + j)" "k + j < length s" using x assms(2) by (auto simp: in_set_conv_nth)
    then show ?thesis using assms sorted_nth_mono [of s k "k + j"] by simp
  qed
  then have "filter (\<lambda>x. m \<le> x) (drop k s) = drop k s" by (simp add: filter_id_conv)
  then have "length (drop k s) \<le> length (filter (\<lambda>x. m \<le> x) (take k s @ drop k s))"
    by (simp only: filter_append length_append)
  then show ?thesis by simp
qed

lemma median_between:
  assumes "w \<noteq> []"
  shows "sort w ! ((length w - 1) div 2) \<le> median w \<and> median w \<le> sort w ! (length w div 2)"
proof (cases "odd (length w)")
  case True
  then show ?thesis by (auto simp: median_def Let_def elim!: oddE)
next
  case False
  then obtain k where k: "length w = 2 * k" by (auto elim!: evenE)
  with assms have "0 < k" by (cases k) auto
  then have "sort w ! (k - 1) \<le> sort w ! k" using k by (intro sorted_nth_mono) auto
  moreover have "(length w - 1) div 2 = k - 1" "length w div 2 = k" using k \<open>0 < k\<close> by auto
  ultimately show ?thesis using False by (simp add: median_def Let_def)
qed

lemma median_splits:
  assumes "w \<noteq> []"
  shows "length w \<le> 2 * length (filter (\<lambda>x. x \<le> median w) w) \<and>
         length w \<le> 2 * length (filter (\<lambda>x. median w \<le> x) w)"
proof -
  have "0 < length w" using assms by simp
  then have n: "(length w - 1) div 2 < length w" "length w div 2 < length w" by linarith+
  have "Suc ((length w - 1) div 2) \<le> length (filter (\<lambda>x. x \<le> median w) (sort w))"
    using median_between [OF assms] n by (intro sorted_low_count) auto
  moreover have "length (sort w) - length w div 2 \<le> length (filter (\<lambda>x. median w \<le> x) (sort w))"
    using median_between [OF assms] n by (intro sorted_high_count) auto
  ultimately show ?thesis unfolding length_filter_sort by simp linarith
qed

text \<open>
  C31. A spike is reported exactly at its onset. After any readings \<open>xs\<close> the tracker's window is the
  last 30 readings that were not themselves spikes; the next reading is reported if and only if it
  departs from that window (at least ten readings; at least twice their median and 15 points above
  it) and the reading before it did not depart from the window of its own time. The median really is
  one: at least half of the window is not above it and at least half not below it, so a burst cannot
  drag the baseline up behind it.
\<close>

theorem spike_reported_at_onset:
  "let w = keep_last 30 (calm [] xs) in
   tk_recent (observe_all xs new_tracker) = w \<and>
   (fst (observe v (observe_all xs new_tracker)) \<longleftrightarrow>
      departs w v \<and> (xs = [] \<or> \<not> departs (keep_last 30 (calm [] (butlast xs))) (last xs))) \<and>
   (w = [] \<or> (length w \<le> 2 * length (filter (\<lambda>x. x \<le> median w) w) \<and>
               length w \<le> 2 * length (filter (\<lambda>x. median w \<le> x) w)))"
proof -
  have window: "tk_recent (observe_all ys new_tracker) = keep_last 30 (calm [] ys)" for ys
    by (rule observe_all_window) (simp add: new_tracker_def keep_last_def)
  have firing: "tk_firing (observe_all xs new_tracker) \<longleftrightarrow>
      xs \<noteq> [] \<and> departs (keep_last 30 (calm [] (butlast xs))) (last xs)"
    by (cases xs rule: rev_cases)
      (simp_all add: observe_all_snoc observe_effect window, simp add: new_tracker_def)
  show ?thesis
    unfolding Let_def observe_effect window firing using median_splits by blast
qed

theorem spike_reported_at_onset_witness:
  "fst (observe 60 (observe_all (replicate 10 5) new_tracker)) \<and>
   \<not> fst (observe 60 (observe_all (replicate 10 5 @ [60]) new_tracker))"
proof -
  have calm: "calm [] (replicate 10 5) = replicate 10 5"
    by (simp add: numeral_eq_Suc departs_def keep_last_def)
  have "calm [] (butlast (replicate 10 5)) = replicate 9 5"
    by (simp add: numeral_eq_Suc departs_def keep_last_def)
  then have quiet: "\<not> departs (keep_last 30 (calm [] (butlast (replicate 10 5)))) 5"
    by (simp add: departs_def)
  have "median (replicate 10 5) = 5"
    by (simp add: median_def Let_def sort_key_id_if_sorted)
  then have "departs (keep_last 30 (replicate 10 5)) 60" by (simp add: keep_last_def departs_def)
  with quiet spike_reported_at_onset [of "replicate 10 5" 60] spike_reported_at_onset [of "replicate 10 5 @ [60]" 60]
  show ?thesis by (simp add: Let_def calm)
qed

end
