(* ===== verification/Collect_Gate.thy ===== *)
theory Collect_Gate
  imports Go_Prelude
begin

text \<open>
  The collection gate of \<^verbatim>\<open>src/agent/collect_gate.go\<close> under interleaving: any number of goroutines
  call \<open>do\<close>, the mutex makes each of its critical sections one step, and between them the others
  run. A channel is its number; \<open>gt_closed\<close> are the closed ones. \<open>gt_log\<close> collects, in order, what the
  collections returned.
\<close>

record 'v collect_gate =
  gt_running :: bool
  gt_done :: nat
  gt_value :: 'v
  gt_at :: time
  gt_freshS :: duration
  gt_closed :: "nat set"
  gt_next :: nat
  gt_log :: "'v list"

datatype 'v caller =
    Outside
  | Joining nat
  | Released
  | Collecting nat
  | Stored nat 'v
  | Returned 'v

definition newCollectGate :: "'v \<Rightarrow> duration \<Rightarrow> 'v collect_gate" where
  "newCollectGate zero fresh = \<lparr> gt_running = False, gt_done = 0, gt_value = zero, gt_at = 0, gt_freshS = fresh,
     gt_closed = {}, gt_next = 1, gt_log = [] \<rparr>"

definition warm :: "time \<Rightarrow> 'v collect_gate \<Rightarrow> bool" where
  "warm now g \<longleftrightarrow> \<not> time_IsZero (gt_at g) \<and> time_Sub now (gt_at g) < gt_freshS g"

text \<open>The critical section at entry: reuse, join, or start a collection with a channel of its own.\<close>

definition enter :: "time \<Rightarrow> 'v collect_gate \<Rightarrow> 'v caller \<times> 'v collect_gate" where
  "enter now g =
     (if warm now g then (Returned (gt_value g), g)
      else if gt_running g then (Joining (gt_done g), g)
      else (Collecting (gt_next g),
            g\<lparr>gt_running := True, gt_done := gt_next g, gt_next := Suc (gt_next g)\<rparr>))"

text \<open>The critical section after \<open>collect()\<close>.\<close>

definition publish :: "time \<Rightarrow> 'v \<Rightarrow> 'v collect_gate \<Rightarrow> 'v collect_gate" where
  "publish now v g = g\<lparr>gt_value := v, gt_at := now, gt_running := False, gt_log := gt_log g @ [v]\<rparr>"

type_synonym ('t, 'v) gate_state = "'v collect_gate \<times> ('t \<Rightarrow> 'v caller)"

inductive gate_step :: "('t, 'v) gate_state \<Rightarrow> ('t, 'v) gate_state \<Rightarrow> bool" where
  entering: "pc t = Outside \<Longrightarrow> enter now g = (p, g') \<Longrightarrow> gate_step (g, pc) (g', pc(t := p))"
| collected: "pc t = Collecting ch \<Longrightarrow> gate_step (g, pc) (publish now v g, pc(t := Stored ch v))"
| closing: "pc t = Stored ch v \<Longrightarrow>
    gate_step (g, pc) (g\<lparr>gt_closed := insert ch (gt_closed g)\<rparr>, pc(t := Returned v))"
| waking: "pc t = Joining ch \<Longrightarrow> ch \<in> gt_closed g \<Longrightarrow> gate_step (g, pc) (g, pc(t := Released))"
| taking: "pc t = Released \<Longrightarrow> gate_step (g, pc) (g, pc(t := Returned (gt_value g)))"
| leaving: "pc t = Returned v \<Longrightarrow> gate_step (g, pc) (g, pc(t := Outside))"

inductive_simps gate_step_pair: "gate_step (g, pc) s'"

abbreviation gate_run :: "('t, 'v) gate_state \<Rightarrow> ('t, 'v) gate_state \<Rightarrow> bool" where
  "gate_run \<equiv> gate_step\<^sup>*\<^sup>*"

section \<open>The invariants\<close>

fun collecting :: "'v caller \<Rightarrow> bool" where
  "collecting (Collecting ch) = True"
| "collecting _ = False"

fun owns :: "nat \<Rightarrow> 'v caller \<Rightarrow> bool" where
  "owns c (Collecting ch) \<longleftrightarrow> ch = c"
| "owns c (Stored ch v) \<longleftrightarrow> ch = c"
| "owns c _ \<longleftrightarrow> False"

text \<open>\<open>running\<close> is up exactly while one caller collects, on the gate's current channel.\<close>

definition exclusive :: "('t, 'v) gate_state \<Rightarrow> bool" where
  "exclusive s \<longleftrightarrow> (case s of (g, pc) \<Rightarrow>
     (if gt_running g then \<exists>t. pc t = Collecting (gt_done g) \<and> (\<forall>t'. collecting (pc t') \<longrightarrow> t' = t)
      else \<forall>t. \<not> collecting (pc t)))"

text \<open>A channel somebody waits on is closed, or has an owner who is going to close it.\<close>

definition owned :: "('t, 'v) gate_state \<Rightarrow> bool" where
  "owned s \<longleftrightarrow> (case s of (g, pc) \<Rightarrow>
     \<forall>t ch. pc t = Joining ch \<longrightarrow> ch \<in> gt_closed g \<or> (\<exists>t'. owns ch (pc t')))"

text \<open>Nothing but collected values is handed out.\<close>

fun handed :: "'v caller \<Rightarrow> 'v set" where
  "handed (Stored ch v) = {v}"
| "handed (Returned v) = {v}"
| "handed _ = {}"

definition genuine :: "('t, 'v) gate_state \<Rightarrow> bool" where
  "genuine s \<longleftrightarrow> (case s of (g, pc) \<Rightarrow>
     (gt_log g = [] \<longrightarrow> gt_at g = 0 \<and> gt_closed g = {} \<and> (\<forall>t. pc t \<noteq> Released)) \<and>
     (gt_log g \<noteq> [] \<longrightarrow> gt_value g \<in> set (gt_log g)) \<and> (\<forall>t. \<forall>x \<in> handed (pc t). x \<in> set (gt_log g)))"

lemma exclusive_other:
  assumes "exclusive (g, pc)" and "\<not> collecting (pc t)" and "\<not> collecting p"
    and "gt_running g' = gt_running g" and "gt_done g' = gt_done g"
  shows "exclusive (g', pc(t := p))"
proof (cases "gt_running g")
  case True
  then obtain u where u: "pc u = Collecting (gt_done g)" "\<forall>t'. collecting (pc t') \<longrightarrow> t' = u"
    using assms(1) by (auto simp: exclusive_def)
  then have "u \<noteq> t" using assms(2) by auto
  with u True assms(3-5) show ?thesis by (auto simp: exclusive_def intro!: exI [of _ u])
qed (use assms in \<open>simp add: exclusive_def\<close>)

lemma exclusive_unique:
  assumes "exclusive (g, pc)" and "collecting (pc t)" and "collecting (pc u)"
  shows "t = u"
proof -
  obtain w where "\<forall>t'. collecting (pc t') \<longrightarrow> t' = w"
    using assms(1,2) by (cases "gt_running g") (auto simp: exclusive_def)
  with assms(2,3) show ?thesis by blast
qed

lemma exclusive_step: "gate_step s s' \<Longrightarrow> exclusive s \<Longrightarrow> exclusive s'"
proof (induction rule: gate_step.induct)
  case (entering pc t now g p g')
  show ?case
  proof (cases "collecting p")
    case True
    with entering show ?thesis by (auto simp: exclusive_def enter_def split: if_splits)
  next
    case False
    with entering show ?thesis by (intro exclusive_other) (auto simp: enter_def split: if_splits)
  qed
next
  case (collected pc t ch g now v)
  then have "collecting (pc t)" by simp
  then have "\<forall>u. collecting (pc u) \<longrightarrow> u = t" using exclusive_unique collected.prems by metis
  then show ?case by (auto simp: exclusive_def publish_def)
qed (rule exclusive_other; simp)+

lemma owned_step:
  assumes "gate_step s s'" and "exclusive s" and "owned s"
  shows "owned s'"
  using assms
proof (induction rule: gate_step.induct)
  case (entering pc t now g p g')
  have closed: "gt_closed g' = gt_closed g" using entering by (auto simp: enter_def split: if_splits)
  have "ch \<in> gt_closed g \<or> (\<exists>t'. owns ch ((pc(t := p)) t'))" if j: "(pc(t := p)) u = Joining ch" for u ch
  proof (cases "u = t")
    case True
    then have "gt_running g" "ch = gt_done g" using j entering(2) by (auto simp: enter_def split: if_splits)
    then obtain w where "pc w = Collecting ch" using entering(3) by (auto simp: exclusive_def)
    then show ?thesis using entering(1) by (intro disjI2 exI [of _ w]) auto
  next
    case False
    then consider "ch \<in> gt_closed g" | w where "owns ch (pc w)" using entering(4) j by (auto simp: owned_def)
    then show ?thesis using entering(1) by cases (auto intro!: exI)
  qed
  then show ?case by (auto simp: owned_def closed)
next
  case (collected pc t ch g now v)
  then show ?case by (simp add: owned_def publish_def) (metis owns.simps(1))
next
  case (closing pc t ch v g)
  then show ?case by (simp add: owned_def) (metis owns.simps(2))
next
  case (waking pc t ch g)
  then show ?case by (simp add: owned_def) (metis owns.simps(4))
next
  case (taking pc t g)
  then show ?case by (simp add: owned_def) (metis owns.simps(5))
next
  case (leaving pc t v g)
  then show ?case by (simp add: owned_def) (metis owns.simps(6))
qed

lemma genuine_step: "gate_step s s' \<Longrightarrow> genuine s \<Longrightarrow> genuine s'"
proof (induction rule: gate_step.induct)
  case (entering pc t now g p g')
  then show ?case
    by (auto simp: genuine_def enter_def warm_def time_IsZero_def split: if_splits)
next
  case (collected pc t ch g now v)
  then show ?case by (auto simp: genuine_def publish_def)
next
  case (closing pc t ch v g)
  then have "v \<in> set (gt_log g)" by (auto simp: genuine_def dest: spec [of _ t])
  with closing show ?case by (auto simp: genuine_def)
qed (auto simp: genuine_def)

lemma gate_run_invariant:
  assumes "gate_run (newCollectGate z fresh, \<lambda>_. Outside) s"
  shows "exclusive s \<and> owned s \<and> genuine s"
  using assms
proof (induction rule: rtranclp_induct)
  case base
  show ?case by (simp add: exclusive_def owned_def genuine_def newCollectGate_def)
qed (use exclusive_step owned_step genuine_step in blast)

section \<open>Properties\<close>

text \<open>
  C20. However many callers there are and however they interleave, \<open>collect\<close> never runs concurrently
  with itself, and no caller is ever given anything but a value some collection returned: neither the
  zero value of the type nor a half-written one.
\<close>

theorem one_collection_at_a_time:
  assumes "gate_run (newCollectGate z fresh, \<lambda>_. Outside) (g, pc)"
  shows "(collecting (pc t) \<longrightarrow> collecting (pc t') \<longrightarrow> t = t') \<and>
         (pc t = Returned v \<longrightarrow> v \<in> set (gt_log g))"
proof -
  note inv = gate_run_invariant [OF assms]
  have "collecting (pc t) \<longrightarrow> collecting (pc t') \<longrightarrow> t = t'"
    using inv exclusive_unique [of g pc t t'] by blast
  moreover have "v \<in> set (gt_log g)" if "pc t = Returned v"
  proof -
    have "\<forall>x \<in> handed (pc t). x \<in> set (gt_log g)" using inv by (simp add: genuine_def)
    with that show ?thesis by simp
  qed
  ultimately show ?thesis by blast
qed

lemma demo_gate_run:
  "gate_run (newCollectGate (0 :: int) second, \<lambda>_. Outside)
     (let g = snd (enter 5 (newCollectGate 0 second)) in (g, (\<lambda>_. Outside)(True := Collecting 1, False := Joining 1)))"
  (is "gate_run _ ?s")
proof -
  let ?init = "newCollectGate (0 :: int) second" and ?g = "snd (enter 5 (newCollectGate (0 :: int) second))"
  have "gate_step (?init, \<lambda>_. Outside) (?g, (\<lambda>_. Outside)(True := Collecting 1))"
    by (rule gate_step.entering [of "\<lambda>_. Outside" True 5]) (simp_all add: enter_def newCollectGate_def warm_def time_IsZero_def)
  moreover have "gate_step (?g, (\<lambda>_. Outside)(True := Collecting 1)) ?s"
    unfolding Let_def
    by (rule gate_step.entering [of "(\<lambda>_. Outside)(True := Collecting 1)" False 6]) (simp_all add: enter_def newCollectGate_def warm_def time_IsZero_def)
  ultimately show ?thesis by (rule converse_rtranclp_into_rtranclp [OF _ r_into_rtranclp])
qed

theorem one_collection_at_a_time_witness:
  "let pc = (\<lambda>_. Outside)(True := Collecting 1, False := Joining 1) :: bool \<Rightarrow> int caller
   in collecting (pc True) \<and> \<not> collecting (pc False)"
  using one_collection_at_a_time [OF demo_gate_run [unfolded Let_def], of True False 0] by simp

text \<open>
  C21. Nobody who joins a collection is left waiting: from every reachable state in which a caller
  waits, the collecting caller finishing (whatever it collects) and the waiter running on suffice
  for the waiter to return; no wake-up is lost, also when a new collection has begun in between.
\<close>

theorem every_joiner_is_served:
  assumes "gate_run (newCollectGate z fresh, \<lambda>_. Outside) (g, pc)" and "pc t = Joining ch"
  shows "\<exists>g' pc' v. gate_run (g, pc) (g', pc') \<and> pc' t = Returned v"
proof -
  have serve: "\<exists>g' pc' v. gate_run (g, pc) (g', pc') \<and> pc' t = Returned v"
    if "pc t = Joining ch" "ch \<in> gt_closed g" for g :: "'a collect_gate" and pc :: "'b \<Rightarrow> 'a caller"
  proof -
    have "gate_step (g, pc) (g, pc(t := Released))" using that by (rule gate_step.waking)
    moreover have "gate_step (g, pc(t := Released)) (g, pc(t := Released, t := Returned (gt_value g)))"
      by (rule gate_step.taking) simp
    ultimately have "gate_run (g, pc) (g, pc(t := Released, t := Returned (gt_value g)))"
      by (rule converse_rtranclp_into_rtranclp [OF _ r_into_rtranclp])
    then show ?thesis by (metis fun_upd_same)
  qed
  have after_close: "\<exists>g' pc' v. gate_run (g, pc) (g', pc') \<and> pc' t = Returned v"
    if "pc t = Joining ch" "pc w = Stored ch x" for g :: "'a collect_gate" and pc :: "'b \<Rightarrow> 'a caller" and w x
  proof -
    let ?s = "(g\<lparr>gt_closed := insert ch (gt_closed g)\<rparr>, pc(w := Returned x))"
    have "gate_step (g, pc) ?s" using that(2) by (rule gate_step.closing)
    moreover have "w \<noteq> t" using that by auto
    then have "\<exists>g' pc' v. gate_run ?s (g', pc') \<and> pc' t = Returned v"
      using that(1) by (intro serve) auto
    ultimately show ?thesis by (meson converse_rtranclp_into_rtranclp)
  qed
  consider "ch \<in> gt_closed g" | w where "owns ch (pc w)"
    using gate_run_invariant [OF assms(1)] assms(2) by (auto simp: owned_def)
  then show ?thesis
  proof cases
    case (2 w)
    then consider "pc w = Collecting ch" | x where "pc w = Stored ch x" by (cases "pc w") auto
    then show ?thesis
    proof cases
      case 1
      let ?s = "(publish 0 (gt_value g) g, pc(w := Stored ch (gt_value g)))"
      have "gate_step (g, pc) ?s" using 1 by (rule gate_step.collected)
      moreover have "\<exists>g' pc' v. gate_run ?s (g', pc') \<and> pc' t = Returned v"
        using assms(2) 1 by (intro after_close [of _ w]) auto
      ultimately show ?thesis by (meson converse_rtranclp_into_rtranclp)
    qed (use after_close [of pc _ _ g] assms(2) in blast)
  qed (use serve [of pc g] assms(2) in blast)
qed

theorem every_joiner_is_served_witness:
  "\<exists>g' pc' v. gate_run
     (snd (enter 5 (newCollectGate 0 second)), (\<lambda>_. Outside)(True := Collecting 1, False := Joining 1))
     (g', pc') \<and> pc' False = Returned (v :: int)"
  using every_joiner_is_served [OF demo_gate_run [unfolded Let_def], of False 1] by simp

end
