(* ===== verification/Command_Lanes.thy ===== *)
theory Command_Lanes
  imports Go_Strings
begin

text \<open>
  Panel commands on an agent (\<open>runCommand\<close>, \<open>commandLane\<close>, \<open>laneLock\<close> of
  \<^verbatim>\<open>src/agent/ws_client.go\<close>) under interleaving: the read loop starts one goroutine per command, a
  buffered channel of 16 slots bounds how many run, and a mutex per lane serialises changes to one
  feature. Commands are numbered in the order the read loop received them. What the route handler
  answers is nondeterministic. The path inside the URL is what the argument \<open>parse\<close> says
  (\<open>net/url\<close>), \<open>None\<close> for a string that does not parse.
\<close>

section \<open>Lanes\<close>

definition commandLane :: "(string \<Rightarrow> string option) \<Rightarrow> string \<Rightarrow> string" where
  "commandLane parse p =
     (let path = (case parse p of Some u \<Rightarrow> u | None \<Rightarrow> p);
          parts0 = Split (TrimPrefix path ''/api/'') (CHR ''/'');
          parts = (if length parts0 > 2 then take 2 parts0 else parts0)
      in hd parts @ ''/'' @ Join (tl parts) ''/'')"

definition isMutatingMethod :: "string \<Rightarrow> bool" where
  "isMutatingMethod m \<longleftrightarrow> m \<in> {''POST'', ''PUT'', ''PATCH'', ''DELETE''}"

section \<open>Commands in flight\<close>

record agent_command =
  ac_RequestID :: string
  ac_Method :: string
  ac_Path :: string

datatype cmd_state = Waiting | HasSlot | Dispatching | Answering int | Gone

record cmd_pool =
  cp_received :: "agent_command list"
  cp_state :: "nat \<Rightarrow> cmd_state"
  cp_slots :: nat
  cp_lanes :: "string \<Rightarrow> nat option"
  cp_over :: bool
  cp_started :: "nat list"
  cp_results :: "(string \<times> int) list"
  cp_refreshes :: nat

definition new_pool :: cmd_pool where
  "new_pool = \<lparr> cp_received = [], cp_state = (\<lambda>_. Gone), cp_slots = 0, cp_lanes = Map.empty, cp_over = False,
     cp_started = [], cp_results = [], cp_refreshes = 0 \<rparr>"

abbreviation cmdSlots :: nat where "cmdSlots \<equiv> 16"

definition lane_of :: "(string \<Rightarrow> string option) \<Rightarrow> cmd_pool \<Rightarrow> nat \<Rightarrow> string" where
  "lane_of parse s i = commandLane parse (ac_Path (cp_received s ! i))"

definition mutating :: "cmd_pool \<Rightarrow> nat \<Rightarrow> bool" where
  "mutating s i = isMutatingMethod (ac_Method (cp_received s ! i))"

definition set_state :: "nat \<Rightarrow> cmd_state \<Rightarrow> cmd_pool \<Rightarrow> cmd_pool" where
  "set_state i p s = s\<lparr>cp_state := (cp_state s)(i := p)\<rparr>"

text \<open>The deferred \<open>l.Unlock()\<close> and the release of the slot, in the order Go runs them.\<close>

definition leave :: "(string \<Rightarrow> string option) \<Rightarrow> nat \<Rightarrow> cmd_pool \<Rightarrow> cmd_pool" where
  "leave parse i s =
     (let s1 = (if mutating s i then s\<lparr>cp_lanes := (cp_lanes s)(lane_of parse s i := None)\<rparr> else s)
      in set_state i Gone (s1\<lparr>cp_slots := cp_slots s1 - 1\<rparr>))"

definition runs :: "cmd_state \<Rightarrow> bool" where
  "runs p \<longleftrightarrow> p = Dispatching \<or> (\<exists>c. p = Answering c)"

definition holds_slot :: "cmd_state \<Rightarrow> bool" where
  "holds_slot p \<longleftrightarrow> p = HasSlot \<or> runs p"

inductive cmd_step :: "(string \<Rightarrow> string option) \<Rightarrow> cmd_pool \<Rightarrow> cmd_pool \<Rightarrow> bool" for parse where
  receive: "cmd_step parse s (set_state (length (cp_received s)) Waiting
     (s\<lparr>cp_received := cp_received s @ [c]\<rparr>))"
| slot: "i < length (cp_received s) \<Longrightarrow> cp_state s i = Waiting \<Longrightarrow> cp_slots s < cmdSlots \<Longrightarrow>
    cmd_step parse s (set_state i HasSlot (s\<lparr>cp_slots := cp_slots s + 1\<rparr>))"
| give_up: "cp_state s i = Waiting \<Longrightarrow> cp_over s \<Longrightarrow> cmd_step parse s (set_state i Gone s)"
| start_read: "cp_state s i = HasSlot \<Longrightarrow> \<not> mutating s i \<Longrightarrow>
    cmd_step parse s (set_state i Dispatching (s\<lparr>cp_started := cp_started s @ [i]\<rparr>))"
| start_change: "cp_state s i = HasSlot \<Longrightarrow> mutating s i \<Longrightarrow> cp_lanes s (lane_of parse s i) = None \<Longrightarrow>
    cmd_step parse s (set_state i Dispatching
      (s\<lparr>cp_lanes := (cp_lanes s)(lane_of parse s i \<mapsto> i), cp_started := cp_started s @ [i]\<rparr>))"
| dispatched: "cp_state s i = Dispatching \<Longrightarrow> cmd_step parse s (set_state i (Answering code) s)"
| unframed: "cp_state s i = Answering code \<Longrightarrow> cmd_step parse s (leave parse i s)"
| queued: "cp_state s i = Answering code \<Longrightarrow>
    cmd_step parse s (leave parse i
      (s\<lparr>cp_results := cp_results s @ [(ac_RequestID (cp_received s ! i), code)],
         cp_refreshes := cp_refreshes s + (if mutating s i \<and> 200 \<le> code \<and> code < 300 then 1 else 0)\<rparr>))"
| abandoned: "cp_state s i = Answering code \<Longrightarrow> cp_over s \<Longrightarrow> cmd_step parse s (leave parse i s)"
| over: "cmd_step parse s (s\<lparr>cp_over := True\<rparr>)"

abbreviation cmd_run :: "(string \<Rightarrow> string option) \<Rightarrow> cmd_pool \<Rightarrow> cmd_pool \<Rightarrow> bool" where
  "cmd_run parse \<equiv> (cmd_step parse)\<^sup>*\<^sup>*"

section \<open>Invariant\<close>

definition pool_ok :: "(string \<Rightarrow> string option) \<Rightarrow> cmd_pool \<Rightarrow> bool" where
  "pool_ok parse s \<longleftrightarrow>
     (\<forall>i. i \<ge> length (cp_received s) \<longrightarrow> cp_state s i = Gone) \<and>
     (\<forall>l i. cp_lanes s l = Some i \<longleftrightarrow> runs (cp_state s i) \<and> mutating s i \<and> lane_of parse s i = l) \<and>
     cp_slots s = card {i. holds_slot (cp_state s i)} \<and> cp_slots s \<le> cmdSlots"

lemmas pool_simps = set_state_def leave_def mutating_def lane_of_def runs_def holds_slot_def Let_def

lemma holders_finite: "pool_ok parse s \<Longrightarrow> finite {i. holds_slot (cp_state s i)}"
proof (rule finite_subset)
  assume ok: "pool_ok parse s"
  show "{i. holds_slot (cp_state s i)} \<subseteq> {..<length (cp_received s)}"
    using ok unfolding pool_ok_def by (auto simp: pool_simps) (metis cmd_state.distinct not_le)+
qed simp

lemma pool_ok_state: "pool_ok parse s \<Longrightarrow> cp_state s i \<noteq> Gone \<Longrightarrow> i < length (cp_received s)"
  by (metis not_le pool_ok_def)

text \<open>Fields the invariant does not mention.\<close>

lemma pool_ok_frame:
  "pool_ok parse (s\<lparr>cp_over := b\<rparr>) = pool_ok parse s"
  "pool_ok parse (s\<lparr>cp_started := st\<rparr>) = pool_ok parse s"
  "pool_ok parse (s\<lparr>cp_results := rs, cp_refreshes := n\<rparr>) = pool_ok parse s"
  "pool_ok parse (set_state i p (s\<lparr>cp_started := st\<rparr>)) = pool_ok parse (set_state i p s)"
  "pool_ok parse (set_state i p (s\<lparr>cp_lanes := ls, cp_started := st\<rparr>)) = pool_ok parse (set_state i p (s\<lparr>cp_lanes := ls\<rparr>))"
  by (simp_all add: pool_ok_def mutating_def lane_of_def set_state_def)

lemma holders_move:
  "holds_slot p \<Longrightarrow> {j. holds_slot (((cp_state s)(i := p)) j)} = insert i {j. holds_slot (cp_state s j)}"
  "\<not> holds_slot p \<Longrightarrow> {j. holds_slot (((cp_state s)(i := p)) j)} = {j. holds_slot (cp_state s j)} - {i}"
  for s :: cmd_pool
  by (auto split: if_splits)

lemma pool_ok_receive:
  assumes "pool_ok parse s"
  shows "pool_ok parse (set_state (length (cp_received s)) Waiting (s\<lparr>cp_received := cp_received s @ [c]\<rparr>))"
proof -
  let ?n = "length (cp_received s)"
  have gone: "cp_state s i = Gone" if "i \<ge> ?n" for i using assms that by (simp add: pool_ok_def)
  have old: "(cp_received s @ [c]) ! i = cp_received s ! i" if "runs (cp_state s i)" for i
    using that gone [of i] by (cases "i < ?n") (auto simp: nth_append runs_def)
  have "{i. holds_slot (((cp_state s)(?n := Waiting)) i)} = {i. holds_slot (cp_state s i)}"
    using gone [of ?n] by (auto simp: holds_slot_def runs_def)
  moreover have "(runs (((cp_state s)(?n := Waiting)) i) \<and> isMutatingMethod (ac_Method ((cp_received s @ [c]) ! i)) \<and>
      commandLane parse (ac_Path ((cp_received s @ [c]) ! i)) = l) \<longleftrightarrow>
      (runs (cp_state s i) \<and> isMutatingMethod (ac_Method (cp_received s ! i)) \<and>
       commandLane parse (ac_Path (cp_received s ! i)) = l)" for i l
    using gone [of ?n] old [of i] by (auto simp: runs_def)
  ultimately show ?thesis
    using assms gone by (simp add: pool_ok_def set_state_def mutating_def lane_of_def)
qed

lemma pool_ok_slot:
  assumes "pool_ok parse s" and "i < length (cp_received s)" and "cp_state s i = Waiting" and "cp_slots s < cmdSlots"
  shows "pool_ok parse (set_state i HasSlot (s\<lparr>cp_slots := cp_slots s + 1\<rparr>))"
proof -
  have "card (insert i {j. holds_slot (cp_state s j)}) = Suc (cp_slots s)"
    using assms(1,3) holders_finite [OF assms(1)] by (subst card_insert_disjoint) (auto simp: pool_ok_def holds_slot_def runs_def)
  moreover have "runs (((cp_state s)(i := HasSlot)) j) = runs (cp_state s j)" for j
    using assms(3) by (simp add: runs_def)
  ultimately show ?thesis
    using assms holders_move(1) [of HasSlot s i]
    by (simp add: pool_ok_def set_state_def mutating_def lane_of_def holds_slot_def)
qed

text \<open>A move between two states that agree on slot and lane.\<close>

lemma pool_ok_move:
  assumes "pool_ok parse s" and "cp_state s i \<noteq> Gone"
    and "holds_slot p = holds_slot (cp_state s i)" and "runs p = runs (cp_state s i)"
  shows "pool_ok parse (set_state i p s)"
proof -
  have "holds_slot (((cp_state s)(i := p)) j) = holds_slot (cp_state s j)"
    "runs (((cp_state s)(i := p)) j) = runs (cp_state s j)" for j
    using assms(3,4) by simp_all
  then show ?thesis
    using assms(1) pool_ok_state [OF assms(1,2)] by (auto simp: pool_ok_def set_state_def mutating_def lane_of_def)
qed

lemma pool_ok_start:
  assumes "pool_ok parse s" and "cp_state s i = HasSlot"
    and "mutating s i \<Longrightarrow> cp_lanes s (lane_of parse s i) = None"
    and "lanes = (if mutating s i then (cp_lanes s)(lane_of parse s i \<mapsto> i) else cp_lanes s)"
  shows "pool_ok parse (set_state i Dispatching (s\<lparr>cp_lanes := lanes\<rparr>))"
proof -
  let ?st = "(cp_state s)(i := Dispatching)"
  have slots: "holds_slot (?st j) = holds_slot (cp_state s j)" for j
    using assms(2) by (simp add: holds_slot_def runs_def)
  have i: "i < length (cp_received s)" using assms(2) by (intro pool_ok_state [OF assms(1)]) simp
  have idle: "\<not> runs (cp_state s i)" using assms(2) by (simp add: runs_def)
  have inv: "cp_lanes s l = Some j \<longleftrightarrow> runs (cp_state s j) \<and> mutating s j \<and> lane_of parse s j = l" for l j
    using assms(1) by (simp add: pool_ok_def)
  have "lanes l = Some j \<longleftrightarrow> runs (?st j) \<and> mutating s j \<and> lane_of parse s j = l" for l j
    using inv [of l j] inv [of l i] assms(3,4) idle by (auto simp: runs_def split: if_splits)
  then show ?thesis
    using assms(1) i slots by (auto simp: pool_ok_def set_state_def mutating_def lane_of_def)
qed

lemma pool_ok_leave:
  assumes "pool_ok parse s" and "cp_state s i = Answering code"
  shows "pool_ok parse (leave parse i s)"
proof -
  let ?st = "(cp_state s)(i := Gone)"
  have run: "runs (cp_state s i)" using assms(2) by (simp add: runs_def)
  have inv: "cp_lanes s l = Some j \<longleftrightarrow> runs (cp_state s j) \<and> mutating s j \<and> lane_of parse s j = l" for l j
    using assms(1) by (simp add: pool_ok_def)
  let ?lanes = "if mutating s i then (cp_lanes s)(lane_of parse s i := None) else cp_lanes s"
  have "?lanes l = Some j \<longleftrightarrow> runs (?st j) \<and> mutating s j \<and> lane_of parse s j = l" for l j
    using inv [of l j] inv [of l i] run by (auto simp: runs_def)
  moreover have "card {j. holds_slot (?st j)} = cp_slots s - 1"
    using assms(1) run holders_finite [OF assms(1)] holders_move(2) [of Gone s i]
    by (simp add: pool_ok_def holds_slot_def runs_def)
  moreover have "\<forall>j \<ge> length (cp_received s). ?st j = Gone" using assms(1) by (simp add: pool_ok_def)
  moreover have "card {i. holds_slot (cp_state s i)} - Suc 0 \<le> cmdSlots"
    using assms(1) unfolding pool_ok_def by linarith
  moreover have "leave parse i s = s\<lparr>cp_lanes := ?lanes, cp_slots := cp_slots s - 1, cp_state := ?st\<rparr>"
    by (simp add: leave_def set_state_def Let_def)
  ultimately show ?thesis
    using assms(1) by (simp add: pool_ok_def mutating_def lane_of_def del: fun_upd_apply)
qed

lemma pool_ok_step: "cmd_step parse s s' \<Longrightarrow> pool_ok parse s \<Longrightarrow> pool_ok parse s'"
proof (induction rule: cmd_step.induct)
  case (slot i s)
  then show ?case by (intro pool_ok_slot) auto
next
  case (start_read s i)
  then show ?case
    using pool_ok_start [of parse s i "cp_lanes s"] by (simp add: pool_ok_frame)
next
  case (start_change s i)
  then show ?case
    using pool_ok_start [of parse s i "(cp_lanes s)(lane_of parse s i \<mapsto> i)"] by (simp add: pool_ok_frame)
next
  case (queued s i code)
  then show ?case by (intro pool_ok_leave) (simp_all add: pool_ok_frame)
qed (auto intro!: pool_ok_receive pool_ok_leave pool_ok_move simp: pool_ok_frame holds_slot_def runs_def)

lemma pool_ok_run: "cmd_run parse new_pool s \<Longrightarrow> pool_ok parse s"
proof (induction rule: rtranclp_induct)
  case base
  show ?case by (simp add: pool_ok_def new_pool_def holds_slot_def runs_def)
qed (rule pool_ok_step)

section \<open>Properties\<close>


definition demo_change :: "string \<Rightarrow> agent_command" where
  "demo_change i = \<lparr> ac_RequestID = i, ac_Method = ''POST'', ac_Path = ''/api/fs/upload'' \<rparr>"

text \<open>Two changes to one feature arrive; the second one starts first.\<close>

definition demo_overtaken :: cmd_pool where
  "demo_overtaken = \<lparr> cp_received = [demo_change ''1'', demo_change ''2''],
     cp_state = (\<lambda>_. Gone)(0 := Waiting, 1 := Dispatching), cp_slots = 1,
     cp_lanes = Map.empty(''fs/upload'' \<mapsto> 1), cp_over = False, cp_started = [1], cp_results = [], cp_refreshes = 0 \<rparr>"

lemma demo_overtaken_run: "cmd_run Some new_pool demo_overtaken"
proof -
  define a where "a = set_state (length (cp_received new_pool)) Waiting
    (new_pool\<lparr>cp_received := cp_received new_pool @ [demo_change ''1'']\<rparr>)"
  define b where "b = set_state (length (cp_received a)) Waiting (a\<lparr>cp_received := cp_received a @ [demo_change ''2'']\<rparr>)"
  define c where "c = set_state 1 HasSlot (b\<lparr>cp_slots := cp_slots b + 1\<rparr>)"
  define d where "d = set_state 1 Dispatching
    (c\<lparr>cp_lanes := (cp_lanes c)(lane_of Some c 1 \<mapsto> 1), cp_started := cp_started c @ [1]\<rparr>)"
  have "cmd_step Some new_pool a" unfolding a_def by (rule cmd_step.receive)
  moreover have "cmd_step Some a b" unfolding b_def by (rule cmd_step.receive)
  moreover have "cmd_step Some b c"
    unfolding c_def by (rule cmd_step.slot) (simp_all add: b_def a_def set_state_def new_pool_def)
  moreover have "cmd_step Some c d"
    unfolding d_def by (rule cmd_step.start_change)
      (simp_all add: c_def b_def a_def set_state_def new_pool_def mutating_def isMutatingMethod_def demo_change_def)
  moreover have "d = demo_overtaken"
    by (simp add: d_def c_def b_def a_def set_state_def new_pool_def demo_overtaken_def demo_change_def lane_of_def
        commandLane_def TrimPrefix_def HasPrefix_def fun_eq_iff)
  ultimately show ?thesis by (meson r_into_rtranclp rtranclp_trans)
qed


text \<open>
  The lanes do not keep arrival order: a change that arrived later can run while an earlier
  change to the same feature still waits for its slot, because the lane is taken by whichever
  goroutine gets there first.
\<close>

lemma lanes_may_reorder:
  "\<exists>s. cmd_run Some new_pool s \<and> mutating s 0 \<and> mutating s 1 \<and> lane_of Some s 0 = lane_of Some s 1 \<and>
       cp_state s 0 = Waiting \<and> cp_started s = [1]"
  using demo_overtaken_run
  by (intro exI [of _ demo_overtaken])
    (simp add: demo_overtaken_def mutating_def lane_of_def isMutatingMethod_def demo_change_def)

end
