(* ===== verification/Watchdog.thy ===== *)
theory Watchdog
  imports Shared_Models
begin

text \<open>
  The watcher on an agent (\<^verbatim>\<open>src/agent/watchdog.go\<close>) and the notification types of
  \<^verbatim>\<open>src/shared/webhooks.go\<close>. The network is the record \<open>wd_env\<close>: what each probe answers during
  one tick or one delivery and which target accepts a message. \<open>wd_sent\<close> collects the messages
  that reached at least one target, in order. A map of counters or flags with Go's zero default is
  a total function.
\<close>

section \<open>Types\<close>

record webhook_target =
  wt_ID :: string
  wt_Kind :: string
  wt_URL :: string
  wt_ChatID :: string

record watchdog_peer =
  wp_ID :: string
  wp_Name :: string
  wp_Host :: string
  wp_AgentPort :: int

record watchdog_config =
  wc_Enabled :: bool
  wc_Role :: string
  wc_SelfID :: string
  wc_PrimaryID :: string
  wc_Webhooks :: "webhook_target list"
  wc_Peers :: "watchdog_peer list"
  wc_PanelQuietMin :: int

record watchdog =
  wd_cfg :: watchdog_config
  wd_down :: "string \<Rightarrow> int"
  wd_announced :: "string \<Rightarrow> bool"
  wd_isolated :: bool
  wd_panelLost :: time
  wd_panelNoticed :: bool
  wd_sent :: "webhook_message list"

record wd_env =
  we_now :: time
  we_connected :: bool
  we_agent :: "watchdog_peer \<Rightarrow> bool"
  we_agent_retry :: "watchdog_peer \<Rightarrow> bool"
  we_host :: "string \<Rightarrow> bool"
  we_panel :: "watchdog_peer \<Rightarrow> bool"
  we_line :: bool
  we_send :: "webhook_target \<Rightarrow> webhook_message \<Rightarrow> bool"

datatype wd_error = NoWebhooks | SendFailed | CannotVouch

abbreviation watchdogDownAfter :: int where "watchdogDownAfter \<equiv> 3"

text \<open>\<open>Duration.Round\<close>: to the nearest multiple, half away from zero.\<close>

definition dur_Round :: "duration \<Rightarrow> duration \<Rightarrow> duration" where
  "dur_Round d m = sgn d * ((\<bar>d\<bar> + m div 2) div m * m)"

section \<open>Targets\<close>

datatype target_error = NeedsURL | BadScheme | NeedsTokenAndChat | UnknownKind

definition ValidateWebhookTarget :: "webhook_target \<Rightarrow> target_error option" where
  "ValidateWebhookTarget t =
     (if wt_Kind t = ''discord'' \<or> wt_Kind t = ''ntfy''
      then if TrimSpace (wt_URL t) = [] then Some NeedsURL
           else if \<not> HasPrefix (wt_URL t) ''https://'' \<and> \<not> HasPrefix (wt_URL t) ''http://'' then Some BadScheme
           else None
      else if wt_Kind t = ''telegram''
      then if TrimSpace (wt_URL t) = [] \<or> TrimSpace (wt_ChatID t) = [] then Some NeedsTokenAndChat else None
      else Some UnknownKind)"

section \<open>Configuration and sending\<close>

definition setConfig :: "bool \<Rightarrow> watchdog_config \<Rightarrow> watchdog \<Rightarrow> watchdog option" where
  "setConfig write_ok wc w =
     (if \<not> write_ok then None
      else
        let w1 = w\<lparr>wd_cfg := wc\<rparr>
        in Some (if wc_Role wc \<noteq> wc_Role (wd_cfg w)
                 then w1\<lparr>wd_down := \<lambda>_. 0, wd_announced := \<lambda>_. False\<rparr> else w1))"

definition sendAll :: "wd_env \<Rightarrow> webhook_message \<Rightarrow> watchdog \<Rightarrow> (wd_error + unit) \<times> watchdog" where
  "sendAll v msg w =
     (if wc_Webhooks (wd_cfg w) = [] then (Inl NoWebhooks, w)
      else if (\<exists>t \<in> set (wc_Webhooks (wd_cfg w)). we_send v t msg)
      then (Inr (), w\<lparr>wd_sent := wd_sent w @ [msg]\<rparr>)
      else (Inl SendFailed, w))"

definition cutOff :: "wd_env \<Rightarrow> bool list \<Rightarrow> bool" where
  "cutOff v witnesses = (if witnesses = [] then \<not> we_line v else \<not> (\<exists>up \<in> set witnesses. up))"

definition peerReachable :: "wd_env \<Rightarrow> watchdog_peer \<Rightarrow> bool" where
  "peerReachable v p \<longleftrightarrow> we_agent v p \<or> we_host v (wp_Host p)"

definition probeAll :: "wd_env \<Rightarrow> watchdog_peer list \<Rightarrow> bool list" where
  "probeAll v peers = map (peerReachable v) peers"

section \<open>The panel's send path\<close>

definition find_last :: "('a \<Rightarrow> bool) \<Rightarrow> 'a list \<Rightarrow> 'a option" where
  "find_last P xs = find P (rev xs)"

definition watcher_name :: "watchdog_config \<Rightarrow> string" where
  "watcher_name wc = (case find_last (\<lambda>p. wp_ID p = wc_SelfID wc) (wc_Peers wc) of
      None \<Rightarrow> wc_SelfID wc | Some p \<Rightarrow> wp_Name p)"

definition subject :: "watchdog_config \<Rightarrow> string \<Rightarrow> watchdog_peer option" where
  "subject wc i = find_last (\<lambda>p. wp_ID p \<noteq> wc_SelfID wc \<and> wp_ID p = i) (wc_Peers wc)"

definition witnesses_for :: "watchdog_config \<Rightarrow> string \<Rightarrow> watchdog_peer list" where
  "witnesses_for wc i = filter (\<lambda>p. wp_ID p \<noteq> wc_SelfID wc \<and> wp_ID p \<noteq> i) (wc_Peers wc)"

datatype verdict =
    SendIt webhook_message
  | Suppress string
  | Unvouched

definition text_AgentDown :: gotext where
  "text_AgentDown = Lit (''Agent is not responding '' @ em_dash @ '' the VPS itself still answers'')"

definition text_AgentOffline :: gotext where
  "text_AgentOffline = Lit (''VPS offline '' @ em_dash @ '' no answer on its address'')"

definition rewritten :: "wd_env \<Rightarrow> watchdog_config \<Rightarrow> watchdog_peer \<Rightarrow> webhook_message \<Rightarrow> webhook_message" where
  "rewritten v wc p msg =
     (let name = (if wm_VPSName msg = [] then wp_Name p else wm_VPSName msg);
          sev = (if wm_Severity msg = [] then ''critical'' else wm_Severity msg);
          suffix = Lit ('' (confirmed by '' @ watcher_name wc @ '')'')
      in if we_host v (wp_Host p)
         then msg\<lparr>wm_Alert := alert_type_str AlertAgentDown,
                  wm_Title := ''['' @ sev @ ''] '' @ name @ '': agent down'',
                  wm_Body := Cat text_AgentDown suffix\<rparr>
         else msg\<lparr>wm_Alert := alert_type_str AlertAgentOffline,
                  wm_Title := ''['' @ sev @ ''] '' @ name @ '': VPS offline'',
                  wm_Body := Cat text_AgentOffline suffix\<rparr>)"

definition verify :: "wd_env \<Rightarrow> webhook_message \<Rightarrow> watchdog \<Rightarrow> verdict" where
  "verify v msg w =
     (let wc = wd_cfg w in
      if wm_VPSID msg = [] \<or>
         (wm_Alert msg \<noteq> alert_type_str AlertAgentDown \<and> wm_Alert msg \<noteq> alert_type_str AlertAgentOffline)
      then SendIt msg
      else if wm_VPSID msg = wc_SelfID wc
      then Suppress ''the alert is about this watcher, and it is running''
      else case subject wc (wm_VPSID msg) of
             None \<Rightarrow> SendIt msg
           | Some p \<Rightarrow>
               if we_agent v p \<or> we_agent_retry v p
               then Suppress (wp_Name p @ [CHR 0x27] @ ''s agent answers '' @ watcher_name wc)
               else if cutOff v (probeAll v (witnesses_for wc (wm_VPSID msg))) then Unvouched
               else SendIt (rewritten v wc p msg))"

definition deliver :: "wd_env \<Rightarrow> webhook_message \<Rightarrow> watchdog \<Rightarrow> (wd_error + bool \<times> string) \<times> watchdog" where
  "deliver v msg w =
     (case verify v msg w of
        Unvouched \<Rightarrow> (Inl CannotVouch, w)
      | Suppress r \<Rightarrow> (Inr (False, r), w)
      | SendIt m \<Rightarrow> (case sendAll v m w of
                       (Inl err, w1) \<Rightarrow> (Inl err, w1)
                     | (Inr _, w1) \<Rightarrow> (Inr (True, []), w1)))"

section \<open>The loop\<close>

definition allowedToSend :: "watchdog_config \<Rightarrow> watchdog \<Rightarrow> bool" where
  "allowedToSend wc w =
     (if wc_Role wc \<noteq> ''secondary'' \<or> wc_PrimaryID wc = [] \<or> wc_PrimaryID wc = wc_SelfID wc then True
      else wd_announced w (wc_PrimaryID wc))"

definition back_message :: "watchdog_peer \<Rightarrow> webhook_message" where
  "back_message p = \<lparr> wm_Title = ''[info] '' @ wp_Name p @ '' reachable again'',
     wm_Body = Lit ''Peer answers probes.'', wm_Severity = ''info'', wm_VPSID = [], wm_VPSName = [], wm_Alert = [] \<rparr>"

definition down_message :: "watchdog_peer \<Rightarrow> int \<Rightarrow> webhook_message" where
  "down_message p n = \<lparr> wm_Title = ''[critical] '' @ wp_Name p @ '' unreachable'',
     wm_Body = Fmt (''No answer on %s for %d minutes (backend tunnel down '' @ em_dash @ '' reported by fleet watcher).'')
                 [ArgS (wp_Host p), ArgD n],
     wm_Severity = ''critical'', wm_VPSID = [], wm_VPSName = [], wm_Alert = [] \<rparr>"

definition probe_up :: "wd_env \<Rightarrow> watchdog_config \<Rightarrow> bool \<Rightarrow> watchdog_peer \<Rightarrow> watchdog \<Rightarrow> watchdog" where
  "probe_up v wc announce p w =
     (let wasAnnounced = wd_announced w (wp_ID p);
          w1 = w\<lparr>wd_down := (wd_down w)(wp_ID p := 0), wd_announced := (wd_announced w)(wp_ID p := False)\<rparr>
      in if wasAnnounced \<and> announce \<and> allowedToSend wc w1 then snd (sendAll v (back_message p) w1) else w1)"

definition probe_failed :: "wd_env \<Rightarrow> watchdog_config \<Rightarrow> bool \<Rightarrow> watchdog_peer \<Rightarrow> watchdog \<Rightarrow> watchdog" where
  "probe_failed v wc announce p w =
     (let failures = wd_down w (wp_ID p) + 1;
          w1 = w\<lparr>wd_down := (wd_down w)(wp_ID p := failures)\<rparr>
      in if announce \<and> \<not> wd_announced w1 (wp_ID p) \<and> failures \<ge> watchdogDownAfter \<and> allowedToSend wc w1
         then (case sendAll v (down_message p failures) w1 of
                 (Inl _, w2) \<Rightarrow> w2
               | (Inr _, w2) \<Rightarrow> w2\<lparr>wd_announced := (wd_announced w2)(wp_ID p := True)\<rparr>)
         else w1)"

fun probe_list :: "wd_env \<Rightarrow> watchdog_config \<Rightarrow> bool \<Rightarrow> watchdog_peer list \<Rightarrow> watchdog \<Rightarrow> watchdog" where
  "probe_list v wc announce [] w = w"
| "probe_list v wc announce (p # ps) w =
     probe_list v wc announce ps
       (if peerReachable v p then probe_up v wc announce p w else probe_failed v wc announce p w)"

definition other_peers :: "watchdog_config \<Rightarrow> watchdog_peer list" where
  "other_peers wc = filter (\<lambda>p. wp_ID p \<noteq> wc_SelfID wc) (wc_Peers wc)"

definition isolated_tick :: "wd_env \<Rightarrow> watchdog_config \<Rightarrow> bool" where
  "isolated_tick v wc =
     (let peers = other_peers wc
      in cutOff v (if length peers < 2 then [] else probeAll v peers))"

definition probePeers :: "wd_env \<Rightarrow> watchdog_config \<Rightarrow> bool \<Rightarrow> watchdog \<Rightarrow> watchdog" where
  "probePeers v wc announce w =
     (if isolated_tick v wc then w\<lparr>wd_isolated := True, wd_down := \<lambda>_. 0\<rparr>
      else probe_list v wc announce (other_peers wc) (w\<lparr>wd_isolated := False\<rparr>))"

definition selfName :: "watchdog_config \<Rightarrow> string" where
  "selfName wc = (case find (\<lambda>p. wp_ID p = wc_SelfID wc) (wc_Peers wc) of
      None \<Rightarrow> ''a watcher'' | Some p \<Rightarrow> wp_Name p)"

definition quiet_message :: "watchdog_config \<Rightarrow> duration \<Rightarrow> webhook_message" where
  "quiet_message wc quiet = \<lparr> wm_Title = ''[warning] Beacle panel is not answering'',
     wm_Body = Fmt ''No server has heard from the panel for %s: the computer it runs on is off or asleep, or lost its internet. The servers are still watched, by %s.''
                 [ArgD (dur_Round quiet minute), ArgS (selfName wc)],
     wm_Severity = ''warning'', wm_VPSID = [], wm_VPSName = [], wm_Alert = [] \<rparr>"

definition panelQuiet :: "wd_env \<Rightarrow> watchdog_config \<Rightarrow> watchdog \<Rightarrow> watchdog" where
  "panelQuiet v wc w =
     (let w1 = (if time_IsZero (wd_panelLost w) then w\<lparr>wd_panelLost := we_now v\<rparr> else w);
          quiet = time_Sub (we_now v) (wd_panelLost w1);
          skip = (wc_PanelQuietMin wc \<le> 0 \<or> wd_panelNoticed w1 \<or> wd_isolated w1 \<or>
                  \<not> allowedToSend wc w1 \<or> quiet < wc_PanelQuietMin wc * minute)
      in if skip then w1
         else if (\<exists>p \<in> set (other_peers wc). we_panel v p) then w1
         else (case sendAll v (quiet_message wc quiet) w1 of
                 (Inl _, w2) \<Rightarrow> w2
               | (Inr _, w2) \<Rightarrow> w2\<lparr>wd_panelNoticed := True\<rparr>))"

definition panel_back_message :: "duration \<Rightarrow> webhook_message" where
  "panel_back_message d = \<lparr> wm_Title = ''[info] Beacle panel is back'',
     wm_Body = Fmt ''The panel answers again after %s.'' [ArgD (dur_Round d minute)], wm_Severity = ''info'',
     wm_VPSID = [], wm_VPSName = [], wm_Alert = [] \<rparr>"

definition panelBack :: "wd_env \<Rightarrow> watchdog \<Rightarrow> watchdog" where
  "panelBack v w =
     (let w1 = w\<lparr>wd_panelLost := 0, wd_panelNoticed := False\<rparr>
      in if wd_panelNoticed w
         then snd (sendAll v (panel_back_message (time_Sub (we_now v) (wd_panelLost w))) w1) else w1)"

definition watchdogTickOnce :: "wd_env \<Rightarrow> watchdog \<Rightarrow> watchdog" where
  "watchdogTickOnce v w =
     (let wc = wd_cfg w in
      if \<not> wc_Enabled wc \<or> wc_Webhooks wc = [] then w
      else if we_connected v then panelBack v (probePeers v wc False w)
      else panelQuiet v wc (probePeers v wc True w))"

definition new_watchdog :: "watchdog_config \<Rightarrow> watchdog" where
  "new_watchdog wc = \<lparr> wd_cfg = wc, wd_down = \<lambda>_. 0, wd_announced = \<lambda>_. False, wd_isolated = False,
     wd_panelLost = 0, wd_panelNoticed = False, wd_sent = [] \<rparr>"

end
