(* ===== verification/Watchdog_Laws.thy ===== *)
theory Watchdog_Laws
  imports Watchdog
begin

text \<open>
  Laws of the watcher: when it speaks and when it does not, over whole sequences of ticks and
  configurations.
\<close>

lemma sendAll_fields [simp]:
  "wd_cfg (snd (sendAll v m w)) = wd_cfg w" "wd_down (snd (sendAll v m w)) = wd_down w"
  "wd_announced (snd (sendAll v m w)) = wd_announced w" "wd_isolated (snd (sendAll v m w)) = wd_isolated w"
  "wd_panelLost (snd (sendAll v m w)) = wd_panelLost w" "wd_panelNoticed (snd (sendAll v m w)) = wd_panelNoticed w"
  by (simp_all add: sendAll_def)

lemma probe_up_fields [simp]:
  "wd_cfg (probe_up v wc b p w) = wd_cfg w"
  "wd_down (probe_up v wc b p w) = (wd_down w)(wp_ID p := 0)"
  "wd_announced (probe_up v wc b p w) = (wd_announced w)(wp_ID p := False)"
  "wd_panelNoticed (probe_up v wc b p w) = wd_panelNoticed w"
  "wd_isolated (probe_up v wc b p w) = wd_isolated w"
  by (simp_all add: probe_up_def Let_def)

lemma probe_failed_fields [simp]:
  "wd_cfg (probe_failed v wc b p w) = wd_cfg w"
  "wd_down (probe_failed v wc b p w) = (wd_down w)(wp_ID p := wd_down w (wp_ID p) + 1)"
  "wd_panelNoticed (probe_failed v wc b p w) = wd_panelNoticed w"
  "wd_isolated (probe_failed v wc b p w) = wd_isolated w"
  "i \<noteq> wp_ID p \<Longrightarrow> wd_announced (probe_failed v wc b p w) i = wd_announced w i"
  by (auto simp: probe_failed_def sendAll_def Let_def)

lemma probe_list_cfg [simp]:
  "wd_cfg (probe_list v wc b ps w) = wd_cfg w" "wd_panelNoticed (probe_list v wc b ps w) = wd_panelNoticed w"
  by (induction v wc b ps w rule: probe_list.induct) simp_all

lemma probePeers_fields [simp]:
  "wd_cfg (probePeers v wc b w) = wd_cfg w" "wd_panelNoticed (probePeers v wc b w) = wd_panelNoticed w"
  by (simp_all add: probePeers_def)

lemma panelQuiet_fields [simp]:
  "wd_cfg (panelQuiet v wc w) = wd_cfg w" "wd_down (panelQuiet v wc w) = wd_down w"
  "wd_announced (panelQuiet v wc w) = wd_announced w"
  by (auto simp: panelQuiet_def Let_def sendAll_def)

lemma panelBack_fields [simp]:
  "wd_cfg (panelBack v w) = wd_cfg w" "wd_announced (panelBack v w) = wd_announced w"
  "\<not> wd_panelNoticed (panelBack v w)"
  by (simp_all add: panelBack_def Let_def)

lemma tick_cfg [simp]: "wd_cfg (watchdogTickOnce v w) = wd_cfg w"
  by (simp add: watchdogTickOnce_def Let_def)

section \<open>The secondary\<close>

text \<open>A secondary that has a primary to defer to, as the backend configures it.\<close>

definition deferring :: "watchdog_config \<Rightarrow> bool" where
  "deferring wc \<longleftrightarrow> wc_Role wc = ''secondary'' \<and> wc_PrimaryID wc \<noteq> [] \<and> wc_PrimaryID wc \<noteq> wc_SelfID wc"

inductive wd_step :: "(watchdog_config \<Rightarrow> bool) \<Rightarrow> watchdog \<Rightarrow> watchdog \<Rightarrow> bool" for P where
  tick: "wd_step P w (watchdogTickOnce v w)"
| configure: "P wc \<Longrightarrow> setConfig True wc w = Some w' \<Longrightarrow> wd_step P w w'"

definition mute :: "watchdog \<Rightarrow> bool" where
  "mute w \<longleftrightarrow> deferring (wd_cfg w) \<and> (\<forall>i. \<not> wd_announced w i) \<and> \<not> wd_panelNoticed w"

lemma mute_not_allowed: "deferring wc \<Longrightarrow> \<forall>i. \<not> wd_announced w i \<Longrightarrow> \<not> allowedToSend wc w"
  by (simp add: allowedToSend_def deferring_def)

lemma mute_probe_list:
  "deferring wc \<Longrightarrow> \<forall>i. \<not> wd_announced w i \<Longrightarrow>
   wd_sent (probe_list v wc b ps w) = wd_sent w \<and> (\<forall>i. \<not> wd_announced (probe_list v wc b ps w) i)"
proof (induction v wc b ps w rule: probe_list.induct)
  case (2 v wc b p ps w)
  have up: "wd_sent (probe_up v wc b p w) = wd_sent w" "\<forall>i. \<not> wd_announced (probe_up v wc b p w) i"
    using 2(3) by (auto simp: probe_up_def Let_def)
  have failed: "probe_failed v wc b p w = w\<lparr>wd_down := (wd_down w)(wp_ID p := wd_down w (wp_ID p) + 1)\<rparr>"
    using mute_not_allowed [OF 2(2), of "w\<lparr>wd_down := (wd_down w)(wp_ID p := wd_down w (wp_ID p) + 1)\<rparr>"] 2(3)
    by (simp add: probe_failed_def Let_def)
  show ?case using 2 up by (simp add: failed)
qed simp

lemma mute_probePeers:
  "deferring wc \<Longrightarrow> \<forall>i. \<not> wd_announced w i \<Longrightarrow>
   wd_sent (probePeers v wc b w) = wd_sent w \<and> (\<forall>i. \<not> wd_announced (probePeers v wc b w) i)"
  using mute_probe_list [of wc "w\<lparr>wd_isolated := False\<rparr>"] by (simp add: probePeers_def)

lemma mute_panelQuiet:
  "deferring wc \<Longrightarrow> \<forall>i. \<not> wd_announced w i \<Longrightarrow>
   wd_sent (panelQuiet v wc w) = wd_sent w \<and> wd_panelNoticed (panelQuiet v wc w) = wd_panelNoticed w"
  using mute_not_allowed [of wc "w\<lparr>wd_panelLost := we_now v\<rparr>"] mute_not_allowed [of wc w]
  by (auto simp: panelQuiet_def Let_def)

lemma mute_tick:
  assumes "mute w"
  shows "mute (watchdogTickOnce v w) \<and> wd_sent (watchdogTickOnce v w) = wd_sent w"
proof -
  have d: "deferring (wd_cfg w)" "\<forall>i. \<not> wd_announced w i" "\<not> wd_panelNoticed w"
    using assms by (auto simp: mute_def)
  note pp = mute_probePeers [OF d(1,2), of v]
  have "wd_sent (panelBack v (probePeers v (wd_cfg w) False w)) = wd_sent w"
    using pp [of False] d(3) by (simp add: panelBack_def Let_def)
  moreover note mute_panelQuiet [OF d(1), of "probePeers v (wd_cfg w) True w" v]
  ultimately show ?thesis
    using pp d by (auto simp: watchdogTickOnce_def Let_def mute_def)
qed

lemma mute_step: "wd_step deferring w w' \<Longrightarrow> mute w \<Longrightarrow> mute w' \<and> wd_sent w' = wd_sent w"
proof (induction rule: wd_step.induct)
  case (tick w v)
  then show ?case by (rule mute_tick)
next
  case (configure wc w w')
  then show ?case by (auto simp: setConfig_def Let_def mute_def split: if_splits)
qed

text \<open>
  However long the primary and every other server stay unreachable and the panel stays away, a
  secondary watcher that has a primary to defer to sends no message at all: it is allowed to speak
  only once it has announced the primary itself, and announcing is what it is not allowed to do.
\<close>

lemma secondary_never_speaks:
  assumes "(wd_step deferring)\<^sup>*\<^sup>* (new_watchdog wc) w" and "deferring wc"
  shows "wd_sent w = []"
proof -
  have "mute (new_watchdog wc)" using assms(2) by (simp add: mute_def new_watchdog_def)
  with assms(1) have "mute w \<and> wd_sent w = wd_sent (new_watchdog wc)"
    by (induction rule: rtranclp_induct) (auto dest: mute_step)
  then show ?thesis by (simp add: new_watchdog_def)
qed

definition demo_peer :: "string \<Rightarrow> watchdog_peer" where
  "demo_peer i = \<lparr> wp_ID = i, wp_Name = i, wp_Host = ''10.0.0.'' @ i, wp_AgentPort = 0 \<rparr>"

definition demo_config :: "string \<Rightarrow> string \<Rightarrow> watchdog_config" where
  "demo_config role self = \<lparr> wc_Enabled = True, wc_Role = role, wc_SelfID = self, wc_PrimaryID = ''1'',
     wc_Webhooks = [\<lparr> wt_ID = ''w'', wt_Kind = ''ntfy'', wt_URL = ''https://n'', wt_ChatID = [] \<rparr>],
     wc_Peers = [demo_peer ''1'', demo_peer ''2'', demo_peer ''3''], wc_PanelQuietMin = 5 \<rparr>"

text \<open>The primary (server 1) is down, server 3 answers, the panel is away, webhooks work.\<close>

definition demo_outage :: "string \<Rightarrow> wd_env" where
  "demo_outage gone = \<lparr> we_now = 0, we_connected = False, we_agent = (\<lambda>p. wp_ID p \<noteq> gone),
     we_agent_retry = (\<lambda>p. wp_ID p \<noteq> gone), we_host = (\<lambda>h. h \<noteq> ''10.0.0.'' @ gone), we_panel = (\<lambda>_. False),
     we_line = True, we_send = (\<lambda>_ _. True) \<rparr>"

section \<open>The primary\<close>

definition down_title :: "watchdog_peer \<Rightarrow> string" where
  "down_title p = ''[critical] '' @ wp_Name p @ '' unreachable''"

definition notices :: "watchdog_peer \<Rightarrow> watchdog \<Rightarrow> nat" where
  "notices p w = length (filter (\<lambda>m. wm_Title m = down_title p) (wd_sent w))"

definition deliverable :: "watchdog_config \<Rightarrow> wd_env \<Rightarrow> bool" where
  "deliverable wc v \<longleftrightarrow> (\<forall>m. \<exists>t \<in> set (wc_Webhooks wc). we_send v t m)"

lemma sendAll_sent:
  "wd_cfg w = wc \<Longrightarrow> deliverable wc v \<Longrightarrow>
   sendAll v m w = (Inr (), w\<lparr>wd_sent := wd_sent w @ [m]\<rparr>)"
  by (auto simp: sendAll_def deliverable_def)

lemma notices_sendAll:
  "notices p (snd (sendAll v m w)) \<le> notices p w + (if wm_Title m = down_title p then 1 else 0)"
  "wm_Title m \<noteq> down_title p \<Longrightarrow> notices p (snd (sendAll v m w)) = notices p w"
  by (simp_all add: sendAll_def notices_def)

lemma titles [simp]:
  "wm_Title (down_message q n) = down_title p \<longleftrightarrow> wp_Name q = wp_Name p"
  "wm_Title (back_message q) \<noteq> down_title p" "wm_Title (quiet_message wc d) \<noteq> down_title p"
  "wm_Title (panel_back_message d) \<noteq> down_title p"
  by (simp_all add: down_message_def back_message_def quiet_message_def panel_back_message_def down_title_def)

lemma notices_up: "notices p (probe_up v wc b q w) = notices p w"
  by (simp add: probe_up_def Let_def notices_sendAll(2)) (simp add: notices_def)

lemma notices_failed_other: "wp_Name q \<noteq> wp_Name p \<Longrightarrow> notices p (probe_failed v wc b q w) = notices p w"
  using notices_sendAll(2) [of "down_message q (wd_down w (wp_ID q) + 1)" p v
      "w\<lparr>wd_down := (wd_down w)(wp_ID q := wd_down w (wp_ID q) + 1)\<rparr>"]
  by (auto simp: probe_failed_def Let_def notices_def split_def split: sum.splits prod.splits)

text \<open>The turn of one peer does not touch what is known and said about another.\<close>

lemma probe_list_other:
  "\<forall>q \<in> set ps. wp_ID q \<noteq> wp_ID p \<and> wp_Name q \<noteq> wp_Name p \<Longrightarrow>
   wd_down (probe_list v wc b ps w) (wp_ID p) = wd_down w (wp_ID p) \<and>
   wd_announced (probe_list v wc b ps w) (wp_ID p) = wd_announced w (wp_ID p) \<and>
   notices p (probe_list v wc b ps w) = notices p w"
proof (induction v wc b ps w rule: probe_list.induct)
  case (2 v wc b q ps w)
  then have "wp_ID p \<noteq> wp_ID q" "wp_Name q \<noteq> wp_Name p" by auto
  with 2 show ?case by (simp add: notices_up notices_failed_other)
qed simp

lemma probe_list_append: "probe_list v wc b (xs @ ys) w = probe_list v wc b ys (probe_list v wc b xs w)"
  by (induction v wc b xs w rule: probe_list.induct) simp_all

lemma probe_failed_self:
  assumes "wd_cfg w = wc" and "deliverable wc v" and "wc_Role wc \<noteq> ''secondary''"
  shows "wd_announced (probe_failed v wc True p w) (wp_ID p) \<longleftrightarrow>
           wd_announced w (wp_ID p) \<or> wd_down w (wp_ID p) + 1 \<ge> watchdogDownAfter"
    and "notices p (probe_failed v wc True p w) =
           notices p w + (if \<not> wd_announced w (wp_ID p) \<and> wd_down w (wp_ID p) + 1 \<ge> watchdogDownAfter then 1 else 0)"
  using assms by (auto simp: probe_failed_def Let_def allowedToSend_def sendAll_sent notices_def)

lemma primary_tick:
  assumes "wd_cfg w = wc" and "deliverable wc v" and "wc_Role wc \<noteq> ''secondary''"
    and "wc_Enabled wc" and "wc_Webhooks wc \<noteq> []" and "\<not> we_connected v" and "\<not> isolated_tick v wc"
    and "p \<in> set (other_peers wc)" and "distinct (map wp_ID (other_peers wc))"
    and "distinct (map wp_Name (other_peers wc))" and "\<not> peerReachable v p"
  shows "wd_down (watchdogTickOnce v w) (wp_ID p) = wd_down w (wp_ID p) + 1 \<and>
         (wd_announced (watchdogTickOnce v w) (wp_ID p) \<longleftrightarrow>
            wd_announced w (wp_ID p) \<or> wd_down w (wp_ID p) + 1 \<ge> watchdogDownAfter) \<and>
         notices p (watchdogTickOnce v w) =
           notices p w + (if \<not> wd_announced w (wp_ID p) \<and> wd_down w (wp_ID p) + 1 \<ge> watchdogDownAfter then 1 else 0)"
proof -
  obtain xs ys where split: "other_peers wc = xs @ p # ys" using assms(8) by (meson split_list)
  have others: "\<forall>q \<in> set xs. wp_ID q \<noteq> wp_ID p \<and> wp_Name q \<noteq> wp_Name p"
    "\<forall>q \<in> set ys. wp_ID q \<noteq> wp_ID p \<and> wp_Name q \<noteq> wp_Name p"
    using assms(9,10) by (auto simp: split image_iff)
  let ?w0 = "w\<lparr>wd_isolated := False\<rparr>"
  let ?w1 = "probe_list v wc True xs ?w0"
  let ?w2 = "probe_failed v wc True p ?w1"
  have pp: "probePeers v wc True w = probe_list v wc True ys ?w2"
    using assms(7,11) by (simp add: probePeers_def split probe_list_append)
  have quiet: "notices p (panelQuiet v wc u) = notices p u" for u
    by (auto simp: panelQuiet_def Let_def sendAll_def notices_def)
  have w1: "wd_down ?w1 (wp_ID p) = wd_down w (wp_ID p)" "wd_announced ?w1 (wp_ID p) = wd_announced w (wp_ID p)"
    "notices p ?w1 = notices p w" "wd_cfg ?w1 = wc"
    using probe_list_other [OF others(1), of v wc True ?w0] assms(1) by (simp_all add: notices_def)
  note self = probe_failed_self [OF w1(4) assms(2,3), of p]
  have "watchdogTickOnce v w = panelQuiet v wc (probePeers v wc True w)"
    using assms(1,4-6) by (simp add: watchdogTickOnce_def Let_def)
  then show ?thesis
    using self w1 probe_list_other [OF others(2), of v wc True ?w2] by (simp add: pp quiet)
qed



section \<open>Silence\<close>

lemma probe_list_silent: "wd_sent (probe_list v wc False ps w) = wd_sent w"
  by (induction v wc False ps w rule: probe_list.induct) (simp_all add: probe_up_def probe_failed_def Let_def)



text \<open>
  A watcher passes on an alert that a known server is unreachable only on its own evidence: the
  server's agent failed to answer it twice and at least one other server (or, with no other server,
  the internet line) answered it, so it is not the one cut off. What goes out then says what the
  watcher saw of the host.
\<close>

lemma verify_confirms:
  assumes "wm_VPSID msg \<noteq> []" and "wm_Alert msg \<in> {''agent_down'', ''agent_offline''}"
    and "subject (wd_cfg w) (wm_VPSID msg) = Some p" and "wm_VPSID msg \<noteq> wc_SelfID (wd_cfg w)"
    and "verify v msg w = SendIt m"
  shows "\<not> we_agent v p \<and> \<not> we_agent_retry v p \<and>
         (if witnesses_for (wd_cfg w) (wm_VPSID msg) = [] then we_line v
          else \<exists>q \<in> set (witnesses_for (wd_cfg w) (wm_VPSID msg)). peerReachable v q) \<and>
         wm_Alert m = (if we_host v (wp_Host p) then ''agent_down'' else ''agent_offline'') \<and>
         wm_VPSID m = wm_VPSID msg"
proof -
  have guard: "\<not> (wm_VPSID msg = [] \<or> (wm_Alert msg \<noteq> alert_type_str AlertAgentDown \<and>
      wm_Alert msg \<noteq> alert_type_str AlertAgentOffline))"
    using assms(1,2) by auto
  have "verify v msg w =
      (if we_agent v p \<or> we_agent_retry v p
       then Suppress (wp_Name p @ [CHR 0x27] @ ''s agent answers '' @ watcher_name (wd_cfg w))
       else if cutOff v (probeAll v (witnesses_for (wd_cfg w) (wm_VPSID msg))) then Unvouched
       else SendIt (rewritten v (wd_cfg w) p msg))"
    using guard assms(3,4) by (simp only: verify_def Let_def if_False) simp
  with assms(5) have quiet: "\<not> we_agent v p" "\<not> we_agent_retry v p"
    and line: "\<not> cutOff v (probeAll v (witnesses_for (wd_cfg w) (wm_VPSID msg)))"
    and m: "m = rewritten v (wd_cfg w) p msg"
    by (simp_all split: if_splits)
  have "if witnesses_for (wd_cfg w) (wm_VPSID msg) = [] then we_line v
          else \<exists>q \<in> set (witnesses_for (wd_cfg w) (wm_VPSID msg)). peerReachable v q"
    using line by (auto simp: cutOff_def probeAll_def)
  with quiet m show ?thesis by (simp add: rewritten_def Let_def)
qed

definition demo_alert :: webhook_message where
  "demo_alert = \<lparr> wm_Title = ''t'', wm_Body = Lit ''b'', wm_Severity = ''critical'', wm_VPSID = ''2'', wm_VPSName = ''db'',
     wm_Alert = ''agent_offline'' \<rparr>"

end
