(* ===== verification/Election.thy ===== *)
theory Election
  imports Offline_Sweep Time_Series Watchdog_Laws
begin

text \<open>
  The notification service of \<^verbatim>\<open>src/backend/webhooks.go\<close>: its settings and their file, the election
  of the two watchers, the configuration pushed to every connected agent and the delivery of one
  message through them.

  What \<open>netip.ParseAddr\<close> makes of an address is the argument \<open>parse\<close>; what \<open>Unmap\<close> and
  \<open>Prefix(64)\<close> do to the result is modelled on its bits, and \<open>String\<close> of the network is the network
  itself. \<open>conn\<close> says which agents hold a socket, \<open>ask\<close> what an agent answers a request.
  \<open>SyncWatchers\<close> holds its own lock throughout, so it is one step. The setters start it in the
  background (\<^verbatim>\<open>go w.SyncWatchers()\<close>): that run is a step of its own here, not part of the setter.
\<close>

section \<open>Networks\<close>

datatype ip_addr = V4 "32 word" | V6 "128 word" (zone: string)

datatype net_key = NetUnknown | Net4 "32 word" | Net6 "128 word"

definition Unmap :: "ip_addr \<Rightarrow> ip_addr" where
  "Unmap a = (case a of
      V4 w \<Rightarrow> V4 w
    | V6 w z \<Rightarrow> if drop_bit 32 w = 0xFFFF then V4 (ucast w) else V6 w z)"

definition networkKey :: "(string \<Rightarrow> ip_addr option) \<Rightarrow> vps \<Rightarrow> net_key" where
  "networkKey parse v =
     (let ip = (if vps_PublicIP v = [] \<and> IsWireGuard v
                then (case SplitHost (vps_WGEndpoint v) of Some h \<Rightarrow> h | None \<Rightarrow> vps_PublicIP v)
                else vps_PublicIP v)
      in case parse ip of
           None \<Rightarrow> NetUnknown
         | Some a \<Rightarrow> (case Unmap a of V4 w \<Rightarrow> Net4 w | V6 w z \<Rightarrow> Net6 (push_bit 64 (drop_bit 64 w))))"

definition sameNetwork :: "(string \<Rightarrow> ip_addr option) \<Rightarrow> vps \<Rightarrow> vps \<Rightarrow> bool" where
  "sameNetwork parse a b \<longleftrightarrow> networkKey parse a \<noteq> NetUnknown \<and> networkKey parse a = networkKey parse b"

definition watchdogHost :: "vps \<Rightarrow> string" where
  "watchdogHost v =
     (if IsWireGuard v
      then if vps_PublicIP v \<noteq> [] then vps_PublicIP v
           else (case SplitHost (vps_WGEndpoint v) of Some h \<Rightarrow> h | None \<Rightarrow> vps_Host v)
      else vps_Host v)"

section \<open>The election\<close>

definition rank_key :: "(string \<Rightarrow> nat) \<Rightarrow> vps \<Rightarrow> int \<times> time \<times> string" where
  "rank_key coverage v = (- int (coverage (vps_ID v)), vps_CreatedAt v, vps_ID v)"

definition byID :: "vps list \<Rightarrow> string \<Rightarrow> vps option" where
  "byID cands i = find (\<lambda>c. i \<noteq> [] \<and> vps_ID c = i) cands"

fun best_from :: "(vps \<Rightarrow> vps \<Rightarrow> bool) \<Rightarrow> vps option \<Rightarrow> vps list \<Rightarrow> vps option \<Rightarrow> vps option" where
  "best_from same taken [] fallback = fallback"
| "best_from same taken (c # cs) fallback =
     (case taken of
        None \<Rightarrow> Some c
      | Some t \<Rightarrow>
          if vps_ID c = vps_ID t then best_from same taken cs fallback
          else if \<not> same c t then Some c
          else best_from same taken cs (if fallback = None then Some c else fallback))"

definition best :: "(vps \<Rightarrow> vps \<Rightarrow> bool) \<Rightarrow> vps option \<Rightarrow> vps list \<Rightarrow> vps option" where
  "best same taken cands = best_from same taken cands None"

definition electWatchers ::
  "(vps \<Rightarrow> vps \<Rightarrow> bool) \<Rightarrow> vps list \<Rightarrow> (string \<Rightarrow> nat) \<Rightarrow> string \<Rightarrow> string \<Rightarrow> vps option \<times> vps option" where
  "electWatchers same cands0 coverage pinP pinS =
     (if cands0 = [] then (None, None)
      else
        let cands = sort_key (rank_key coverage) cands0;
            primary0 = byID cands pinP;
            secondary0 = byID cands pinS;
            secondary1 = (if secondary0 \<noteq> None \<and> primary0 \<noteq> None \<and>
                             vps_ID (the secondary0) = vps_ID (the primary0) then None else secondary0);
            primary1 = (if primary0 = None then best same secondary1 cands else primary0);
            secondary2 = (if secondary1 = None then best same primary1 cands else secondary1)
        in (primary1, secondary2))"

section \<open>The service\<close>

record webhooks_file =
  wf_Targets :: "webhook_target list"
  wf_Primary :: string
  wf_Secondary :: string
  wf_PanelQuietMin :: int

record webhook_service =
  wh_targets :: "webhook_target list"
  wh_pinPrimary :: string
  wh_pinSecondary :: string
  wh_panelQuietMin :: int
  wh_queue :: "webhook_message list"
  wh_pushed :: string
  wh_file :: "webhooks_file option"
  wh_disk_ok :: bool

definition NewWebhookService :: "webhooks_file option \<Rightarrow> bool \<Rightarrow> webhook_service" where
  "NewWebhookService f ok =
     (case f of
        None \<Rightarrow> \<lparr> wh_targets = [], wh_pinPrimary = [], wh_pinSecondary = [], wh_panelQuietMin = 0,
                  wh_queue = [], wh_pushed = [], wh_file = None, wh_disk_ok = ok \<rparr>
      | Some s \<Rightarrow> \<lparr> wh_targets = wf_Targets s, wh_pinPrimary = wf_Primary s, wh_pinSecondary = wf_Secondary s,
                    wh_panelQuietMin = wf_PanelQuietMin s, wh_queue = [], wh_pushed = [], wh_file = Some s,
                    wh_disk_ok = ok \<rparr>)"

datatype webhook_error =
  BadTarget target_error | SaveFailed | SameServerTwice | UnknownServer string | BadQuiet | NoWatcher

definition webhooks_persist :: "webhook_service \<Rightarrow> webhook_error option \<times> webhook_service" where
  "webhooks_persist w =
     (if wh_disk_ok w
      then (None, w\<lparr>wh_file := Some \<lparr> wf_Targets = wh_targets w, wf_Primary = wh_pinPrimary w,
                     wf_Secondary = wh_pinSecondary w, wf_PanelQuietMin = wh_panelQuietMin w \<rparr>\<rparr>)
      else (Some SaveFailed, w))"

definition stringNormalize :: "string \<Rightarrow> string" where
  "stringNormalize s =
     (if s = ''Discord'' \<or> s = ''DISCORD'' then ''discord''
      else if s = ''Ntfy'' \<or> s = ''NTFY'' then ''ntfy''
      else if s = ''Telegram'' \<or> s = ''TELEGRAM'' then ''telegram''
      else s)"

text \<open>\<open>fresh\<close> draws the identifier of the i-th target that has none.\<close>

fun normalize_targets ::
  "(nat \<Rightarrow> string) \<Rightarrow> nat \<Rightarrow> webhook_target list \<Rightarrow> target_error + webhook_target list" where
  "normalize_targets fresh k [] = Inr []"
| "normalize_targets fresh k (t # ts) =
     (let t1 = t\<lparr>wt_Kind := stringNormalize (wt_Kind t)\<rparr>;
          t2 = (if wt_ID t1 = [] then t1\<lparr>wt_ID := fresh k\<rparr> else t1)
      in case ValidateWebhookTarget t2 of
           Some e \<Rightarrow> Inl e
         | None \<Rightarrow> (case normalize_targets fresh (Suc k) ts of Inl e \<Rightarrow> Inl e | Inr us \<Rightarrow> Inr (t2 # us)))"

definition SetTargets ::
  "(nat \<Rightarrow> string) \<Rightarrow> webhook_target list \<Rightarrow> webhook_service \<Rightarrow> webhook_error option \<times> webhook_service" where
  "SetTargets fresh ts w =
     (case normalize_targets fresh 0 ts of
        Inl e \<Rightarrow> (Some (BadTarget e), w)
      | Inr us \<Rightarrow> webhooks_persist (w\<lparr>wh_targets := us\<rparr>))"

definition SetPanelQuiet :: "int \<Rightarrow> webhook_service \<Rightarrow> webhook_error option \<times> webhook_service" where
  "SetPanelQuiet m w =
     (if m \<noteq> 0 \<and> (m < 5 \<or> m > 24 * 60) then (Some BadQuiet, w)
      else webhooks_persist (w\<lparr>wh_panelQuietMin := m\<rparr>))"

definition SetPins :: "store \<Rightarrow> string \<Rightarrow> string \<Rightarrow> webhook_service \<Rightarrow> webhook_error option \<times> webhook_service" where
  "SetPins s primary secondary w =
     (if primary \<noteq> [] \<and> primary = secondary then (Some SameServerTwice, w)
      else case find (\<lambda>i. i \<noteq> [] \<and> GetVPS i s = None) [primary, secondary] of
             Some i \<Rightarrow> (Some (UnknownServer i), w)
           | None \<Rightarrow> webhooks_persist (w\<lparr>wh_pinPrimary := primary, wh_pinSecondary := secondary\<rparr>))"

definition Enqueue :: "webhook_message \<Rightarrow> webhook_service \<Rightarrow> webhook_service" where
  "Enqueue msg w = (if length (wh_queue w) < 64 then w\<lparr>wh_queue := wh_queue w @ [msg]\<rparr> else w)"

section \<open>Electing and configuring\<close>

abbreviation watcherStability :: duration where "watcherStability \<equiv> 24 * hour"

record fleet_view =
  fv_now :: time
  fv_conn :: "string \<Rightarrow> bool"
  fv_parse :: "string \<Rightarrow> ip_addr option"

definition Elect :: "fleet_view \<Rightarrow> store \<Rightarrow> history \<Rightarrow> webhook_service \<Rightarrow> vps option \<times> vps option" where
  "Elect f s h w =
     (let cands = filter (\<lambda>v. vps_Status v \<noteq> VPSPending \<and> fv_conn f (vps_ID v)) (ListVPS s);
          coverage = (\<lambda>i. length (history_Query i (fv_now f - watcherStability) (fv_now f) h))
      in electWatchers (sameNetwork (fv_parse f)) cands coverage (wh_pinPrimary w) (wh_pinSecondary w))"

definition pairKey :: "vps option \<Rightarrow> vps option \<Rightarrow> string" where
  "pairKey p s = (case p of None \<Rightarrow> [] | Some v \<Rightarrow> vps_ID v) @ ''|'' @
                 (case s of None \<Rightarrow> [] | Some v \<Rightarrow> vps_ID v)"

definition watch_peers :: "vps list \<Rightarrow> watchdog_peer list" where
  "watch_peers vs =
     map (\<lambda>v. \<lparr> wp_ID = vps_ID v, wp_Name = vps_Name v, wp_Host = watchdogHost v,
               wp_AgentPort = (if vps_AgentPort v = 0 then DefaultAgentPort else vps_AgentPort v) \<rparr>)
         (filter (\<lambda>v. \<not> (vps_Status v = VPSPending \<or> watchdogHost v = [])) vs)"

definition config_for ::
  "vps list \<Rightarrow> vps option \<Rightarrow> vps option \<Rightarrow> webhook_service \<Rightarrow> vps \<Rightarrow> watchdog_config" where
  "config_for vs primary secondary w v =
     (let role = (if primary \<noteq> None \<and> vps_ID v = vps_ID (the primary) then ''primary''
                  else if secondary \<noteq> None \<and> vps_ID v = vps_ID (the secondary) then ''secondary''
                  else []);
          wc = \<lparr> wc_Enabled = False, wc_Role = [], wc_SelfID = vps_ID v, wc_PrimaryID = [],
                 wc_Webhooks = [], wc_Peers = [], wc_PanelQuietMin = 0 \<rparr>
      in if role \<noteq> [] \<and> wh_targets w \<noteq> []
         then wc\<lparr>wc_Enabled := True, wc_Role := role,
                 wc_PrimaryID := (case primary of None \<Rightarrow> [] | Some p \<Rightarrow> vps_ID p),
                 wc_Webhooks := wh_targets w, wc_Peers := watch_peers vs,
                 wc_PanelQuietMin := wh_panelQuietMin w\<rparr>
         else wc)"

text \<open>The pushes, in order; a push that fails is only logged.\<close>

definition SyncWatchers ::
  "fleet_view \<Rightarrow> store \<Rightarrow> history \<Rightarrow> webhook_service \<Rightarrow> (string \<times> watchdog_config) list \<times> webhook_service" where
  "SyncWatchers f s h w =
     (let (primary, secondary) = Elect f s h w
      in (map (\<lambda>v. (vps_ID v, config_for (ListVPS s) primary secondary w v))
              (filter (\<lambda>v. fv_conn f (vps_ID v)) (ListVPS s)),
          w\<lparr>wh_pushed := pairKey primary secondary\<rparr>))"

section \<open>Delivery\<close>

record send_reply =
  rp_code :: int
  rp_sent :: "bool option"
  rp_reason :: string

definition accepted :: "send_reply option \<Rightarrow> bool" where
  "accepted r = (case r of None \<Rightarrow> False | Some a \<Rightarrow> 200 \<le> rp_code a \<and> rp_code a < 300)"

fun try_watchers ::
  "(string \<Rightarrow> send_reply option) \<Rightarrow> (string \<times> vps option) list \<Rightarrow> webhook_error + (string \<times> string)" where
  "try_watchers ask [] = Inl NoWatcher"
| "try_watchers ask ((role, None) # cs) = try_watchers ask cs"
| "try_watchers ask ((role, Some v) # cs) =
     (if accepted (ask (vps_ID v))
      then let a = the (ask (vps_ID v))
           in Inr (''watcher '' @ vps_Name v @ '' ('' @ role @ '')'',
                   if rp_sent a = Some False then rp_reason a else [])
      else try_watchers ask cs)"

definition webhooks_deliver ::
  "fleet_view \<Rightarrow> store \<Rightarrow> history \<Rightarrow> (string \<Rightarrow> webhook_message \<Rightarrow> send_reply option) \<Rightarrow>
     webhook_message \<Rightarrow> webhook_service \<Rightarrow> (webhook_error + (string \<times> string)) \<times> (string \<times> watchdog_config) list \<times> webhook_service" where
  "webhooks_deliver f s h ask msg w =
     (if wh_targets w = [] then (Inr ([], []), [], w)
      else
        let (primary, secondary) = Elect f s h w;
            (pushes, w1) = (if wh_pushed w \<noteq> pairKey primary secondary then SyncWatchers f s h w else ([], w))
        in (try_watchers (\<lambda>i. ask i msg) [(''primary'', primary), (''secondary'', secondary)], pushes, w1))"

definition test_message :: webhook_message where
  "test_message = \<lparr> wm_Title = ''Beacle test notification'',
     wm_Body = Lit ''Webhooks are wired up. Alerts will arrive here.'', wm_Severity = ''info'',
     wm_VPSID = [], wm_VPSName = [], wm_Alert = [] \<rparr>"

definition SendTest ::
  "fleet_view \<Rightarrow> store \<Rightarrow> history \<Rightarrow> (string \<Rightarrow> webhook_message \<Rightarrow> send_reply option) \<Rightarrow> webhook_service \<Rightarrow>
     (webhook_error + string) \<times> (string \<times> watchdog_config) list \<times> webhook_service" where
  "SendTest f s h ask w =
     (if wh_targets w = [] then (Inr [], [], w)
      else case webhooks_deliver f s h ask test_message w of
             (Inl e, r) \<Rightarrow> (Inl e, r)
           | (Inr (via, _), r) \<Rightarrow> (Inr via, r))"

text \<open>One round of the delivery worker: it takes the oldest message off the queue.\<close>

definition Run_once ::
  "fleet_view \<Rightarrow> store \<Rightarrow> history \<Rightarrow> (string \<Rightarrow> webhook_message \<Rightarrow> send_reply option) \<Rightarrow> webhook_service \<Rightarrow>
     (string \<times> watchdog_config) list \<times> webhook_service" where
  "Run_once f s h ask w =
     (case wh_queue w of
        [] \<Rightarrow> ([], w)
      | msg # q \<Rightarrow> snd (webhooks_deliver f s h ask msg (w\<lparr>wh_queue := q\<rparr>)))"

end
