(* ===== verification/WireGuard_Keys.thy ===== *)
theory WireGuard_Keys
  imports Election
begin

text \<open>
  Keys and join tokens of the built-in WireGuard transport (\<^verbatim>\<open>src/shared/wireguard.go\<close>): the base64
  and hexadecimal forms of a key as \<open>encoding/base64\<close> and \<open>encoding/hex\<close> read and write them, the
  checks on a join token and the class of an address. A key is a list of 32 bytes; what
  \<open>netip.ParseAddr\<close> makes of a string is the argument \<open>parse\<close>.
\<close>

unbundle bit_operations_syntax

type_synonym byte = "8 word"

section \<open>base64\<close>

definition base64_alphabet :: string where
  "base64_alphabet = ''ABCDEFGHIJKLMNOPQRSTUVWXYZabcdefghijklmnopqrstuvwxyz0123456789+/''"

definition sextet :: "nat \<Rightarrow> char" where
  "sextet n = base64_alphabet ! n"

definition unsextet :: "char \<Rightarrow> nat option" where
  "unsextet c = index_of c base64_alphabet"

fun base64_EncodeToString :: "byte list \<Rightarrow> string" where
  "base64_EncodeToString [] = []"
| "base64_EncodeToString [a] =
     [sextet (unat a div 4), sextet (unat a mod 4 * 16), CHR ''='', CHR ''='']"
| "base64_EncodeToString [a, b] =
     [sextet (unat a div 4), sextet (unat a mod 4 * 16 + unat b div 16), sextet (unat b mod 16 * 4), CHR ''='']"
| "base64_EncodeToString (a # b # c # bs) =
     [sextet (unat a div 4), sextet (unat a mod 4 * 16 + unat b div 16),
      sextet (unat b mod 16 * 4 + unat c div 64), sextet (unat c mod 64)] @ base64_EncodeToString bs"

definition byte1 :: "nat \<Rightarrow> nat \<Rightarrow> byte" where "byte1 v w = of_nat (v * 4 + w div 16)"
definition byte2 :: "nat \<Rightarrow> nat \<Rightarrow> byte" where "byte2 w x = of_nat (w mod 16 * 16 + x div 4)"
definition byte3 :: "nat \<Rightarrow> nat \<Rightarrow> byte" where "byte3 x y = of_nat (x mod 4 * 64 + y)"

text \<open>Quanta of four; padding only at the very end; unused trailing bits are not checked.\<close>

fun decode_quanta :: "string \<Rightarrow> byte list option" where
  "decode_quanta [] = Some []"
| "decode_quanta (a # b # c # d # rest) =
     (case (unsextet a, unsextet b) of
        (Some v, Some w) \<Rightarrow>
          if c = CHR ''='' then if d = CHR ''='' \<and> rest = [] then Some [byte1 v w] else None
          else (case unsextet c of
                  None \<Rightarrow> None
                | Some x \<Rightarrow>
                    if d = CHR ''='' then if rest = [] then Some [byte1 v w, byte2 w x] else None
                    else (case unsextet d of
                            None \<Rightarrow> None
                          | Some y \<Rightarrow> map_option (\<lambda>bs. byte1 v w # byte2 w x # byte3 x y # bs) (decode_quanta rest)))
      | _ \<Rightarrow> None)"
| "decode_quanta _ = None"

text \<open>Line breaks inside the input are skipped.\<close>

definition base64_DecodeString :: "string \<Rightarrow> byte list option" where
  "base64_DecodeString s = decode_quanta (filter (\<lambda>c. c \<noteq> CHR 10 \<and> c \<noteq> CHR 13) s)"

section \<open>Hexadecimal\<close>

definition unhex :: "char \<Rightarrow> nat option" where
  "unhex c = (case index_of c ''0123456789abcdef'' of
      Some n \<Rightarrow> Some n
    | None \<Rightarrow> index_of c ''0123456789ABCDEF'')"

fun hex_DecodeString :: "string \<Rightarrow> byte list option" where
  "hex_DecodeString [] = Some []"
| "hex_DecodeString [_] = None"
| "hex_DecodeString (a # b # s) =
     (case (unhex a, unhex b) of
        (Some x, Some y) \<Rightarrow> map_option (\<lambda>bs. of_nat (x * 16 + y) # bs) (hex_DecodeString s)
      | _ \<Rightarrow> None)"

section \<open>Keys\<close>

type_synonym wg_key = "byte list"

definition clamp :: "wg_key \<Rightarrow> wg_key" where
  "clamp k = (k[0 := k ! 0 AND 248])[31 := (k ! 31 AND 127) OR 64]"

text \<open>\<open>bytes\<close> is what \<open>rand.Read\<close> delivers, \<open>None\<close> for its error.\<close>

definition GenerateWGPrivateKey :: "wg_key option \<Rightarrow> wg_key option" where
  "GenerateWGPrivateKey bytes = map_option clamp bytes"

definition GenerateWGPresharedKey :: "wg_key option \<Rightarrow> wg_key option" where
  "GenerateWGPresharedKey bytes = bytes"

definition WGKey_IsZero :: "wg_key \<Rightarrow> bool" where
  "WGKey_IsZero k \<longleftrightarrow> k = replicate 32 0"

definition WGKey_String :: "wg_key \<Rightarrow> string" where
  "WGKey_String k = base64_EncodeToString k"

definition WGKey_Hex :: "wg_key \<Rightarrow> string" where
  "WGKey_Hex k = hex_encode k"

datatype wg_error = InvalidKey

definition ParseWGKey :: "string \<Rightarrow> wg_error + wg_key" where
  "ParseWGKey s =
     (case base64_DecodeString (TrimSpace s) of
        None \<Rightarrow> Inl InvalidKey
      | Some b \<Rightarrow> if length b \<noteq> 32 then Inl InvalidKey else Inr b)"

definition ParseWGKeyHex :: "string \<Rightarrow> wg_error + wg_key" where
  "ParseWGKeyHex s =
     (case hex_DecodeString (TrimSpace s) of
        None \<Rightarrow> Inl InvalidKey
      | Some b \<Rightarrow> if length b \<noteq> 32 then Inl InvalidKey else Inr b)"

section \<open>Join tokens\<close>

record wg_join =
  wj_PrivateKey :: string
  wj_PeerPublicKey :: string
  wj_PresharedKey :: string
  wj_Address :: string
  wj_PeerAddress :: string
  wj_ListenPort :: int
  wj_VPSID :: string

datatype join_error = BadPrivateKey | BadPeerKey | BadPresharedKey | BadAddress | BadPeerAddress | BadPort

fun is_key :: "wg_error + wg_key \<Rightarrow> bool" where
  "is_key (Inl _) = False"
| "is_key (Inr _) = True"

definition WGJoin_Validate :: "(string \<Rightarrow> ip_addr option) \<Rightarrow> wg_join \<Rightarrow> join_error option" where
  "WGJoin_Validate parse j =
     (if \<not> is_key (ParseWGKey (wj_PrivateKey j)) then Some BadPrivateKey
      else if \<not> is_key (ParseWGKey (wj_PeerPublicKey j)) then Some BadPeerKey
      else if wj_PresharedKey j \<noteq> [] \<and> \<not> is_key (ParseWGKey (wj_PresharedKey j)) then Some BadPresharedKey
      else if parse (wj_Address j) = None then Some BadAddress
      else if parse (wj_PeerAddress j) = None then Some BadPeerAddress
      else if wj_ListenPort j \<le> 0 \<or> wj_ListenPort j > 65535 then Some BadPort
      else None)"

section \<open>Which addresses a handshake can reach\<close>

datatype ip_class = IPPublic | IPCGNAT | IPPrivate | IPLoopback | IPInvalid

definition in4 :: "32 word \<Rightarrow> nat \<Rightarrow> 32 word \<Rightarrow> bool" where
  "in4 net bits a \<longleftrightarrow> drop_bit (32 - bits) a = drop_bit (32 - bits) net"

definition in6 :: "128 word \<Rightarrow> nat \<Rightarrow> 128 word \<Rightarrow> bool" where
  "in6 net bits a \<longleftrightarrow> drop_bit (128 - bits) a = drop_bit (128 - bits) net"

text \<open>\<open>IsLoopback\<close>, \<open>IsPrivate\<close>, \<open>IsLinkLocalUnicast\<close>, \<open>IsUnspecified\<close>, \<open>IsMulticast\<close> of \<open>net/netip\<close>.\<close>

definition IsLoopback :: "ip_addr \<Rightarrow> bool" where
  "IsLoopback a = (case a of V4 w \<Rightarrow> in4 0x7F000000 8 w | V6 w z \<Rightarrow> w = 1)"

definition IsPrivate :: "ip_addr \<Rightarrow> bool" where
  "IsPrivate a = (case a of
      V4 w \<Rightarrow> in4 0x0A000000 8 w \<or> in4 0xAC100000 12 w \<or> in4 0xC0A80000 16 w
    | V6 w z \<Rightarrow> in6 0xFC000000000000000000000000000000 7 w)"

definition IsLinkLocalUnicast :: "ip_addr \<Rightarrow> bool" where
  "IsLinkLocalUnicast a = (case a of
      V4 w \<Rightarrow> in4 0xA9FE0000 16 w
    | V6 w z \<Rightarrow> in6 0xFE800000000000000000000000000000 10 w)"

definition IsUnspecified :: "ip_addr \<Rightarrow> bool" where
  "IsUnspecified a = (case a of V4 w \<Rightarrow> w = 0 | V6 w z \<Rightarrow> w = 0 \<and> z = [])"

definition IsMulticast :: "ip_addr \<Rightarrow> bool" where
  "IsMulticast a = (case a of
      V4 w \<Rightarrow> in4 0xE0000000 4 w
    | V6 w z \<Rightarrow> in6 0xFF000000000000000000000000000000 8 w)"

definition cgnat :: "ip_addr \<Rightarrow> bool" where
  "cgnat a = (case a of V4 w \<Rightarrow> in4 0x64400000 10 w | V6 w z \<Rightarrow> False)"

definition ClassifyIP :: "(string \<Rightarrow> ip_addr option) \<Rightarrow> string \<Rightarrow> ip_class" where
  "ClassifyIP parse s =
     (case parse (TrimSpace s) of
        None \<Rightarrow> IPInvalid
      | Some a0 \<Rightarrow>
          let a = Unmap a0
          in if IsLoopback a then IPLoopback
             else if cgnat a then IPCGNAT
             else if IsPrivate a \<or> IsLinkLocalUnicast a \<or> IsUnspecified a \<or> IsMulticast a then IPPrivate
             else IPPublic)"

section \<open>Round trips\<close>

lemma index_of_nth: "distinct xs \<Longrightarrow> n < length xs \<Longrightarrow> index_of (xs ! n) xs = Some n"
proof (induction xs arbitrary: n)
  case (Cons x xs)
  then show ?case by (cases n) auto
qed simp

lemma index_of_Some: "index_of c xs = Some n \<Longrightarrow> n < length xs \<and> xs ! n = c"
  by (induction xs arbitrary: n) (auto split: if_splits)

lemma alphabet_distinct: "distinct base64_alphabet" "length base64_alphabet = 64"
  by (simp_all add: base64_alphabet_def)

lemma unsextet_sextet [simp]: "n < 64 \<Longrightarrow> unsextet (sextet n) = Some n"
  by (simp add: unsextet_def sextet_def index_of_nth alphabet_distinct)

lemma sextet_plain: "n < 64 \<Longrightarrow> sextet n \<in> set base64_alphabet"
  by (simp add: sextet_def alphabet_distinct)

lemma alphabet_plain:
  "c \<in> set base64_alphabet \<Longrightarrow> c \<noteq> CHR ''='' \<and> c \<noteq> CHR 10 \<and> c \<noteq> CHR 13 \<and> \<not> is_space c"
  by (auto simp: base64_alphabet_def is_space_def)

lemma unat_byte: "unat (b :: byte) < 256"
  using unsigned_less [of b] by simp

lemma unsplit_bytes [simp]:
  fixes a b c :: byte
  shows "byte1 (unat a div 4) (unat a mod 4 * 16 + unat b div 16) = a"
    "byte1 (unat a div 4) (unat a mod 4 * 16) = a"
    "byte2 (unat a mod 4 * 16 + unat b div 16) (unat b mod 16 * 4 + unat c div 64) = b"
    "byte2 (unat a mod 4 * 16 + unat b div 16) (unat b mod 16 * 4) = b"
    "byte3 (unat b mod 16 * 4 + unat c div 64) (unat c mod 64) = c"
proof -
  have div: "(x mod 4 * 16 + y div 16) div 16 = x mod 4" "(x mod 4 * 16 + y div 16) mod 16 = y div 16"
    if "y < 256" for x y :: nat using that by (simp_all add: div_less_iff_less_mult)
  have "unat a div 4 * 4 + unat a mod 4 = unat a" by simp
  show "byte1 (unat a div 4) (unat a mod 4 * 16 + unat b div 16) = a"
    using div [OF unat_byte [of b], of "unat a"] by (simp add: byte1_def)
  show "byte1 (unat a div 4) (unat a mod 4 * 16) = a" by (simp add: byte1_def)
  have b: "(unat b mod 16 * 4 + unat c div 64) div 4 = unat b mod 16"
    "(unat b mod 16 * 4 + unat c div 64) mod 4 = unat c div 64"
    using unat_byte [of c] by (simp_all add: div_less_iff_less_mult)
  show "byte2 (unat a mod 4 * 16 + unat b div 16) (unat b mod 16 * 4 + unat c div 64) = b"
    using div [OF unat_byte [of b], of "unat a"] b by (simp add: byte2_def)
  show "byte2 (unat a mod 4 * 16 + unat b div 16) (unat b mod 16 * 4) = b"
    using div [OF unat_byte [of b], of "unat a"] by (simp add: byte2_def)
  show "byte3 (unat b mod 16 * 4 + unat c div 64) (unat c mod 64) = c"
    using b by (simp add: byte3_def)
qed

lemma sextet_bounds:
  fixes a b c :: byte
  shows "unat a div 4 < 64" "unat a mod 4 * 16 < 64" "unat a mod 4 * 16 + unat b div 16 < 64"
    "unat b mod 16 * 4 < 64" "unat b mod 16 * 4 + unat c div 64 < 64"
  using unat_byte [of a] unat_byte [of b] unat_byte [of c] by (auto simp: div_less_iff_less_mult)

lemma sextet_not_pad [simp]: "n < 64 \<Longrightarrow> sextet n \<noteq> CHR ''=''"
  using alphabet_plain sextet_plain by blast

lemma decode_encode: "decode_quanta (base64_EncodeToString bs) = Some bs"
  by (induction bs rule: base64_EncodeToString.induct) (simp_all add: sextet_bounds)

lemma encode_chars: "c \<in> set (base64_EncodeToString bs) \<Longrightarrow> c \<in> set base64_alphabet \<or> c = CHR ''=''"
  by (induction bs rule: base64_EncodeToString.induct) (auto simp: sextet_plain sextet_bounds)

lemma base64_plain: "c \<in> set (base64_EncodeToString bs) \<Longrightarrow> c \<noteq> CHR 10 \<and> c \<noteq> CHR 13 \<and> \<not> is_space c"
  using encode_chars [of c bs] alphabet_plain [of c] by (auto simp: is_space_def)

lemma base64_roundtrip: "base64_DecodeString (TrimSpace (base64_EncodeToString bs)) = Some bs"
proof -
  have "TrimSpace (base64_EncodeToString bs) = base64_EncodeToString bs"
    using base64_plain by (intro TrimSpace_plain) blast
  moreover have "filter (\<lambda>c. c \<noteq> CHR 10 \<and> c \<noteq> CHR 13) (base64_EncodeToString bs) = base64_EncodeToString bs"
    using base64_plain by (simp add: filter_id_conv)
  ultimately show ?thesis by (simp add: base64_DecodeString_def decode_encode)
qed

lemma length_encode: "length (base64_EncodeToString bs) = 4 * ((length bs + 2) div 3)"
proof (induction bs rule: base64_EncodeToString.induct)
  case (4 a b c bs)
  have "(length (a # b # c # bs) + 2) div 3 = Suc ((length bs + 2) div 3)" by simp
  with 4 show ?case by (simp del: length_Cons)
qed simp_all

lemma unhex_hex_digit: "unhex (hex_digit w) = Some (unat w mod 16)"
  using index_of_nth [of "''0123456789abcdef''" "unat w mod 16"] by (simp add: unhex_def hex_digit_def)

lemma hex_digit_plain: "\<not> is_space (hex_digit w)"
proof -
  have "hex_digit w \<in> set ''0123456789abcdef''" unfolding hex_digit_def by (rule nth_mem) simp
  then show ?thesis by (auto simp: is_space_def)
qed

lemma nibbles: "of_nat (unat (drop_bit 4 b) mod 16 * 16 + unat b mod 16) = (b :: byte)"
proof -
  have "unat (drop_bit 4 b) = unat b div 16"
    by (simp add: drop_bit_eq_div unat_div)
  moreover have "unat b div 16 < 16" using unat_byte [of b] by (simp add: div_less_iff_less_mult)
  ultimately show ?thesis by simp
qed

lemma hex_roundtrip: "hex_DecodeString (TrimSpace (hex_encode bs)) = Some bs"
proof -
  have "hex_DecodeString (hex_encode bs) = Some bs"
    by (induction bs) (simp_all add: hex_encode_def unhex_hex_digit nibbles del: of_nat_add of_nat_mult)
  moreover have "TrimSpace (hex_encode bs) = hex_encode bs"
    by (intro TrimSpace_plain) (auto simp: hex_encode_def hex_digit_plain)
  ultimately show ?thesis by simp
qed

text \<open>
  C29. Keys survive both of their text forms: printing a key as base64 (44 characters) or as
  hexadecimal (64 characters) and parsing the result gives the key back, and nothing but 32 bytes is
  ever accepted as a key.
\<close>

theorem wg_key_roundtrip:
  assumes "length k = 32"
  shows "ParseWGKey (WGKey_String k) = Inr k \<and> length (WGKey_String k) = 44 \<and>
         ParseWGKeyHex (WGKey_Hex k) = Inr k \<and> length (WGKey_Hex k) = 64 \<and>
         (\<forall>s k'. ParseWGKey s = Inr k' \<or> ParseWGKeyHex s = Inr k' \<longrightarrow> length k' = 32)"
proof -
  have "length (WGKey_Hex k) = 64"
    using assms by (simp add: WGKey_Hex_def hex_encode_def length_concat o_def sum_list_triv)
  then show ?thesis
    using assms base64_roundtrip [of k] hex_roundtrip [of k] length_encode [of k]
    by (auto simp: ParseWGKey_def ParseWGKeyHex_def WGKey_String_def WGKey_Hex_def split: option.splits if_splits)
qed

theorem wg_key_roundtrip_witness:
  "ParseWGKey (WGKey_String (replicate 32 255)) = Inr (replicate 32 255)"
  using wg_key_roundtrip [of "replicate 32 255"] by simp

end
