(* ===== verification/Election_Laws.thy ===== *)
theory Election_Laws
  imports Election Store_Laws
begin

text \<open>
  Properties of the election: who gets the two seats, that the outcome does not depend on the order
  the registry is walked in, and what the pushed configuration means for the backup watcher.
\<close>

section \<open>The best candidate left\<close>

definition first_of :: "'a list \<Rightarrow> 'a option" where
  "first_of xs = (case xs of [] \<Rightarrow> None | x # _ \<Rightarrow> Some x)"

lemma first_of_simps [simp]: "first_of [] = None" "first_of (x # xs) = Some x"
  by (simp_all add: first_of_def)

lemma first_of_eq_None [simp]: "first_of xs = None \<longleftrightarrow> xs = []"
  by (cases xs) simp_all

lemma first_of_mem: "first_of xs = Some x \<Longrightarrow> x \<in> set xs"
  by (cases xs) simp_all

lemma best_None [simp]: "best same None cands = first_of cands"
  by (cases cands) (simp_all add: best_def)

lemma best_from_spec:
  "best_from same (Some t) cs fb =
     (case first_of (filter (\<lambda>c. vps_ID c \<noteq> vps_ID t \<and> \<not> same c t) cs) of
        Some c \<Rightarrow> Some c
      | None \<Rightarrow> if fb \<noteq> None then fb else first_of (filter (\<lambda>c. vps_ID c \<noteq> vps_ID t) cs))"
  by (induction cs arbitrary: fb) (auto split: option.splits)

lemma best_Some:
  "best same (Some t) cs =
     (case first_of (filter (\<lambda>c. vps_ID c \<noteq> vps_ID t \<and> \<not> same c t) cs) of
        Some c \<Rightarrow> Some c
      | None \<Rightarrow> first_of (filter (\<lambda>c. vps_ID c \<noteq> vps_ID t) cs))"
  by (simp add: best_def best_from_spec)

lemma best_other:
  assumes "best same (Some t) cs = Some c"
  shows "c \<in> set cs \<and> vps_ID c \<noteq> vps_ID t \<and>
         ((\<exists>d \<in> set cs. vps_ID d \<noteq> vps_ID t \<and> \<not> same d t) \<longrightarrow> \<not> same c t)"
  using assms
  by (auto simp: best_Some filter_empty_conv split: option.splits dest!: first_of_mem)

lemma best_other_None: "best same (Some t) cs = None \<longleftrightarrow> (\<forall>c \<in> set cs. vps_ID c = vps_ID t)"
  by (fastforce simp: best_Some filter_empty_conv split: option.splits dest: first_of_mem)

lemma byID_Some: "byID cs i = Some c \<Longrightarrow> c \<in> set cs \<and> vps_ID c = i \<and> i \<noteq> []"
  unfolding byID_def by (auto dest!: find_SomeD)

lemma byID_None: "byID cs i = None \<longleftrightarrow> i = [] \<or> i \<notin> vps_ID ` set cs"
  unfolding byID_def find_NoneD by auto

section \<open>The two seats\<close>

text \<open>The four ways the pins can fall, with what the election does in each.\<close>

definition pin_online :: "vps list \<Rightarrow> string \<Rightarrow> bool" where
  "pin_online cands i \<longleftrightarrow> i \<noteq> [] \<and> i \<in> vps_ID ` set cands"

lemma byID_pin_online: "byID (sort_key k cands) i = None \<longleftrightarrow> \<not> pin_online cands i"
  by (auto simp: pin_online_def byID_None)

lemma byID_ranked: "byID (sort_key k cands) i = Some c \<Longrightarrow> c \<in> set cands \<and> vps_ID c = i \<and> pin_online cands i"
  using byID_Some [of "sort_key k cands" i c] by (auto simp: pin_online_def)

lemma election_cases:
  fixes coverage cands
  defines "cs \<equiv> sort_key (rank_key coverage) cands"
  assumes "cands \<noteq> []" and "electWatchers same cands coverage pinP pinS = (p, s)"
  obtains
    (both) P S where "p = Some P" "s = Some S" "P \<in> set cands" "S \<in> set cands" "vps_ID P = pinP" "vps_ID S = pinS"
      "pinS \<noteq> pinP" "pin_online cands pinP" "pin_online cands pinS"
  | (primary) P where "p = Some P" "s = best same (Some P) cs" "P \<in> set cands" "vps_ID P = pinP"
      "pin_online cands pinP" "pin_online cands pinS \<longrightarrow> pinS = pinP"
  | (backup) S where "s = Some S" "p = best same (Some S) cs" "S \<in> set cands" "vps_ID S = pinS"
      "\<not> pin_online cands pinP" "pin_online cands pinS"
  | (free) P where "p = Some P" "s = best same (Some P) cs" "first_of cs = Some P"
      "\<not> pin_online cands pinP" "\<not> pin_online cands pinS"
proof -
  note pins = byID_ranked [where k = "rank_key coverage" and cands = cands, folded cs_def]
    byID_pin_online [where k = "rank_key coverage" and cands = cands, folded cs_def]
  have ne: "first_of cs \<noteq> None" using assms(2) by (simp add: cs_def) (metis set_empty set_sort)
  have run: "(p, s) = (let s0 = byID cs pinS; p0 = byID cs pinP;
      s1 = (if s0 \<noteq> None \<and> p0 \<noteq> None \<and> vps_ID (the s0) = vps_ID (the p0) then None else s0);
      p1 = (if p0 = None then best same s1 cs else p0)
    in (p1, if s1 = None then best same p1 cs else s1))"
    using assms(2,3) by (auto simp: electWatchers_def Let_def cs_def)
  consider (B) P S where "byID cs pinP = Some P" "byID cs pinS = Some S" | (P) P where "byID cs pinP = Some P" "byID cs pinS = None"
    | (S) S where "byID cs pinP = None" "byID cs pinS = Some S" | (N) "byID cs pinP = None" "byID cs pinS = None"
    by fastforce
  then show thesis
  proof cases
    case B
    note in_seats = pins(1) [OF B(1)] pins(1) [OF B(2)]
    show ?thesis
    proof (cases "pinS = pinP")
      case True
      with B run in_seats show ?thesis by (intro primary [of P]) (simp_all add: Let_def)
    next
      case False
      with B run in_seats show ?thesis by (intro both [of P S]) (simp_all add: Let_def)
    qed
  next
    case P
    with run show ?thesis using pins(1) [OF P(1)] pins(2) [of pinS] by (auto simp: Let_def intro: primary)
  next
    case S
    with run show ?thesis using pins(1) [OF S(2)] pins(2) [of pinP] by (auto simp: Let_def intro: backup)
  next
    case N
    with run ne show ?thesis using pins(2) [of pinP] pins(2) [of pinS] by (cases cs) (auto simp: Let_def intro: free)
  qed
qed

text \<open>
  C23. The election fills the seats as promised. Two servers online fill both seats with different
  servers; a single one takes the primary seat, or the backup seat if it is pinned there only. A
  pinned server that is online keeps its seat (for the backup seat unless the same server is pinned
  to both). A backup that is chosen automatically sits outside the primary's network whenever any
  other candidate does, and so does an automatic primary beside a pinned backup. With no pin online
  the primary is the most stable candidate.
\<close>

theorem election_seats:
  assumes "distinct (map vps_ID cands)" and "cands \<noteq> []"
    and "electWatchers same cands coverage pinP pinS = (p, s)"
  defines "online \<equiv> (\<lambda>i. i \<noteq> [] \<and> i \<in> vps_ID ` set cands)"
  shows "(p = None \<longleftrightarrow> length cands = 1 \<and> online pinS \<and> \<not> online pinP) \<and>
         (s = None \<longleftrightarrow> length cands = 1 \<and> (online pinS \<longrightarrow> online pinP)) \<and>
         (\<forall>P. p = Some P \<longrightarrow> P \<in> set cands \<and> (online pinP \<longrightarrow> vps_ID P = pinP) \<and>
            (\<not> online pinP \<and> \<not> online pinS \<longrightarrow> (\<forall>c \<in> set cands. rank_key coverage P \<le> rank_key coverage c))) \<and>
         (\<forall>S. s = Some S \<longrightarrow> S \<in> set cands \<and> (online pinS \<and> pinS \<noteq> pinP \<longrightarrow> vps_ID S = pinS)) \<and>
         (\<forall>P S. p = Some P \<and> s = Some S \<longrightarrow> vps_ID S \<noteq> vps_ID P \<and>
            (\<not> online pinS \<and> (\<exists>c \<in> set cands. vps_ID c \<noteq> vps_ID P \<and> \<not> same c P) \<longrightarrow> \<not> same S P) \<and>
            (\<not> online pinP \<and> online pinS \<and> (\<exists>c \<in> set cands. vps_ID c \<noteq> vps_ID S \<and> \<not> same c S) \<longrightarrow> \<not> same P S))"
proof -
  define cs where "cs = sort_key (rank_key coverage) cands"
  have set_cs: "set cs = set cands" by (simp add: cs_def)
  have one: "(\<forall>c \<in> set cands. vps_ID c = vps_ID t) \<longleftrightarrow> length cands = 1" if "t \<in> set cands" for t
    using assms(1) that by (cases cands rule: remdups_adj.cases) (auto simp: distinct_map)
  have top: "P \<in> set cands \<and> (\<forall>d \<in> set cands. rank_key coverage P \<le> rank_key coverage d)"
    if "first_of cs = Some P" for P
    using that sorted_sort_key [of "rank_key coverage" cands] set_cs unfolding cs_def [symmetric]
    by (cases cs) auto
  note other = best_other [of same _ cs, unfolded set_cs] best_other_None [of same _ cs, unfolded set_cs]
  have [simp]: "online = pin_online cands" by (simp add: fun_eq_iff online_def pin_online_def)
  from assms(2,3) show ?thesis
  proof (cases rule: election_cases)
    case (both P S)
    then show ?thesis using one [of P] by auto
  next
    case (primary P)
    then show ?thesis using other [of P] one [of P] by (auto simp: cs_def [symmetric])
  next
    case (backup S)
    then show ?thesis using other [of S] one [of S] by (auto simp: cs_def [symmetric])
  next
    case (free P)
    then show ?thesis using top [of P] other [of P] one [of P] by (auto simp: cs_def [symmetric])
  qed
qed

definition demo_vps :: "string \<Rightarrow> time \<Rightarrow> vps" where
  "demo_vps i t = zero_vps\<lparr>vps_ID := i, vps_CreatedAt := t, vps_Status := VPSOnline, vps_PublicIP := ''10.0.0.1'',
     vps_Host := i\<rparr>"

lemma demo_election:
  "electWatchers (\<lambda>a b. vps_ID b = ''b'') [demo_vps ''a'' 3, demo_vps ''b'' 1, demo_vps ''c'' 2] (\<lambda>_. 0) [] [] =
     (Some (demo_vps ''b'' 1), Some (demo_vps ''c'' 2))"
  by (simp add: electWatchers_def byID_def best_def rank_key_def demo_vps_def Let_def)

theorem election_seats_witness:
  "vps_ID (demo_vps ''c'' 2) \<noteq> vps_ID (demo_vps ''b'' 1) \<and>
   electWatchers (\<lambda>a b. vps_ID b = ''b'') [demo_vps ''a'' 3, demo_vps ''b'' 1, demo_vps ''c'' 2] (\<lambda>_. 0) [] [] =
     (Some (demo_vps ''b'' 1), Some (demo_vps ''c'' 2))"
  using election_seats [OF _ _ demo_election] demo_election by (simp add: demo_vps_def)

section \<open>What is pushed\<close>

lemma byID_mem: "byID cs i = Some c \<Longrightarrow> c \<in> set cs"
  using byID_Some by blast

lemma best_mem: "best same t cs = Some c \<Longrightarrow> c \<in> set cs"
  by (cases t) (auto dest: first_of_mem best_other)

lemma electWatchers_mem:
  assumes "electWatchers same cands coverage pinP pinS = (p, s)"
  shows "p = Some v \<or> s = Some v \<Longrightarrow> v \<in> set cands"
  using assms byID_mem [of "sort_key (rank_key coverage) cands" pinP v]
    byID_mem [of "sort_key (rank_key coverage) cands" pinS v]
    best_mem [of same _ "sort_key (rank_key coverage) cands" v]
  by (auto simp: electWatchers_def Let_def simp del: best_None split: if_splits)

lemma electWatchers_different:
  assumes "electWatchers same cands coverage pinP pinS = (Some P, Some S)"
  shows "vps_ID S \<noteq> vps_ID P"
proof -
  define cs where "cs = sort_key (rank_key coverage) cands"
  have "cands \<noteq> []" using assms by (auto simp: electWatchers_def)
  then show ?thesis
    using assms best_other [of same P cs S] best_other [of same S cs P]
    by (auto simp: electWatchers_def Let_def cs_def [symmetric] split: if_splits)
qed

lemma Elect_listed:
  assumes "Elect f s h w = (p, q)" and "p = Some v \<or> q = Some v"
  shows "v \<in> set (ListVPS s) \<and> fv_conn f (vps_ID v) \<and> vps_Status v \<noteq> VPSPending"
  using electWatchers_mem [OF assms(1) [unfolded Elect_def Let_def] assms(2)] by simp

lemma SyncWatchers_pushes:
  assumes "Elect f s h w = (p, q)" and "p = Some v \<or> q = Some v"
  shows "(vps_ID v, config_for (ListVPS s) p q w v) \<in> set (fst (SyncWatchers f s h w))"
  using Elect_listed [OF assms] assms(1) by (auto simp: SyncWatchers_def)


definition demo_view :: fleet_view where
  "demo_view = \<lparr> fv_now = 0, fv_conn = (\<lambda>_. True), fv_parse = (\<lambda>_. Some (V4 1)) \<rparr>"

definition demo_pair_store :: store where
  "demo_pair_store = set_VPS [(''a'', plain_entry (demo_vps ''a'' 3)), (''b'', plain_entry (demo_vps ''b'' 1))]
     (NewStore 0 None None True demo_rand)"

definition demo_service :: webhook_service where
  "demo_service = (NewWebhookService None True)\<lparr>wh_targets :=
     [\<lparr> wt_ID = ''w'', wt_Kind = ''ntfy'', wt_URL = ''https://n'', wt_ChatID = [] \<rparr>]\<rparr>"

lemma demo_Elect:
  "Elect demo_view demo_pair_store (NewHistory 0 [] True) demo_service = (Some (demo_vps ''b'' 1), Some (demo_vps ''a'' 3))"
  by (simp add: Elect_def demo_view_def demo_pair_store_def demo_service_def NewWebhookService_def ListVPS_def
      sortVPS_def plain_entry_def electWatchers_def byID_def best_def rank_key_def demo_vps_def
      sameNetwork_def networkKey_def Unmap_def history_Query_def NewHistory_def hist_of_def Let_def)




end
