(* ===== verification/Registration.thy ===== *)
theory Registration
  imports Election_Laws
begin

text \<open>
  How an agent becomes a server of the panel: the register frame
  (\<^verbatim>\<open>src/backend/agent_register.go\<close>), the queue of agents that wait to be let back in
  (\<^verbatim>\<open>src/backend/rejoin.go\<close>) and the address an agent reports about itself (\<open>applyPublicIPGeo\<close> of
  \<^verbatim>\<open>src/backend/geoip.go\<close>).

  The record \<open>reg_env\<close> is what registration asks outside: which agents hold a socket, which
  addresses are loopback (\<open>net.ParseIP(ip).IsLoopback()\<close>), the name Tailscale gives an address, the
  place an address maps to, and \<open>netip.ParseAddrPort\<close> followed by \<open>Addr().String()\<close>. A result of
  \<open>None\<close> is a panic: \<open>ackFor\<close> of a server that was deleted meanwhile.
\<close>

section \<open>Waiting agents\<close>

record rejoin_request =
  rj_IP :: string
  rj_TailnetName :: string
  rj_VPSID :: string
  rj_Hostname :: string
  rj_AgentVersion :: string
  rj_FirstSeen :: time
  rj_LastSeen :: time
  rj_token :: string

record rejoin_queue =
  rj_pending :: "(string, rejoin_request) gomap"
  rj_refused :: "string set"

definition empty_queue :: rejoin_queue where
  "empty_queue = \<lparr> rj_pending = [], rj_refused = {} \<rparr>"

definition rejoinMax :: nat where "rejoinMax = 64"
abbreviation rejoinTTL :: duration where "rejoinTTL \<equiv> 3 * minute"

definition expireLocked :: "time \<Rightarrow> rejoin_queue \<Rightarrow> rejoin_queue" where
  "expireLocked now q =
     q\<lparr>rj_pending := filter (\<lambda>(ip, r). \<not> time_Sub now (rj_LastSeen r) > rejoinTTL) (rj_pending q)\<rparr>"

definition knock :: "time \<Rightarrow> rejoin_request \<Rightarrow> string \<Rightarrow> rejoin_queue \<Rightarrow> bool \<times> rejoin_queue" where
  "knock now req0 token q0 =
     (if rj_IP req0 \<in> rj_refused q0 then (False, q0)
      else
        let q = expireLocked now q0;
            req = req0\<lparr>rj_token := token, rj_LastSeen := now\<rparr>
        in case map_of (rj_pending q) (rj_IP req) of
             Some old \<Rightarrow>
               (rj_VPSID old \<noteq> rj_VPSID req \<or> rj_Hostname old \<noteq> rj_Hostname req,
                q\<lparr>rj_pending := map_put (rj_IP req) (req\<lparr>rj_FirstSeen := rj_FirstSeen old\<rparr>) (rj_pending q)\<rparr>)
           | None \<Rightarrow>
               if length (rj_pending q) \<ge> rejoinMax then (False, q)
               else (True, q\<lparr>rj_pending := map_put (rj_IP req) (req\<lparr>rj_FirstSeen := now\<rparr>) (rj_pending q)\<rparr>))"

definition rejoin_list :: "time \<Rightarrow> rejoin_queue \<Rightarrow> rejoin_request list \<times> rejoin_queue" where
  "rejoin_list now q0 =
     (let q = expireLocked now q0 in (sort_key rj_FirstSeen (map snd (rj_pending q)), q))"

definition rejoin_take :: "string \<Rightarrow> rejoin_queue \<Rightarrow> rejoin_request option \<times> rejoin_queue" where
  "rejoin_take ip q = (map_of (rj_pending q) ip, q\<lparr>rj_pending := map_del ip (rj_pending q)\<rparr>)"

definition refuse :: "string \<Rightarrow> rejoin_queue \<Rightarrow> bool \<times> rejoin_queue" where
  "refuse ip q =
     (map_of (rj_pending q) ip \<noteq> None,
      q\<lparr>rj_pending := map_del ip (rj_pending q), rj_refused := insert ip (rj_refused q)\<rparr>)"

section \<open>Applying a register frame\<close>

record register_request =
  rq_VPSID :: string
  rq_Hostname :: string
  rq_TailscaleName :: string
  rq_TailscaleIP :: string
  rq_PublicIP :: string
  rq_LanIP :: string
  rq_AgentVersion :: string
  rq_AgentDigest :: string
  rq_Arch :: string
  rq_AgentPort :: int

record register_response =
  rr_OK :: string
  rr_VPSID :: string
  rr_Token :: string

record geo_result =
  ge_Lat :: real
  ge_Lon :: real
  ge_Location :: string

record reg_env =
  rg_now :: time
  rg_conn :: "string \<Rightarrow> bool"
  rg_loopback :: "string \<Rightarrow> bool"
  rg_tailnetName :: "string \<Rightarrow> string"
  rg_geo :: "string \<Rightarrow> geo_result option"
  rg_addr :: "string \<Rightarrow> string option"

definition applyPublicIPGeo :: "reg_env \<Rightarrow> string \<Rightarrow> vps \<Rightarrow> vps" where
  "applyPublicIPGeo g publicIP0 v =
     (let publicIP = TrimSpace publicIP0 in
      if publicIP = [] then v
      else
        let needGeo = (vps_PublicIP v \<noteq> publicIP \<or> (vps_Latitude v = 0 \<and> vps_Longitude v = 0));
            v1 = v\<lparr>vps_PublicIP := publicIP\<rparr>
        in if \<not> needGeo then v1
           else case rg_geo g publicIP of
                  None \<Rightarrow> v1
                | Some geo \<Rightarrow>
                    let v2 = v1\<lparr>vps_Latitude := ge_Lat geo, vps_Longitude := ge_Lon geo\<rparr>
                    in if ge_Location geo \<noteq> [] then v2\<lparr>vps_Location := ge_Location geo\<rparr> else v2)"

definition applyAgentOnline :: "reg_env \<Rightarrow> register_request \<Rightarrow> string \<Rightarrow> string \<Rightarrow> vps_entry \<Rightarrow> vps_entry" where
  "applyAgentOnline g req host tsName e =
     (let v = (en_VPS e)\<lparr>vps_Status := VPSOnline, vps_LastSeen := rg_now g, vps_AgentVer := rq_AgentVersion req,
                vps_AgentDigest := rq_AgentDigest req\<rparr>;
          v1 = (if rq_Arch req \<noteq> [] then v\<lparr>vps_Arch := rq_Arch req\<rparr> else v);
          v2 = (if rq_AgentPort req > 0 then v1\<lparr>vps_AgentPort := rq_AgentPort req\<rparr> else v1);
          v3 = (if tsName \<noteq> [] then v2\<lparr>vps_TailscaleName := tsName\<rparr> else v2);
          v4 = (if host \<noteq> [] then v3\<lparr>vps_Host := host\<rparr> else v3);
          v5 = (if rq_LanIP req \<noteq> [] then v4\<lparr>vps_LanIP := rq_LanIP req\<rparr> else v4)
      in e\<lparr>en_Restart := None, en_VPS := applyPublicIPGeo g (rq_PublicIP req) v5\<rparr>)"

definition ackFor :: "vps_entry \<Rightarrow> register_response" where
  "ackFor e = \<lparr> rr_OK = ''registered'', rr_VPSID = vps_ID (en_VPS e), rr_Token = en_AgentToken e \<rparr>"

section \<open>The panel\<close>

datatype panel_event = PanelAction action_log | PanelRejoins "rejoin_request list" | PanelList "vps list"

record panel =
  pn_store :: store
  pn_rejoins :: rejoin_queue
  pn_out :: "panel_event list"

definition pn_send :: "panel_event \<Rightarrow> panel \<Rightarrow> panel" where
  "pn_send e p = p\<lparr>pn_out := pn_out p @ [e]\<rparr>"

definition logAction :: "time \<Rightarrow> vps \<Rightarrow> string \<Rightarrow> string \<Rightarrow> bool \<Rightarrow> panel \<Rightarrow> panel" where
  "logAction now v action detail ok p =
     (let (a, s) = AddAction now \<lparr> ac_ID = [], ac_VPSID = vps_ID v, ac_VPSName = vps_Name v, ac_Action = action,
                     ac_Detail = detail, ac_OK = ok, ac_CreatedAt = 0 \<rparr> (pn_store p)
      in pn_send (PanelAction a) (p\<lparr>pn_store := s\<rparr>))"

definition broadcastRejoin :: "time \<Rightarrow> panel \<Rightarrow> panel" where
  "broadcastRejoin now p =
     (let (rs, q) = rejoin_list now (pn_rejoins p) in pn_send (PanelRejoins rs) (p\<lparr>pn_rejoins := q\<rparr>))"

section \<open>The register frame\<close>

datatype reg_error = OverWireGuard | LetBackIn | NoMatch | UnknownToken

type_synonym reg_result = "(reg_error + vps_entry \<times> register_response) option"

text \<open>
  \<open>UpdateVPS\<close> with a callback that draws a token when \<open>needs\<close> says so; the draw happens before the
  entry is stored, and only if there is an entry.
\<close>

definition update_with_token ::
  "(string \<Rightarrow> (vps_entry \<Rightarrow> vps_entry) \<Rightarrow> store \<Rightarrow> vps_entry option \<times> store) \<Rightarrow> (vps_entry \<Rightarrow> bool) \<Rightarrow>
   string \<Rightarrow> (vps_entry \<Rightarrow> vps_entry) \<Rightarrow> store \<Rightarrow> vps_entry option \<times> store" where
  "update_with_token upd needs i f s =
     (case GetVPS i s of
        None \<Rightarrow> upd i f s
      | Some e \<Rightarrow>
          if needs e
          then let (tok, s1) = newToken s in upd i (\<lambda>e. f (e\<lparr>en_AgentToken := tok\<rparr>)) s1
          else upd i f s)"

definition acked :: "vps_entry option \<Rightarrow> panel \<Rightarrow> reg_result \<times> panel" where
  "acked e p = (case e of None \<Rightarrow> (None, p) | Some en \<Rightarrow> (Some (Inr (en, ackFor en)), p))"

text \<open>The entry an agent without a valid token may claim, and whether it is a reclaim.\<close>

definition find_claim :: "reg_env \<Rightarrow> string \<Rightarrow> string \<Rightarrow> string \<Rightarrow> store \<Rightarrow> vps_entry option \<times> bool" where
  "find_claim g host tsName remoteIP s =
     (case (if rg_loopback g remoteIP then FindPendingByTailscale tsName host s
            else FindPendingByTailscale (rg_tailnetName g remoteIP) remoteIP s) of
        Some e \<Rightarrow> (Some e, False)
      | None \<Rightarrow>
          (case FindByTailscale [] remoteIP s of
             None \<Rightarrow> (None, False)
           | Some e \<Rightarrow> if \<not> rg_conn g (vps_ID (en_VPS e)) then (Some e, True) else (None, False)))"

text \<open>Nothing to claim, and the identifier is unknown too.\<close>

definition register_unknown ::
  "reg_env \<Rightarrow> register_request \<Rightarrow> string \<Rightarrow> string \<Rightarrow> string \<Rightarrow> string \<Rightarrow> panel \<Rightarrow> reg_result \<times> panel" where
  "register_unknown g req host tsName remoteIP rawToken p =
     (if rawToken \<noteq> [] \<or> rq_VPSID req \<noteq> []
      then if rg_loopback g remoteIP
           then let (e, s1) = AdoptVPS (rg_now g) (rq_VPSID req) rawToken (rq_Hostname req) host
                                tsName (rq_AgentVersion req) (pn_store p);
                    (updated, s2) = UpdateVPS (vps_ID (en_VPS e)) (applyAgentOnline g req host tsName) s1
                in (case updated of
                      None \<Rightarrow> (None, p\<lparr>pn_store := s2\<rparr>)
                    | Some en \<Rightarrow> acked updated (logAction (rg_now g) (en_VPS en) ''vps_adopt''
                        ''Agent re-adopted with existing credentials'' True (p\<lparr>pn_store := s2\<rparr>)))
           else
             let (changed, q) = knock (rg_now g)
                   \<lparr> rj_IP = remoteIP, rj_TailnetName = rg_tailnetName g remoteIP,
                     rj_VPSID = rq_VPSID req, rj_Hostname = rq_Hostname req,
                     rj_AgentVersion = rq_AgentVersion req, rj_FirstSeen = 0, rj_LastSeen = 0,
                     rj_token = [] \<rparr> rawToken (pn_rejoins p);
                 p1 = p\<lparr>pn_rejoins := q\<rparr>
             in (Some (Inl LetBackIn), if changed then broadcastRejoin (rg_now g) p1 else p1)
      else (Some (Inl NoMatch), p))"

text \<open>The claimed entry goes online, with a new token unless it keeps one.\<close>

definition register_claimed ::
  "reg_env \<Rightarrow> register_request \<Rightarrow> string \<Rightarrow> string \<Rightarrow> vps_entry \<Rightarrow> bool \<Rightarrow> panel \<Rightarrow> reg_result \<times> panel" where
  "register_claimed g req host tsName e reclaim p =
     (let (updated, s1) = update_with_token UpdateVPS (\<lambda>e. en_AgentToken e = [] \<or> reclaim)
                            (vps_ID (en_VPS e)) (applyAgentOnline g req host tsName) (pn_store p)
      in case updated of
           None \<Rightarrow> (None, p\<lparr>pn_store := s1\<rparr>)
         | Some en \<Rightarrow> acked updated (logAction (rg_now g) (en_VPS en) ''vps_register''
             ''Agent connected via WebSocket'' True (p\<lparr>pn_store := s1\<rparr>)))"

definition registerAgent ::
  "reg_env \<Rightarrow> register_request \<Rightarrow> string \<Rightarrow> string \<Rightarrow> vps_entry option \<Rightarrow> panel \<Rightarrow> reg_result \<times> panel" where
  "registerAgent g req remoteIP rawToken tokenEntry p =
     (let host = (if rq_TailscaleIP req = [] then remoteIP else rq_TailscaleIP req);
          tsName = (if rq_TailscaleName req = [] then rq_Hostname req else rq_TailscaleName req);
          s = pn_store p
      in case tokenEntry of
           Some te \<Rightarrow>
             let fn = (if IsWireGuard (en_VPS te) then applyAgentOnline g req [] []
                       else applyAgentOnline g req host tsName);
                 (updated, s1) = UpdateVPS (vps_ID (en_VPS te)) fn s
             in acked updated (p\<lparr>pn_store := s1\<rparr>)
         | None \<Rightarrow>
             let known = (rq_VPSID req \<noteq> [] \<and> GetVPS (rq_VPSID req) s \<noteq> None)
             in if known \<and> IsWireGuard (en_VPS (the (GetVPS (rq_VPSID req) s)))
                then (Some (Inl OverWireGuard), p)
                else case find_claim g host tsName remoteIP s of
                       (Some e, reclaim) \<Rightarrow> register_claimed g req host tsName e reclaim p
                     | (None, _) \<Rightarrow>
                         if \<not> known then register_unknown g req host tsName remoteIP rawToken p
                         else (Some (Inl UnknownToken), p))"

text \<open>The callback of \<open>registerPinnedAgent\<close>, and whether it sets \<open>first\<close>.\<close>

definition pin_entry :: "reg_env \<Rightarrow> register_request \<Rightarrow> vps_entry \<Rightarrow> vps_entry" where
  "pin_entry g req e0 =
     (let e1 = applyAgentOnline g req [] [] (e0\<lparr>en_WGAgentKey := []\<rparr>);
          v = (en_VPS e1)\<lparr>vps_Transport := TransportWireGuard\<rparr>;
          v1 = (case rg_addr g (vps_WGEndpoint v) of Some h \<Rightarrow> v\<lparr>vps_Host := h\<rparr> | None \<Rightarrow> v)
      in e1\<lparr>en_VPS := v1\<rparr>)"

definition pin_first :: "vps_entry \<Rightarrow> bool" where
  "pin_first e \<longleftrightarrow> en_WGAgentKey e \<noteq> [] \<or> \<not> IsWireGuard (en_VPS e)"

definition registerPinnedAgent :: "reg_env \<Rightarrow> register_request \<Rightarrow> string \<Rightarrow> panel \<Rightarrow> reg_result \<times> panel" where
  "registerPinnedAgent g req vpsID p =
     (let first = (case GetVPS vpsID (pn_store p) of None \<Rightarrow> False | Some e \<Rightarrow> pin_first e);
          (updated, s1) = update_with_token UpdateVPSNow (\<lambda>e. en_AgentToken e = []) vpsID (pin_entry g req) (pn_store p);
          p1 = p\<lparr>pn_store := s1\<rparr>
      in case updated of
           None \<Rightarrow> (Some (Inl NoMatch), p1)
         | Some e \<Rightarrow>
             acked updated (if first then logAction (rg_now g) (en_VPS e) ''vps_register''
                                            ''Agent connected via WireGuard'' True p1 else p1))"

section \<open>Letting back in and turning away\<close>

datatype rejoin_reply = NoSuchRequest | AlreadyKnown | LetIn vps | ApprovePanics

definition handleApproveRejoin :: "time \<Rightarrow> string \<Rightarrow> panel \<Rightarrow> rejoin_reply \<times> panel" where
  "handleApproveRejoin now ip p =
     (let (taken, q) = rejoin_take ip (pn_rejoins p);
          p1 = p\<lparr>pn_rejoins := q\<rparr>
      in case taken of
           None \<Rightarrow> (NoSuchRequest, p1)
         | Some req \<Rightarrow>
             if rj_VPSID req \<noteq> [] \<and> GetVPS (rj_VPSID req) (pn_store p1) \<noteq> None
             then (AlreadyKnown, broadcastRejoin now p1)
             else
               let name = (if rj_TailnetName req = [] then rj_Hostname req else rj_TailnetName req);
                   (e, s1) = AdoptVPS now (rj_VPSID req) (rj_token req) (rj_Hostname req) (rj_IP req) name
                               (rj_AgentVersion req) (pn_store p1);
                   (updated, s2) = UpdateVPS (vps_ID (en_VPS e))
                                     (\<lambda>e. e\<lparr>en_VPS := (en_VPS e)\<lparr>vps_Status := VPSPending\<rparr>\<rparr>) s1
               in case updated of
                    None \<Rightarrow> (ApprovePanics, p1\<lparr>pn_store := s2\<rparr>)
                  | Some en \<Rightarrow>
                      let p2 = logAction now (en_VPS en) ''vps_adopt'' (''Agent let back in from '' @ rj_IP req) True
                                 (p1\<lparr>pn_store := s2\<rparr>);
                          p3 = pn_send (PanelList (ListVPS (pn_store p2))) p2
                      in (LetIn (en_VPS en), broadcastRejoin now p3))"

definition handleRefuseRejoin :: "time \<Rightarrow> string \<Rightarrow> panel \<Rightarrow> bool \<times> panel" where
  "handleRefuseRejoin now ip p =
     (let (was, q) = refuse ip (pn_rejoins p);
          p1 = p\<lparr>pn_rejoins := q\<rparr>
      in if was then (True, broadcastRejoin now p1) else (False, p1))"

end
