(* ===== verification/Registration_Laws.thy ===== *)
theory Registration_Laws
  imports Registration
begin

text \<open>
  Properties of registration: who may become which server, that a refusal leaves the registry alone,
  what happens when the server is deleted in between, and the queue of waiting agents.
\<close>

section \<open>What applying a frame keeps\<close>

lemma applyPublicIPGeo_ID [simp]: "vps_ID (applyPublicIPGeo g ip v) = vps_ID v"
  by (simp add: applyPublicIPGeo_def Let_def split: option.split)

lemma applyAgentOnline_keeps [simp]:
  "vps_ID (en_VPS (applyAgentOnline g req h n e)) = vps_ID (en_VPS e)"
  "en_AgentToken (applyAgentOnline g req h n e) = en_AgentToken e"
  "en_WGAgentKey (applyAgentOnline g req h n e) = en_WGAgentKey e"
  by (simp_all add: applyAgentOnline_def Let_def)

lemma find_entry_found:
  assumes "store_wf s" and "find_entry P s = Some e"
  shows "P e \<and> GetVPS (vps_ID (en_VPS e)) s = Some e"
proof -
  obtain k where k: "(k, e) \<in> set (st_VPS s)" and "P e"
    using find_SomeD [OF assms(2) [unfolded find_entry_def]] by auto
  moreover have "vps_ID (en_VPS e) = k" using assms(1) k by (rule store_wf_key)
  ultimately show ?thesis
    using gomap_lookup_iff [OF store_wf_gomap [OF assms(1)]] by (simp add: GetVPS_def)
qed

lemma st_VPS_newToken [simp]: "st_state (snd (newToken s)) = st_state s"
  by (simp add: newToken_def)

lemma update_with_token_result:
  assumes "GetVPS i s = Some e" and "needs e"
  shows "fst (update_with_token UpdateVPS needs i f s) = Some (f (e\<lparr>en_AgentToken := fst (newToken s)\<rparr>))"
  using assms by (simp add: update_with_token_def UpdateVPS_def GetVPS_def split_def Let_def)

section \<open>Who may become which server\<close>

text \<open>The entry an agent without a valid token is matched with.\<close>

definition claims_by_address :: "reg_env \<Rightarrow> string \<Rightarrow> vps_entry \<Rightarrow> bool" where
  "claims_by_address g ip e \<longleftrightarrow> \<not> IsWireGuard (en_VPS e) \<and>
     ((en_AgentToken e = [] \<and> tailscale_match (rg_tailnetName g ip) ip e) \<or>
      (ip \<noteq> [] \<and> vps_Host (en_VPS e) = ip \<and> \<not> rg_conn g (vps_ID (en_VPS e))))"

lemma find_claim_remote:
  assumes "store_wf s" and "\<not> rg_loopback g ip" and "find_claim g host n ip s = (Some e, reclaim)"
  shows "GetVPS (vps_ID (en_VPS e)) s = Some e \<and> claims_by_address g ip e \<and> (en_AgentToken e = [] \<or> reclaim)"
proof (cases "FindPendingByTailscale (rg_tailnetName g ip) ip s")
  case None
  then have "FindByTailscale [] ip s = Some e" "\<not> rg_conn g (vps_ID (en_VPS e))" reclaim
    using assms(2,3) by (auto simp: find_claim_def split: option.splits if_splits)
  then show ?thesis
    using find_entry_found [OF assms(1), of _ e]
    by (fastforce simp: FindByTailscale_def claims_by_address_def tailscale_match_def)
next
  case (Some e')
  then have "FindPendingByTailscale (rg_tailnetName g ip) ip s = Some e"
    using assms(2,3) by (simp add: find_claim_def)
  then show ?thesis
    using find_entry_found [OF assms(1), of _ e]
    by (fastforce simp: FindPendingByTailscale_def claims_by_address_def)
qed

lemma register_unknown_remote:
  assumes "\<not> rg_loopback g ip"
  shows "\<exists>err. fst (register_unknown g req host n ip tok p) = Some (Inl err) \<and>
               pn_store (snd (register_unknown g req host n ip tok p)) = pn_store p"
  using assms by (simp add: register_unknown_def Let_def split_def broadcastRejoin_def pn_send_def)

lemma logAction_registry [simp]: "GetVPS j (pn_store (logAction now v a d ok p)) = GetVPS j (pn_store p)"
  by (simp add: logAction_def AddAction_def newID_def GetVPS_def pn_send_def split_def Let_def)

lemma GetVPS_newToken [simp]: "GetVPS j (snd (newToken s)) = GetVPS j s"
  by (simp add: GetVPS_def)

text \<open>An update that draws a token first changes only the entry it is for.\<close>

lemma update_with_token_others:
  assumes "\<And>j i f s. j \<noteq> i \<Longrightarrow> GetVPS j (snd (upd i f s)) = GetVPS j s"
  shows "j \<noteq> i \<Longrightarrow> GetVPS j (snd (update_with_token upd needs i f s)) = GetVPS j s"
  using assms by (simp add: update_with_token_def split_def Let_def split: option.split)

lemma register_claimed_result:
  assumes "GetVPS (vps_ID (en_VPS e)) (pn_store p) = Some e" and "en_AgentToken e = [] \<or> reclaim"
  shows "\<exists>en. fst (register_claimed g req host n e reclaim p) = Some (Inr (en, ackFor en)) \<and>
              vps_ID (en_VPS en) = vps_ID (en_VPS e) \<and> en_AgentToken en = fst (newToken (pn_store p)) \<and>
              (\<forall>j. j \<noteq> vps_ID (en_VPS e) \<longrightarrow>
                 GetVPS j (pn_store (snd (register_claimed g req host n e reclaim p))) = GetVPS j (pn_store p))"
  using update_with_token_result [OF assms(1), of "\<lambda>e. en_AgentToken e = [] \<or> reclaim"
      "applyAgentOnline g req host n"] assms(2)
    update_with_token_others [of UpdateVPS, OF reg.get_upd [THEN trans, OF if_not_P]]
  by (simp add: register_claimed_def split_def Let_def acked_def)

lemma registerAgent_remote:
  assumes "store_wf (pn_store p)" and "\<not> rg_loopback g ip"
    and "registerAgent g req ip tok None p = (r, p')"
  shows "(\<exists>err. r = Some (Inl err) \<and> pn_store p' = pn_store p) \<or>
         (\<exists>en e0. r = Some (Inr (en, ackFor en)) \<and> GetVPS (vps_ID (en_VPS en)) (pn_store p) = Some e0 \<and>
            claims_by_address g ip e0 \<and> en_AgentToken en = fst (newToken (pn_store p)) \<and>
            (\<forall>j. j \<noteq> vps_ID (en_VPS en) \<longrightarrow> GetVPS j (pn_store p') = GetVPS j (pn_store p)))"
proof -
  define host where "host = (if rq_TailscaleIP req = [] then ip else rq_TailscaleIP req)"
  define name where "name = (if rq_TailscaleName req = [] then rq_Hostname req else rq_TailscaleName req)"
  define known where "known \<longleftrightarrow> rq_VPSID req \<noteq> [] \<and> GetVPS (rq_VPSID req) (pn_store p) \<noteq> None"
  define wg where "wg \<longleftrightarrow> known \<and> IsWireGuard (en_VPS (the (GetVPS (rq_VPSID req) (pn_store p))))"
  obtain claim reclaim where claim: "find_claim g host name ip (pn_store p) = (claim, reclaim)" by fastforce
  have run: "(r, p') = (if wg then (Some (Inl OverWireGuard), p)
      else case claim of
             Some e \<Rightarrow> register_claimed g req host name e reclaim p
           | None \<Rightarrow> if \<not> known then register_unknown g req host name ip tok p else (Some (Inl UnknownToken), p))"
    using assms(3) unfolding registerAgent_def Let_def option.case host_def [symmetric] name_def [symmetric]
      known_def [symmetric] wg_def [symmetric] claim
    by (cases claim; cases wg; cases known) simp_all
  show ?thesis
  proof (cases "wg \<or> claim = None")
    case True
    have "\<exists>err. fst (register_unknown g req host name ip tok p) = Some (Inl err) \<and>
        pn_store (snd (register_unknown g req host name ip tok p)) = pn_store p"
      by (rule register_unknown_remote [OF assms(2)])
    with run True have "\<exists>err. fst (r, p') = Some (Inl err) \<and> pn_store (snd (r, p')) = pn_store p"
      by (cases wg; cases known) simp_all
    then show ?thesis by simp
  next
    case False
    then obtain e where e: "claim = Some e" by blast
    note remote = find_claim_remote [OF assms(1,2) claim [unfolded e]]
    from remote register_claimed_result [of e p reclaim g req host name]
    obtain en where "fst (register_claimed g req host name e reclaim p) = Some (Inr (en, ackFor en))"
      "vps_ID (en_VPS en) = vps_ID (en_VPS e)" "en_AgentToken en = fst (newToken (pn_store p))"
      "\<forall>j. j \<noteq> vps_ID (en_VPS e) \<longrightarrow>
         GetVPS j (pn_store (snd (register_claimed g req host name e reclaim p))) = GetVPS j (pn_store p)" by blast
    moreover have "r = fst (register_claimed g req host name e reclaim p)"
      "p' = snd (register_claimed g req host name e reclaim p)"
      using run False e by (metis fst_conv snd_conv option.simps(5))+
    ultimately show ?thesis using remote by auto
  qed
qed


definition demo_reg :: reg_env where
  "demo_reg = \<lparr> rg_now = 9, rg_conn = (\<lambda>_. False), rg_loopback = (\<lambda>ip. ip = ''127.0.0.1''),
     rg_tailnetName = (\<lambda>_. []), rg_geo = (\<lambda>_. None), rg_addr = (\<lambda>_. None) \<rparr>"

definition demo_request :: "string \<Rightarrow> register_request" where
  "demo_request i = \<lparr> rq_VPSID = i, rq_Hostname = ''web'', rq_TailscaleName = [], rq_TailscaleIP = [],
     rq_PublicIP = [], rq_LanIP = [], rq_AgentVersion = ''2.2'', rq_AgentDigest = [], rq_Arch = [], rq_AgentPort = 0 \<rparr>"

definition demo_panel :: panel where
  "demo_panel = \<lparr> pn_store = snd (CreateVPS 5 ''web'' ''web'' ''100.64.0.2'' (NewStore 0 None None True demo_rand)),
     pn_rejoins = empty_queue, pn_out = [] \<rparr>"

lemma demo_panel_wf: "store_wf (pn_store demo_panel)"
proof -
  have "store_wf (NewStore 0 None None True demo_rand)" by (intro NewStore_wf) simp
  then show ?thesis
    unfolding demo_panel_def by (auto intro: store_run_wf r_into_rtranclp store_step.create)
qed


text \<open>
  A register frame whose token was looked up when the socket opened makes its handler panic if
  the server was deleted in between: the update finds nothing, and the acknowledgement of nothing is
  a nil dereference.
\<close>

lemma registration_of_deleted_server_panics:
  assumes "GetVPS (vps_ID (en_VPS te)) (pn_store p) = None"
  shows "fst (registerAgent g req ip tok (Some te) p) = None"
  using assms by (simp add: registerAgent_def UpdateVPS_def GetVPS_def acked_def Let_def split_def)

section \<open>The waiting agents\<close>

inductive rejoin_step :: "rejoin_queue \<Rightarrow> rejoin_queue \<Rightarrow> bool" where
  knocking: "rejoin_step q (snd (knock now req token q))"
| listing: "rejoin_step q (snd (rejoin_list now q))"
| taking: "rejoin_step q (snd (rejoin_take ip q))"
| refusing: "rejoin_step q (snd (refuse ip q))"

definition queue_ok :: "rejoin_queue \<Rightarrow> bool" where
  "queue_ok q \<longleftrightarrow> gomap_ok (rj_pending q) \<and> length (rj_pending q) \<le> rejoinMax \<and>
     (\<forall>(ip, r) \<in> set (rj_pending q). rj_IP r = ip \<and> ip \<notin> rj_refused q)"

lemma lookup_filter:
  "gomap_ok m \<Longrightarrow> map_of (filter P m) k = (case map_of m k of None \<Rightarrow> None | Some v \<Rightarrow> if P (k, v) then Some v else None)"
proof (induction m)
  case (Cons a m)
  then have "gomap_ok m" "fst a \<notin> fst ` set m" by (auto simp: gomap_ok_def)
  moreover from this(2) have "map_of m (fst a) = None" by (simp add: map_of_eq_None_iff)
  ultimately show ?case using Cons.IH by (cases a) (auto split: option.splits)
qed simp

lemma length_map_put: "length (map_put k v m) = (if k \<in> fst ` set m then length m else Suc (length m))"
  by (induction m) auto

lemma queue_okI:
  assumes "gomap_ok (rj_pending q)" and "length (rj_pending q) \<le> rejoinMax"
    and "\<And>ip r. (ip, r) \<in> set (rj_pending q) \<Longrightarrow> rj_IP r = ip \<and> ip \<notin> rj_refused q"
  shows "queue_ok q"
  using assms by (auto simp: queue_ok_def)

lemma queue_okD:
  assumes "queue_ok q"
  shows "gomap_ok (rj_pending q)" and "length (rj_pending q) \<le> rejoinMax"
    and "(ip, r) \<in> set (rj_pending q) \<Longrightarrow> rj_IP r = ip \<and> ip \<notin> rj_refused q"
  using assms by (auto simp: queue_ok_def)

lemma queue_ok_expire:
  assumes "queue_ok q"
  shows "queue_ok (expireLocked now q)"
proof (rule queue_okI)
  show "length (rj_pending (expireLocked now q)) \<le> rejoinMax"
    unfolding expireLocked_def using queue_okD(2) [OF assms] by (simp add: order_trans [OF length_filter_le])
qed (use queue_okD [OF assms] in \<open>auto simp: expireLocked_def\<close>)

lemma queue_ok_put:
  assumes "queue_ok q" and "rj_IP r = ip" and "ip \<notin> rj_refused q"
    and "map_of (rj_pending q) ip = None \<Longrightarrow> length (rj_pending q) < rejoinMax"
  shows "queue_ok (q\<lparr>rj_pending := map_put ip r (rj_pending q)\<rparr>)"
proof (rule queue_okI)
  show "length (rj_pending (q\<lparr>rj_pending := map_put ip r (rj_pending q)\<rparr>)) \<le> rejoinMax"
    using queue_okD(2) [OF assms(1)] assms(4) by (auto simp: length_map_put map_of_eq_None_iff)
next
  fix i x
  assume "(i, x) \<in> set (rj_pending (q\<lparr>rj_pending := map_put ip r (rj_pending q)\<rparr>))"
  then have "if i = ip then x = r else (i, x) \<in> set (rj_pending q)"
    using in_map_put [OF queue_okD(1) [OF assms(1)]] by simp
  then show "rj_IP x = i \<and> i \<notin> rj_refused (q\<lparr>rj_pending := map_put ip r (rj_pending q)\<rparr>)"
    using assms(2,3) queue_okD(3) [OF assms(1), of i x] by (auto split: if_splits)
qed (simp add: queue_okD [OF assms(1)])

lemma queue_ok_knock:
  assumes "queue_ok q"
  shows "queue_ok (snd (knock now req token q))"
proof (cases "rj_IP req \<in> rj_refused q")
  case False
  let ?q = "expireLocked now q"
  have "rj_IP req \<notin> rj_refused ?q" using False by (simp add: expireLocked_def)
  note put = queue_ok_put [OF queue_ok_expire [OF assms, of now] _ this]
  show ?thesis
  proof (cases "map_of (rj_pending ?q) (rj_IP req)")
    case None
    then show ?thesis
      using False put queue_ok_expire [OF assms, of now] by (simp add: knock_def Let_def)
  next
    case (Some old)
    then show ?thesis using False put by (simp add: knock_def Let_def)
  qed
qed (simp add: knock_def assms)

lemma queue_ok_step: "rejoin_step q q' \<Longrightarrow> queue_ok q \<Longrightarrow> queue_ok q'"
proof (induction rule: rejoin_step.induct)
  case (knocking q now req token)
  then show ?case by (rule queue_ok_knock)
next
  case (listing q now)
  then show ?case by (simp add: rejoin_list_def Let_def queue_ok_expire)
next
  case (taking q ip)
  then show ?case
    using length_delete_le [of ip "rj_pending q"]
    by (auto simp: rejoin_take_def queue_ok_def in_map_del intro: order_trans)
next
  case (refusing q ip)
  then show ?case
    using length_delete_le [of ip "rj_pending q"]
    by (auto simp: refuse_def queue_ok_def in_map_del intro: order_trans)
qed

text \<open>
  C28. The waiting list is fair. However agents knock, requests expire and the user lets in or turns
  away, it holds at most 64 requests, one per address and filed under the address the socket really
  came from, and none from an address that was turned away. A knock from one address changes nothing
  about the request of another, except that one not renewed for three minutes drops out.
\<close>

theorem rejoin_queue_fair:
  assumes "rejoin_step\<^sup>*\<^sup>* empty_queue q"
  shows "queue_ok q \<and>
         (ip \<noteq> rj_IP req \<longrightarrow> (\<forall>r. map_of (rj_pending q) ip = Some r \<and> now - rj_LastSeen r \<le> rejoinTTL \<longrightarrow>
            map_of (rj_pending (snd (knock now req token q))) ip = Some r))"
proof -
  have ok: "queue_ok q"
    using assms
  proof (induction rule: rtranclp_induct)
    case base
    show ?case by (simp add: queue_ok_def empty_queue_def)
  qed (rule queue_ok_step)
  then have "gomap_ok (rj_pending q)" by (simp add: queue_ok_def)
  note kept = lookup_filter [OF this, of "\<lambda>(ip, r). \<not> time_Sub now (rj_LastSeen r) > rejoinTTL" ip]
  have "map_of (rj_pending (snd (knock now req token q))) ip = Some r"
    if "ip \<noteq> rj_IP req" "map_of (rj_pending q) ip = Some r" "now - rj_LastSeen r \<le> rejoinTTL" for r
    using that kept by (auto simp: knock_def Let_def expireLocked_def split: option.splits)
  with ok show ?thesis by blast
qed

definition demo_knock :: "string \<Rightarrow> rejoin_request" where
  "demo_knock ip = \<lparr> rj_IP = ip, rj_TailnetName = [], rj_VPSID = ''v'', rj_Hostname = ''h'', rj_AgentVersion = [],
     rj_FirstSeen = 0, rj_LastSeen = 0, rj_token = [] \<rparr>"

theorem rejoin_queue_fair_witness:
  "map_of (rj_pending (snd (knock 6 (demo_knock ''b'') ''t'' (snd (knock 5 (demo_knock ''a'') ''s'' empty_queue))))) ''a'' =
     Some ((demo_knock ''a'')\<lparr>rj_FirstSeen := 5, rj_LastSeen := 5, rj_token := ''s''\<rparr>)"
proof -
  let ?q = "snd (knock 5 (demo_knock ''a'') ''s'' empty_queue)"
  have "rejoin_step\<^sup>*\<^sup>* empty_queue ?q" by (rule r_into_rtranclp) (rule rejoin_step.knocking)
  moreover have "map_of (rj_pending ?q) ''a'' =
      Some ((demo_knock ''a'')\<lparr>rj_FirstSeen := 5, rj_LastSeen := 5, rj_token := ''s''\<rparr>)"
    by (simp add: knock_def demo_knock_def empty_queue_def expireLocked_def rejoinMax_def Let_def)
  ultimately show ?thesis
    using rejoin_queue_fair [of ?q "''a''" "demo_knock ''b''" 6 "''t''"] by (simp add: demo_knock_def)
qed

end
