(* ===== verification/Go_Net.thy ===== *)
theory Go_Net
  imports Go_Strings
begin

text \<open>
  Which texts Go's \<open>net.ParseIP\<close> and \<open>net.ParseCIDR\<close> accept. The callers only ask whether the text
  is an address, so the model answers that question: the bit length of the address, or \<open>None\<close>.
\<close>

definition hex_val :: "char \<Rightarrow> nat option" where
  "hex_val c = (let n = of_char c :: nat in
     if is_digit c then Some (n - 48)
     else if 97 \<le> n \<and> n \<le> 102 then Some (n - 87)
     else if 65 \<le> n \<and> n \<le> 70 then Some (n - 55)
     else None)"

definition is_hex :: "char \<Rightarrow> bool" where "is_hex c \<longleftrightarrow> hex_val c \<noteq> None"

text \<open>One decimal field of a dotted address: one to three digits, no leading zero, at most 255.\<close>

definition octet_ok :: "string \<Rightarrow> bool" where
  "octet_ok s \<longleftrightarrow> s \<noteq> [] \<and> list_all is_digit s \<and> (length s = 1 \<or> hd s \<noteq> CHR ''0'') \<and> decimal s \<le> 255"

definition parseIPv4_ok :: "string \<Rightarrow> bool" where
  "parseIPv4_ok s \<longleftrightarrow> length (Split s (CHR ''.'')) = 4 \<and> list_all octet_ok (Split s (CHR ''.''))"

text \<open>
  The groups of an IPv6 address. \<open>i\<close> counts the bytes filled so far and \<open>ell\<close> says whether the
  double colon was seen. The result is the number of bytes and whether it was seen, or \<open>None\<close>.
\<close>

function (sequential) ipv6_groups :: "string \<Rightarrow> nat \<Rightarrow> bool \<Rightarrow> (nat \<times> bool) option" where
  "ipv6_groups s i ell =
     (if i \<ge> 16 then None
      else
        let ds = takeWhile is_hex s;
            rest = dropWhile is_hex s
        in if ds = [] \<or> length ds > 4 then None
           else if rest \<noteq> [] \<and> hd rest = CHR ''.''
           then if (\<not> ell \<and> i \<noteq> 12) \<or> i + 4 > 16 \<or> \<not> parseIPv4_ok s then None else Some (i + 4, ell)
           else if rest = [] then Some (i + 2, ell)
           else if hd rest \<noteq> CHR '':'' \<or> tl rest = [] then None
           else if hd (tl rest) = CHR '':''
           then if ell then None
                else if tl (tl rest) = [] then Some (i + 2, True)
                else ipv6_groups (tl (tl rest)) (i + 2) True
           else ipv6_groups (tl rest) (i + 2) ell)"
  by pat_completeness auto

termination
  by (relation "measure (\<lambda>(s, i, ell). 16 - i)") auto

declare ipv6_groups.simps [simp del]

definition parseIPv6_ok :: "string \<Rightarrow> bool" where
  "parseIPv6_ok s =
     (let lead = HasPrefix s ''::'';
          body = (if lead then drop 2 s else s)
      in if lead \<and> body = [] then True
         else case ipv6_groups body 0 lead of
                None \<Rightarrow> False
              | Some (i, ell) \<Rightarrow> (if i < 16 then ell else \<not> ell))"

definition addr_bits :: "string \<Rightarrow> nat option" where
  "addr_bits s =
     (case find (\<lambda>c. c \<in> {CHR ''.'', CHR '':'', CHR ''%''}) s of
        Some c \<Rightarrow>
          if c = CHR ''.'' then (if parseIPv4_ok s then Some 32 else None)
          else if c = CHR '':'' then (if parseIPv6_ok s then Some 128 else None)
          else None
      | None \<Rightarrow> None)"

definition ParseIP_ok :: "string \<Rightarrow> bool" where
  "ParseIP_ok s \<longleftrightarrow> addr_bits s \<noteq> None"

definition ParseCIDR_ok :: "string \<Rightarrow> bool" where
  "ParseCIDR_ok s \<longleftrightarrow>
     (case index_of (CHR ''/'') s of
        None \<Rightarrow> False
      | Some i \<Rightarrow>
          (case addr_bits (take i s) of
             None \<Rightarrow> False
           | Some bits \<Rightarrow>
               let mask = drop (Suc i) s
               in mask \<noteq> [] \<and> list_all is_digit mask \<and> decimal mask \<le> int bits))"

text \<open>An accepted address holds nothing but hexadecimal digits, dots and colons.\<close>

definition addr_char :: "char \<Rightarrow> bool" where
  "addr_char c \<longleftrightarrow> is_hex c \<or> c = CHR ''.'' \<or> c = CHR '':'' \<or> c = CHR ''/''"

lemma digit_hex: "is_digit c \<Longrightarrow> is_hex c"
  by (simp add: is_hex_def hex_val_def Let_def)

lemma split_by_covers: "c \<in> set s \<Longrightarrow> P c \<or> (\<exists>w \<in> set (split_by P s). c \<in> set w)"
proof (induction s)
  case (Cons x s)
  obtain w ws where "split_by P s = w # ws" using split_by_nonempty by (metis list.exhaust)
  with Cons show ?case by auto
qed simp

lemma parseIPv4_chars: "parseIPv4_ok s \<Longrightarrow> c \<in> set s \<Longrightarrow> addr_char c"
  using split_by_covers [of c s "\<lambda>x. x = CHR ''.''"]
  by (auto simp: parseIPv4_ok_def octet_ok_def list_all_iff addr_char_def dest: digit_hex)

lemma ipv6_groups_chars: "ipv6_groups s i ell = Some r \<Longrightarrow> c \<in> set s \<Longrightarrow> addr_char c"
proof (induction s i ell arbitrary: r rule: ipv6_groups.induct)
  case (1 s i ell)
  define ds where "ds = takeWhile is_hex s"
  define rest where "rest = dropWhile is_hex s"
  have hex: "addr_char c" if "c \<in> set ds" for c
    using that by (auto simp: ds_def addr_char_def dest: set_takeWhileD)
  have split: "s = ds @ rest" by (simp add: ds_def rest_def)
  note step = 1(3) [unfolded ipv6_groups.simps [of s i ell] Let_def, folded ds_def rest_def]
  note ih = 1(1,2) [OF _ ds_def rest_def]
  show ?case
  proof (cases rest)
    case Nil
    then show ?thesis using 1(4) split hex by simp
  next
    case r: (Cons a t)
    show ?thesis
    proof (cases "a = CHR ''.''")
      case True
      then show ?thesis using step r 1(4) by (auto split: if_splits intro: parseIPv4_chars)
    next
      case False
      then have a: "a = CHR '':''" "t \<noteq> []" using step r by (auto split: if_splits)
      have "addr_char c" if "c \<in> set t"
      proof (cases "hd t = CHR '':''")
        case True
        then have "c = CHR '':'' \<or> c \<in> set (tl t)" using a that by (cases t) auto
        moreover have "addr_char c" if "c \<in> set (tl t)"
          using that True step r a False ih(1) by (cases "tl t = []") (auto split: if_splits)
        ultimately show ?thesis by (auto simp: addr_char_def)
      next
        case ne: False
        then show ?thesis using that step r a False ih(2) by (auto split: if_splits)
      qed
      then show ?thesis using 1(4) split r a hex by (auto simp: addr_char_def)
    qed
  qed
qed

lemma addr_bits_chars: "addr_bits s = Some b \<Longrightarrow> c \<in> set s \<Longrightarrow> addr_char c"
proof -
  assume *: "addr_bits s = Some b" "c \<in> set s"
  have "addr_char c" if "parseIPv6_ok s"
  proof (cases "HasPrefix s ''::''")
    case True
    then obtain t where "s = '':'' @ '':'' @ t" unfolding HasPrefix_prefix by (auto simp: prefix_def)
    then show ?thesis
      using that *(2) True
      by (cases "t = []") (auto simp: parseIPv6_ok_def Let_def addr_char_def dest: ipv6_groups_chars split: option.splits)
  next
    case False
    then show ?thesis
      using that *(2) by (auto simp: parseIPv6_ok_def Let_def dest: ipv6_groups_chars split: option.splits)
  qed
  then show ?thesis
    using * by (auto simp: addr_bits_def split: option.splits if_splits intro: parseIPv4_chars)
qed

lemma index_of_split: "index_of c s = Some i \<Longrightarrow> s = take i s @ c # drop (Suc i) s \<and> c \<notin> set (take i s)"
  by (induction s arbitrary: i) (auto split: if_splits)

lemma source_chars: "ParseIP_ok s \<or> ParseCIDR_ok s \<Longrightarrow> c \<in> set s \<Longrightarrow> addr_char c"
proof -
  assume *: "ParseIP_ok s \<or> ParseCIDR_ok s" "c \<in> set s"
  show ?thesis
  proof (cases "ParseIP_ok s")
    case True
    then show ?thesis using *(2) by (auto simp: ParseIP_ok_def dest: addr_bits_chars)
  next
    case False
    then obtain i b where i: "index_of (CHR ''/'') s = Some i" "addr_bits (take i s) = Some b"
      "list_all is_digit (drop (Suc i) s)"
      using *(1) by (auto simp: ParseCIDR_ok_def Let_def split: option.splits)
    have "c \<in> set (take i s) \<or> c = CHR ''/'' \<or> c \<in> set (drop (Suc i) s)"
      using *(2) index_of_split [OF i(1)] by (metis Un_iff set_append set_ConsD)
    then show ?thesis
      using i by (auto simp: addr_char_def list_all_iff dest: digit_hex addr_bits_chars)
  qed
qed

lemma addr_char_plain: "addr_char c \<Longrightarrow> \<not> is_space c \<and> c \<noteq> CHR 0x22"
  by (auto simp: addr_char_def is_hex_def hex_val_def is_digit_def is_space_def Let_def)

end
