(* ===== verification/Firewall.thy ===== *)
theory Firewall
  imports Go_Net
begin

text \<open>
  The firewall of a server and its SSH guard (\<^verbatim>\<open>src/agent/firewall_linux.go\<close>): ports and specs, the
  ports the guard protects, the listings of ufw, firewalld and iptables, and the three mutations
  with their preview.

  The record \<open>host\<close> is the machine one operation sees: which programs exist (\<open>exec.LookPath\<close>), what
  a command prints and whether it succeeds (\<open>runCmd\<close>; also \<open>exec.Command(..).Output\<close>), what a file
  holds and what a glob matches. It does not change during one operation, which holds \<open>fwMu\<close> while
  it changes anything. An operation returns its result and the commands that change something, in
  order. The listing of a bare nftables host reads JSON and is not modelled; that backend refuses
  every mutation.
\<close>

section \<open>The host\<close>

record host =
  ho_LookPath :: "string \<Rightarrow> bool"
  ho_run :: "string list \<Rightarrow> string \<times> bool"
  ho_file :: "string \<Rightarrow> string option"
  ho_glob :: "string \<Rightarrow> string list"

datatype fw_backend = BackendNone | UFW | Firewalld | Iptables | NFT

definition detectFirewall :: "host \<Rightarrow> fw_backend" where
  "detectFirewall h =
     (if ho_LookPath h ''ufw'' then UFW
      else if ho_LookPath h ''firewall-cmd'' then Firewalld
      else if ho_LookPath h ''iptables'' then Iptables
      else if ho_LookPath h ''nft'' then NFT
      else BackendNone)"

section \<open>Rules and specs\<close>

record fw_rule =
  fr_ID :: string
  fr_Action :: string
  fr_Proto :: string
  fr_Port :: string
  fr_Source :: string
  fr_Comment :: string
  fr_Raw :: string
  fr_Protected :: bool

definition zero_rule :: fw_rule where
  "zero_rule = \<lparr> fr_ID = [], fr_Action = [], fr_Proto = [], fr_Port = [], fr_Source = [],
     fr_Comment = [], fr_Raw = [], fr_Protected = False \<rparr>"

record fw_spec =
  fs_Action :: string
  fs_Proto :: string
  fs_Port :: string
  fs_Source :: string
  fs_Comment :: string

record fw_status =
  fws_Backend :: fw_backend
  fws_BackendDetail :: string
  fws_Enabled :: bool
  fws_DefaultIncoming :: string
  fws_Note :: string
  fws_Editable :: bool
  fws_Rules :: "fw_rule list"
  fws_Protected :: "int list"

datatype fw_error =
    PortEmpty | OnePortAtATime | BadPort string | BadRange string
  | BadAction | BadProto | BadSource string | PortRequired | AllowAll
  | GuardRefuses int | NotEditable fw_backend | NoBackend | SpecRequired | IDRequired
  | CommandFailed string | BadRuleNumber string | RuleGone string | NotDeletable string
  | ConfirmFirst

datatype fw_warning = NoWarning | BlocksAllPorts string | TouchesProtected int string | AllowsProtected string

section \<open>Ports\<close>

definition port_sep :: "string \<Rightarrow> char option" where
  "port_sep s = (if CHR '':'' \<in> set s then Some (CHR '':'')
                 else if CHR ''-'' \<in> set s then Some (CHR ''-'') else None)"

text \<open>\<open>strings.SplitN(s, sep, 2)\<close> of a text that holds the separator.\<close>

definition cut_at :: "char \<Rightarrow> string \<Rightarrow> string \<times> string" where
  "cut_at c s = (takeWhile (\<lambda>x. x \<noteq> c) s, tl (dropWhile (\<lambda>x. x \<noteq> c) s))"

definition one_port :: "string \<Rightarrow> fw_error + int" where
  "one_port s = (let (n, ok) = Atoi (TrimSpace s) in
     if \<not> ok \<or> n < 1 \<or> n > 65535 then Inl (BadPort s) else Inr n)"

definition parseFWPort :: "string \<Rightarrow> fw_error + int \<times> int" where
  "parseFWPort port0 =
     (let port = TrimSpace port0 in
      if port = [] then Inl PortEmpty
      else if CHR '','' \<in> set port then Inl OnePortAtATime
      else case port_sep port of
             None \<Rightarrow> (case one_port port of Inl e \<Rightarrow> Inl e | Inr n \<Rightarrow> Inr (n, n))
           | Some sep \<Rightarrow>
               (case one_port (fst (cut_at sep port)) of
                  Inl e \<Rightarrow> Inl e
                | Inr lo \<Rightarrow>
                    (case one_port (snd (cut_at sep port)) of
                       Inl e \<Rightarrow> Inl e
                     | Inr hi \<Rightarrow> if lo \<ge> hi then Inl (BadRange port) else Inr (lo, hi))))"

definition part_covers :: "int \<Rightarrow> string \<Rightarrow> bool" where
  "part_covers p part0 =
     (let part = TrimSpace part0 in
      case port_sep part of
        None \<Rightarrow> (let (n, ok) = Atoi part in ok \<and> n = p)
      | Some sep \<Rightarrow>
          (let (lo, ok1) = Atoi (TrimSpace (fst (cut_at sep part)));
               (hi, ok2) = Atoi (TrimSpace (snd (cut_at sep part)))
           in ok1 \<and> ok2 \<and> p \<ge> lo \<and> p \<le> hi))"

definition fwPortCovers :: "string \<Rightarrow> int \<Rightarrow> bool" where
  "fwPortCovers expr0 p =
     (let expr = TrimSpace expr0 in
      if expr = [] then True else list_ex (part_covers p) (Split expr (CHR '','')))"

section \<open>Specs\<close>

definition sanitizeFWComment :: "string \<Rightarrow> string" where
  "sanitizeFWComment s0 =
     (let s = filter (\<lambda>c. c \<noteq> CHR 0x0A \<and> c \<noteq> CHR 0x0D) (TrimSpace s0)
      in if length s > 64 then take 64 s else s)"

definition normalise_spec :: "fw_spec \<Rightarrow> fw_spec" where
  "normalise_spec s = \<lparr> fs_Action = ToLower (TrimSpace (fs_Action s)), fs_Proto = ToLower (TrimSpace (fs_Proto s)),
     fs_Port = TrimSpace (fs_Port s), fs_Source = TrimSpace (fs_Source s),
     fs_Comment = sanitizeFWComment (fs_Comment s) \<rparr>"

definition validateFWSpec :: "fw_spec \<Rightarrow> fw_error + fw_spec" where
  "validateFWSpec spec0 =
     (let spec = normalise_spec spec0 in
      if fs_Action spec \<noteq> ''allow'' \<and> fs_Action spec \<noteq> ''deny'' then Inl BadAction
      else if fs_Proto spec \<noteq> ''tcp'' \<and> fs_Proto spec \<noteq> ''udp'' then Inl BadProto
      else if fs_Source spec \<noteq> [] \<and> \<not> ParseIP_ok (fs_Source spec) \<and> \<not> ParseCIDR_ok (fs_Source spec)
      then Inl (BadSource (fs_Source spec))
      else if fs_Port spec = []
      then (if fs_Action spec \<noteq> ''deny'' \<or> fs_Source spec = [] then Inl PortRequired else Inr spec)
      else case parseFWPort (fs_Port spec) of Inl e \<Rightarrow> Inl e | Inr _ \<Rightarrow> Inr spec)"

section \<open>The ports the guard protects\<close>

definition before_hash :: "string \<Rightarrow> string" where
  "before_hash l = takeWhile (\<lambda>c. c \<noteq> CHR ''#'') l"

definition included_files :: "host \<Rightarrow> string \<Rightarrow> string list" where
  "included_files h raw = concat (map (\<lambda>line.
     (let fields = Fields (TrimSpace (before_hash (TrimSpace line))) in
      if length fields \<ge> 2 \<and> EqualFold (hd fields) ''Include'' then concat (map (ho_glob h) (tl fields)) else []))
     (Split raw (CHR 0x0A)))"

definition port_line :: "string \<Rightarrow> int list" where
  "port_line line =
     (let fields = Fields (before_hash line) in
      if length fields \<ge> 2 \<and> EqualFold (hd fields) ''Port''
      then map (\<lambda>v. fst (Atoi v)) (filter (\<lambda>v. snd (Atoi v) \<and> 1 \<le> fst (Atoi v) \<and> fst (Atoi v) \<le> 65535) (tl fields))
      else [])"

abbreviation sshd_config :: string where "sshd_config \<equiv> ''/etc/ssh/sshd_config''"

definition sshdPorts :: "host \<Rightarrow> int list" where
  "sshdPorts h =
     (let files = sshd_config # (case ho_file h sshd_config of None \<Rightarrow> [] | Some raw \<Rightarrow> included_files h raw)
      in sort (remdups (22 # concat (map (\<lambda>f. case ho_file h f of
                                            None \<Rightarrow> []
                                          | Some raw \<Rightarrow> concat (map port_line (Split raw (CHR 0x0A)))) files))))"

definition splitListenAddr :: "string \<Rightarrow> string \<times> int" where
  "splitListenAddr s0 =
     (let s = TrimSpace s0 in
      if s = [] then ([], 0)
      else if hd s = CHR ''[''
      then (case last_index_of (CHR '']'') s of
              None \<Rightarrow> ([], 0)
            | Some e \<Rightarrow>
                let host = drop 1 (take e s); rest = drop (Suc e) s
                in if \<not> HasPrefix rest '':'' then (host, 0) else (host, fst (Atoi (tl rest))))
      else (case last_index_of (CHR '':'') s of
              None \<Rightarrow> ([], 0)
            | Some i \<Rightarrow>
                let host = take i s
                in (if host = ''*'' then ''0.0.0.0'' else host, fst (Atoi (drop (Suc i) s)))))"

definition sshdSessionPorts :: "host \<Rightarrow> int list" where
  "sshdSessionPorts h =
     (let (raw, ok) = ho_run h [''ss'', ''-tnp'', ''state'', ''established''] in
      if \<not> ok then []
      else remdups (concat (map (\<lambda>line.
        (let fields = Fields line in
         if \<not> Contains line ''\"sshd\"'' \<and> \<not> Contains line ''sshd,'' then []
         else if length fields < 5 then []
         else let port = snd (splitListenAddr (fields ! 3)) in if port > 0 then [port] else []))
        (Split raw (CHR 0x0A)))))"

record fw_config =
  fc_wireguard :: bool
  fc_WGListenPort :: int
  fc_ListenPort :: int

abbreviation WGDefaultPort :: int where "WGDefaultPort \<equiv> 51931"

text \<open>\<open>fc_wireguard\<close> is \<open>Config.IsWireGuard\<close>, which implies that \<open>WG\<close> is set.\<close>

definition protectedPorts :: "host \<Rightarrow> fw_config option \<Rightarrow> int list" where
  "protectedPorts h cfg =
     (let own = (case cfg of
            None \<Rightarrow> WGDefaultPort
          | Some c \<Rightarrow> if fc_wireguard c \<and> fc_WGListenPort c > 0 then fc_WGListenPort c
                      else if fc_ListenPort c > 0 then fc_ListenPort c
                      else WGDefaultPort)
      in sort (remdups (sshdPorts h @ sshdSessionPorts h @ [own])))"

text \<open>\<open>touches\<close> is the first protected port the spec covers, or 0.\<close>

definition touches :: "fw_spec \<Rightarrow> int list \<Rightarrow> int" where
  "touches spec protected = (case find (fwPortCovers (fs_Port spec)) protected of Some p \<Rightarrow> p | None \<Rightarrow> 0)"

definition guardDeny :: "fw_spec \<Rightarrow> int list \<Rightarrow> fw_error + fw_warning" where
  "guardDeny spec protected =
     (let p = touches spec protected in
      if fs_Port spec = [] then Inr (BlocksAllPorts (fs_Source spec))
      else if p > 0 \<and> fs_Source spec = [] then Inl (GuardRefuses p)
      else if p > 0 then Inr (TouchesProtected p (fs_Source spec))
      else Inr NoWarning)"

definition mark_rule :: "int list \<Rightarrow> fw_rule \<Rightarrow> fw_rule" where
  "mark_rule protected r =
     (if fr_ID r = [] \<or> fr_Action r \<noteq> ''allow'' then r
      else if list_ex (fwPortCovers (fr_Port r)) protected then r\<lparr>fr_Protected := True\<rparr> else r)"

definition markProtectedRules :: "fw_status \<Rightarrow> fw_status" where
  "markProtectedRules st = st\<lparr>fws_Rules := map (mark_rule (fws_Protected st)) (fws_Rules st)\<rparr>"

section \<open>Shell text\<close>

definition shell_word :: "string \<Rightarrow> string" where
  "shell_word a =
     (if ContainsAny a [CHR '' '', CHR 0x09, CHR 0x22, CHR 0x27]
      then [CHR 0x27] @ ReplaceAll a (CHR 0x27) [CHR 0x27, CHR 0x5C, CHR 0x27, CHR 0x27] @ [CHR 0x27]
      else a)"

definition shellJoin :: "string list \<Rightarrow> string" where
  "shellJoin argv = Join (map shell_word argv) '' ''"

definition firstLine :: "string \<Rightarrow> string" where
  "firstLine s0 =
     (let s = takeWhile (\<lambda>c. c \<noteq> CHR 0x0A) (TrimSpace s0)
      in if s = [] then ''failed'' else if length s > 200 then take 200 s else s)"

end
