(* ===== verification/Firewall_Backends.thy ===== *)
theory Firewall_Backends
  imports Firewall
begin

text \<open>
  The three editable firewall backends (\<^verbatim>\<open>src/agent/firewall_linux.go\<close>): their listings, the
  commands that add a rule, the resolution of a rule to its delete command, and the operations of
  the panel: status, preview, allow, deny, delete.
\<close>

section \<open>ufw\<close>

text \<open>\<open>ufwNumRe\<close>: a bracket, white space, a number, a bracket. The number and what follows.\<close>

definition ufw_num :: "string \<Rightarrow> (string \<times> string) option" where
  "ufw_num l =
     (if l = [] \<or> hd l \<noteq> CHR ''['' then None
      else let t = dropWhile re_space (tl l); ds = takeWhile is_digit t; rest = dropWhile is_digit t
           in if ds = [] \<or> rest = [] \<or> hd rest \<noteq> CHR '']'' then None else Some (ds, tl rest))"

text \<open>The first run of two or more blanks: what is before it and what is after it.\<close>

fun cut_gap :: "string \<Rightarrow> (string \<times> string) option" where
  "cut_gap [] = None"
| "cut_gap (c # s) =
     (if re_space c \<and> s \<noteq> [] \<and> re_space (hd s) then Some ([], dropWhile re_space s)
      else map_option (\<lambda>(a, b). (c # a, b)) (cut_gap s))"

definition ufw_columns :: "string \<Rightarrow> (string \<times> string \<times> string) option" where
  "ufw_columns rest =
     (case cut_gap rest of
        Some (a, b) \<Rightarrow>
          (case cut_gap b of
             Some (b1, c) \<Rightarrow> Some (a, b1, c)
           | None \<Rightarrow>
               let ws = Fields rest in
               if length ws < 3 then None else Some (hd ws, Join (butlast (tl ws)) '' '', last ws))
      | None \<Rightarrow>
          let ws = Fields rest in
          if length ws < 3 then None else Some (hd ws, Join (butlast (tl ws)) '' '', last ws))"

datatype fw_line = SkipLine | RuleLine fw_rule | LinePanics

definition ufw_action :: "string \<Rightarrow> string" where
  "ufw_action action =
     (if HasPrefix action ''ALLOW'' \<or> HasPrefix action ''LIMIT'' then ''allow''
      else if HasPrefix action ''DENY'' \<or> HasPrefix action ''REJECT'' then ''deny''
      else ''other'')"

definition ufw_target :: "string \<Rightarrow> string \<times> string" where
  "ufw_target to =
     (if EqualFold to ''Anywhere'' then ([], ''any'')
      else case last_index_of (CHR ''/'') to of
             None \<Rightarrow> (to, ''any'')
           | Some i \<Rightarrow> (take i to, ToLower (drop (Suc i) to)))"

text \<open>A source of blanks only would be an index out of range.\<close>

definition ufw_line :: "string \<Rightarrow> fw_line" where
  "ufw_line l =
     (case ufw_num l of
        None \<Rightarrow> SkipLine
      | Some (num, after) \<Rightarrow>
          (case ufw_columns (TrimSpace after) of
             None \<Rightarrow> SkipLine
           | Some (to0, action0, from0) \<Rightarrow>
               let (port, proto) = ufw_target (TrimSpace to0);
                   src = TrimSpace from0;
                   rule = zero_rule\<lparr>fr_ID := num, fr_Raw := TrimSpace l, fr_Port := port, fr_Proto := proto,
                            fr_Action := ufw_action (ToUpper (TrimSpace action0))\<rparr>
               in if HasPrefix (ToLower src) ''anywhere'' then RuleLine rule
                  else case Fields src of [] \<Rightarrow> LinePanics | w # _ \<Rightarrow> RuleLine (rule\<lparr>fr_Source := w\<rparr>)))"

definition rule_of :: "fw_line \<Rightarrow> fw_rule list" where
  "rule_of x = (case x of RuleLine r \<Rightarrow> [r] | _ \<Rightarrow> [])"

definition ufw_default :: "string \<Rightarrow> string" where
  "ufw_default v =
     (case find (\<lambda>l. Contains l ''default:'') (Split (ToLower v) (CHR 0x0A)) of
        None \<Rightarrow> []
      | Some l \<Rightarrow> if Contains l ''deny (incoming)'' then ''deny''
                  else if Contains l ''allow (incoming)'' then ''allow'' else [])"

text \<open>\<open>None\<close> is a panic; \<open>Some (Inl e)\<close> an error.\<close>

definition ufwStatus :: "host \<Rightarrow> fw_status \<Rightarrow> (fw_error + fw_status) option" where
  "ufwStatus h st0 =
     (let (out, ok) = ho_run h [''ufw'', ''status'', ''numbered''] in
      if \<not> ok then Some (Inl (CommandFailed ''ufw status''))
      else
        let ls = Split out (CHR 0x0A);
            (v, vok) = ho_run h [''ufw'', ''status'', ''verbose''];
            rows = map ufw_line ls
        in if LinePanics \<in> set rows then None
           else Some (Inr (markProtectedRules (st0\<lparr>
                  fws_Editable := True,
                  fws_Enabled := fws_Enabled st0 \<or> Contains (ToLower (hd ls)) ''status: active'',
                  fws_DefaultIncoming := (if vok \<and> ufw_default v \<noteq> [] then ufw_default v else fws_DefaultIncoming st0),
                  fws_Rules := fws_Rules st0 @ concat (map rule_of rows)\<rparr>))))"

definition ufw_args :: "string \<Rightarrow> fw_spec \<Rightarrow> string list" where
  "ufw_args verb spec =
     (let port = ReplaceAll (fs_Port spec) (CHR ''-'') '':'' in
      (if fs_Port spec = [] then [verb, ''from'', fs_Source spec]
       else if fs_Source spec = [] then [verb, port @ ''/'' @ fs_Proto spec]
       else [verb, ''from'', fs_Source spec, ''to'', ''any'', ''port'', port, ''proto'', fs_Proto spec]) @
      (if fs_Comment spec \<noteq> [] then [''comment'', fs_Comment spec] else []))"

definition ufwCommands :: "string \<Rightarrow> fw_spec \<Rightarrow> string list" where
  "ufwCommands verb spec = [shellJoin (''ufw'' # ufw_args verb spec)]"

type_synonym fw_effect = "fw_error option \<times> string list list"

definition ufwRun :: "host \<Rightarrow> fw_spec \<Rightarrow> bool \<Rightarrow> fw_effect" where
  "ufwRun h spec allow =
     (let cmd = ''ufw'' # ufw_args (if allow then ''allow'' else ''deny'') spec;
          (out, ok) = ho_run h cmd
      in (if ok then None else Some (CommandFailed (firstLine out)), [cmd]))"

definition ufwDelete :: "host \<Rightarrow> string \<Rightarrow> fw_effect" where
  "ufwDelete h i =
     (if \<not> snd (Atoi i) then (Some (BadRuleNumber i), [])
      else let cmd = [''ufw'', ''--force'', ''delete'', i]; (out, ok) = ho_run h cmd
           in (if ok then None else Some (CommandFailed (firstLine out)), [cmd]))"

section \<open>firewalld\<close>

definition firewalldZone :: "host \<Rightarrow> string" where
  "firewalldZone h =
     (let (out, ok) = ho_run h [''firewall-cmd'', ''--get-default-zone''] in
      if ok \<and> TrimSpace out \<noteq> [] then TrimSpace out else ''public'')"

text \<open>The value of a quoted attribute at the start of a text, and what follows its closing quote.\<close>

definition quoted :: "string \<Rightarrow> string \<Rightarrow> (string \<times> string) option" where
  "quoted pre s =
     (if \<not> HasPrefix s pre then None
      else let t = drop (length pre) s; v = takeWhile (\<lambda>c. c \<noteq> CHR 0x22) t; rest = dropWhile (\<lambda>c. c \<noteq> CHR 0x22) t
           in if v = [] \<or> rest = [] then None else Some (v, tl rest))"

text \<open>The leftmost match of a pattern in a text.\<close>

fun leftmost :: "(string \<Rightarrow> 'a option) \<Rightarrow> string \<Rightarrow> 'a option" where
  "leftmost m [] = m []"
| "leftmost m (c # s) = (case m (c # s) of Some x \<Rightarrow> Some x | None \<Rightarrow> leftmost m s)"

definition match_source :: "string \<Rightarrow> string option" where
  "match_source s = map_option fst (quoted ''source address=\"'' s)"

definition match_port :: "string \<Rightarrow> (string \<times> string) option" where
  "match_port s =
     (case quoted ''port port=\"'' s of
        None \<Rightarrow> None
      | Some (port, rest) \<Rightarrow> map_option (\<lambda>(proto, _). (port, proto)) (quoted '' protocol=\"'' rest))"

definition match_service :: "string \<Rightarrow> string option" where
  "match_service s = map_option fst (quoted ''service name=\"'' s)"

definition rich_action :: "string \<Rightarrow> string" where
  "rich_action raw =
     (let low = ToLower (TrimSpace raw) in
      if HasSuffix low ''accept'' then ''allow''
      else if HasSuffix low ''reject'' \<or> HasSuffix low ''drop'' then ''deny''
      else ''other'')"

definition parseFwRichRule :: "string \<Rightarrow> fw_rule" where
  "parseFwRichRule raw =
     (let r = zero_rule\<lparr>fr_Proto := ''any'', fr_Raw := raw\<rparr>;
          r1 = (case leftmost match_source raw of Some a \<Rightarrow> r\<lparr>fr_Source := a\<rparr> | None \<Rightarrow> r);
          r2 = (case leftmost match_port raw of
                  Some (p, pr) \<Rightarrow> r1\<lparr>fr_Port := ReplaceAll p (CHR ''-'') '':'', fr_Proto := ToLower pr\<rparr>
                | None \<Rightarrow> (case leftmost match_service raw of
                             Some n \<Rightarrow> r1\<lparr>fr_Comment := ''service '' @ n\<rparr> | None \<Rightarrow> r1))
      in r2\<lparr>fr_Action := rich_action raw\<rparr>)"

definition service_rule :: "string \<Rightarrow> fw_rule" where
  "service_rule s = zero_rule\<lparr>fr_Action := ''allow'', fr_Proto := ''any'', fr_Comment := ''service '' @ s,
     fr_Raw := ''service: '' @ s\<rparr>"

definition port_rule :: "string \<Rightarrow> fw_rule" where
  "port_rule p =
     (let (port, proto) = (case last_index_of (CHR ''/'') p of
            None \<Rightarrow> (p, ''tcp'') | Some i \<Rightarrow> (take i p, ToLower (drop (Suc i) p)))
      in zero_rule\<lparr>fr_ID := ''port:'' @ p, fr_Action := ''allow'', fr_Proto := proto,
           fr_Port := ReplaceAll port (CHR ''-'') '':'', fr_Raw := p\<rparr>)"

definition rich_lines :: "string \<Rightarrow> string list" where
  "rich_lines out = filter (\<lambda>l. l \<noteq> []) (map TrimSpace (Split out (CHR 0x0A)))"

definition rich_rules :: "string list \<Rightarrow> fw_rule list" where
  "rich_rules ls = map (\<lambda>(i, l). (parseFwRichRule l)\<lparr>fr_ID := ''rich:'' @ Itoa i\<rparr>) (enumerate 0 ls)"

definition query :: "host \<Rightarrow> string list \<Rightarrow> (string \<Rightarrow> 'a list) \<Rightarrow> 'a list" where
  "query h argv f = (let (out, ok) = ho_run h argv in if ok then f out else [])"

definition firewalld_target :: "string \<Rightarrow> string \<Rightarrow> string" where
  "firewalld_target out old =
     (let t = ToLower (TrimSpace out) in
      if t = ''accept'' then ''allow''
      else if t \<in> {''drop'', ''%%reject%%'', ''reject''} then ''deny'' else old)"

definition firewalldStatus :: "host \<Rightarrow> fw_status \<Rightarrow> fw_status" where
  "firewalldStatus h st0 =
     (let zone = firewalldZone h;
          z = ''--zone='' @ zone;
          (s, sok) = ho_run h [''firewall-cmd'', ''--state''];
          (t, tok) = ho_run h [''firewall-cmd'', z, ''--get-target'']
      in markProtectedRules (st0\<lparr>
           fws_Editable := True,
           fws_BackendDetail := ''zone '' @ zone,
           fws_Enabled := (if sok then TrimSpace s = ''running'' else fws_Enabled st0),
           fws_DefaultIncoming := (if tok then firewalld_target t (fws_DefaultIncoming st0) else fws_DefaultIncoming st0),
           fws_Rules := fws_Rules st0 @
             query h [''firewall-cmd'', z, ''--list-services''] (\<lambda>out. map service_rule (Fields out)) @
             query h [''firewall-cmd'', z, ''--list-ports''] (\<lambda>out. map port_rule (Fields out)) @
             query h [''firewall-cmd'', z, ''--list-rich-rules''] (\<lambda>out. rich_rules (rich_lines out))\<rparr>))"

text \<open>A range as firewalld writes it; the spec was validated, so the port parses.\<close>

definition port_range :: "string \<Rightarrow> string" where
  "port_range port =
     (case parseFWPort port of
        Inl _ \<Rightarrow> Itoa 0
      | Inr (lo, hi) \<Rightarrow> if hi \<noteq> lo then Itoa (nat lo) @ ''-'' @ Itoa (nat hi) else Itoa (nat lo))"

definition fwRichRule :: "fw_spec \<Rightarrow> bool \<Rightarrow> string" where
  "fwRichRule spec allow =
     ''rule family=\"'' @ (if CHR '':'' \<in> set (fs_Source spec) then ''ipv6'' else ''ipv4'') @ ''\"'' @
     (if fs_Source spec \<noteq> [] then '' source address=\"'' @ fs_Source spec @ ''\"'' else []) @
     (if fs_Port spec \<noteq> []
      then '' port port=\"'' @ port_range (fs_Port spec) @ ''\" protocol=\"'' @ fs_Proto spec @ ''\"'' else []) @
     '' '' @ (if allow then ''accept'' else ''drop'')"

definition firewalld_add :: "host \<Rightarrow> fw_spec \<Rightarrow> bool \<Rightarrow> string list" where
  "firewalld_add h spec allow =
     [''firewall-cmd'', ''--permanent'', ''--zone='' @ firewalldZone h,
      if fs_Port spec \<noteq> [] \<and> fs_Source spec = [] \<and> allow
      then ''--add-port='' @ port_range (fs_Port spec) @ ''/'' @ fs_Proto spec
      else ''--add-rich-rule='' @ fwRichRule spec allow]"

abbreviation firewalld_reload :: "string list" where
  "firewalld_reload \<equiv> [''firewall-cmd'', ''--reload'']"

definition firewalldRun :: "host \<Rightarrow> fw_spec \<Rightarrow> bool \<Rightarrow> fw_effect" where
  "firewalldRun h spec allow =
     (let cmd = firewalld_add h spec allow; (out, ok) = ho_run h cmd
      in if \<not> ok then (Some (CommandFailed (firstLine out)), [cmd])
         else let (out2, ok2) = ho_run h firewalld_reload
              in (if ok2 then None else Some (CommandFailed (firstLine out2)), [cmd, firewalld_reload]))"

definition firewalldDelete :: "host \<Rightarrow> string \<Rightarrow> string \<Rightarrow> fw_error + string" where
  "firewalldDelete h zone i =
     (if HasPrefix i ''port:'' then Inr (''--remove-port='' @ TrimPrefix i ''port:'')
      else if HasPrefix i ''rich:''
      then let (n, ok) = Atoi (TrimPrefix i ''rich:'') in
           if \<not> ok \<or> n < 0 then Inl (BadRuleNumber i)
           else let (out, rok) = ho_run h [''firewall-cmd'', ''--zone='' @ zone, ''--list-rich-rules'']
                in if \<not> rok then Inl (CommandFailed [])
                   else let rules = rich_lines out in
                        if nat n \<ge> length rules then Inl (RuleGone i)
                        else Inr (''--remove-rich-rule='' @ rules ! nat n)
      else Inl (NotDeletable i))"

section \<open>iptables\<close>

definition trim_quotes :: "string \<Rightarrow> string" where
  "trim_quotes s = TrimRight (dropWhile (\<lambda>c. c \<in> {CHR 0x22, CHR 0x27}) s) [CHR 0x22, CHR 0x27]"

definition ipt_action :: "string \<Rightarrow> string" where
  "ipt_action t =
     (if ToUpper t = ''ACCEPT'' then ''allow'' else if ToUpper t \<in> {''DROP'', ''REJECT''} then ''deny'' else ''other'')"

fun ipt_fields :: "string list \<Rightarrow> fw_rule \<Rightarrow> fw_rule" where
  "ipt_fields (f # v # fs) r =
     (if f = ''-p'' then ipt_fields fs (r\<lparr>fr_Proto := ToLower v\<rparr>)
      else if f = ''-s'' then ipt_fields fs (r\<lparr>fr_Source := v\<rparr>)
      else if f = ''--dport'' \<or> f = ''--dports'' then ipt_fields fs (r\<lparr>fr_Port := v\<rparr>)
      else if f = ''-j'' then ipt_fields fs (r\<lparr>fr_Action := ipt_action v\<rparr>)
      else if f = ''--comment'' then ipt_fields fs (r\<lparr>fr_Comment := trim_quotes v\<rparr>)
      else ipt_fields (v # fs) r)"
| "ipt_fields _ r = r"

definition parseIptablesLine :: "string \<Rightarrow> nat \<Rightarrow> fw_rule" where
  "parseIptablesLine line n =
     (let r = ipt_fields (drop 2 (Fields line)) (zero_rule\<lparr>fr_ID := Itoa n, fr_Proto := ''any'', fr_Raw := line\<rparr>)
      in if fr_Action r = [] then r\<lparr>fr_Action := ''other''\<rparr> else r)"

fun ipt_scan :: "string list \<Rightarrow> nat \<Rightarrow> string \<Rightarrow> fw_rule list \<times> string" where
  "ipt_scan [] n d = ([], d)"
| "ipt_scan (l0 # ls) n d =
     (let l = TrimSpace l0 in
      if HasPrefix l ''-P INPUT''
      then ipt_scan ls n (if Contains l ''DROP'' \<or> Contains l ''REJECT'' then ''deny''
                          else if Contains l ''ACCEPT'' then ''allow'' else d)
      else if \<not> HasPrefix l ''-A INPUT '' then ipt_scan ls n d
      else let (rs, d') = ipt_scan ls (Suc n) d in (parseIptablesLine l (Suc n) # rs, d'))"

definition parseIptablesRules :: "string \<Rightarrow> fw_rule list \<times> string" where
  "parseIptablesRules out = ipt_scan (Split out (CHR 0x0A)) 0 []"

definition iptablesStatus :: "host \<Rightarrow> fw_status \<Rightarrow> fw_error + fw_status" where
  "iptablesStatus h st0 =
     (let (v, vok) = ho_run h [''iptables'', ''--version''];
          (out, ok) = ho_run h [''iptables'', ''-S'', ''INPUT'']
      in if \<not> ok then Inl (CommandFailed ''iptables'')
         else let (rules, d) = parseIptablesRules out in
              Inr (markProtectedRules (st0\<lparr>
                fws_Editable := True,
                fws_BackendDetail := (if vok \<and> Contains v ''nf_tables'' then ''iptables over nf_tables'' else fws_BackendDetail st0),
                fws_Enabled := True,
                fws_Rules := rules,
                fws_DefaultIncoming := d,
                fws_Note := (if ho_LookPath h ''netfilter-persistent'' then fws_Note st0
                             else if ho_LookPath h ''iptables-save''
                             then ''IPv4 only. Rules do not survive reboot '' @ em_dash @
                                  '' install iptables-persistent (netfilter-persistent save).''
                             else ''IPv4 only.'')\<rparr>)))"

definition iptablesArgs :: "fw_spec \<Rightarrow> bool \<Rightarrow> string list" where
  "iptablesArgs spec allow =
     [''-A'', ''INPUT''] @
     (if fs_Source spec \<noteq> [] then [''-s'', fs_Source spec] else []) @
     (if fs_Port spec \<noteq> []
      then [''-p'', fs_Proto spec, ''-m'', fs_Proto spec, ''--dport'', ReplaceAll (fs_Port spec) (CHR ''-'') '':''] else []) @
     [''-j'', if allow then ''ACCEPT'' else ''DROP''] @
     [''-m'', ''comment'', ''--comment'', if fs_Comment spec \<noteq> [] then fs_Comment spec else ''beacle'']"

definition iptablesPersist :: "host \<Rightarrow> string list list" where
  "iptablesPersist h = (if ho_LookPath h ''netfilter-persistent'' then [[''netfilter-persistent'', ''save'']] else [])"

definition iptablesRun :: "host \<Rightarrow> fw_spec \<Rightarrow> bool \<Rightarrow> fw_effect" where
  "iptablesRun h spec allow =
     (let cmd = ''iptables'' # iptablesArgs spec allow; (out, ok) = ho_run h cmd
      in if \<not> ok then (Some (CommandFailed (firstLine out)), [cmd]) else (None, cmd # iptablesPersist h))"

definition iptablesDelete :: "host \<Rightarrow> string \<Rightarrow> fw_effect" where
  "iptablesDelete h i =
     (if \<not> snd (Atoi i) then (Some (BadRuleNumber i), [])
      else let cmd = [''iptables'', ''-D'', ''INPUT'', i]; (out, ok) = ho_run h cmd
           in if \<not> ok then (Some (CommandFailed (firstLine out)), [cmd]) else (None, cmd # iptablesPersist h))"

section \<open>The operations\<close>

definition list_backend :: "host \<Rightarrow> fw_backend \<Rightarrow> fw_status \<Rightarrow> (fw_error + fw_status) option" where
  "list_backend h b st =
     (case b of
        UFW \<Rightarrow> ufwStatus h st
      | Firewalld \<Rightarrow> Some (Inr (firewalldStatus h st))
      | Iptables \<Rightarrow> Some (iptablesStatus h st)
      | _ \<Rightarrow> Some (Inl (NotEditable b)))"

definition blank_status :: "fw_backend \<Rightarrow> int list \<Rightarrow> fw_status" where
  "blank_status b protected = \<lparr> fws_Backend = b, fws_BackendDetail = [], fws_Enabled = False,
     fws_DefaultIncoming = [], fws_Note = [], fws_Editable = False, fws_Rules = [], fws_Protected = protected \<rparr>"

definition delete_argv :: "host \<Rightarrow> fw_backend \<Rightarrow> string \<Rightarrow> fw_error + string" where
  "delete_argv h b i =
     (case b of
        UFW \<Rightarrow> Inr (shellJoin [''ufw'', ''--force'', ''delete'', i])
      | Firewalld \<Rightarrow>
          (case firewalldDelete h (firewalldZone h) i of
             Inl e \<Rightarrow> Inl e
           | Inr op \<Rightarrow> Inr (shellJoin [''firewall-cmd'', ''--permanent'', ''--zone='' @ firewalldZone h, op]
                              @ '' && firewall-cmd --reload''))
      | _ \<Rightarrow> Inr (shellJoin [''iptables'', ''-D'', ''INPUT'', i]))"

definition fwDeleteCommand ::
  "host \<Rightarrow> fw_backend \<Rightarrow> string \<Rightarrow> int list \<Rightarrow> (fw_error + string \<times> fw_warning) option" where
  "fwDeleteCommand h b i protected =
     (case list_backend h b (blank_status b protected) of
        None \<Rightarrow> None
      | Some (Inl e) \<Rightarrow> Some (Inl e)
      | Some (Inr st) \<Rightarrow>
          (case find (\<lambda>r. fr_ID r = i) (fws_Rules st) of
             None \<Rightarrow> Some (Inl (RuleGone i))
           | Some found \<Rightarrow>
               if fr_ID found = [] then Some (Inl (RuleGone i))
               else
                 let warning = (if fr_Protected found then AllowsProtected (fr_Port found) else NoWarning)
                 in Some (case delete_argv h b i of Inl e \<Rightarrow> Inl e | Inr cmd \<Rightarrow> Inr (cmd, warning))))"

definition fw_apply :: "host \<Rightarrow> fw_spec \<Rightarrow> bool \<Rightarrow> fw_effect" where
  "fw_apply h spec allow =
     (case detectFirewall h of
        UFW \<Rightarrow> ufwRun h spec allow
      | Firewalld \<Rightarrow> firewalldRun h spec allow
      | Iptables \<Rightarrow> iptablesRun h spec allow
      | _ \<Rightarrow> (Some NoBackend, []))"

type_synonym fw_outcome = "(fw_error + fw_warning) \<times> string list list"

definition FirewallAllow :: "host \<Rightarrow> fw_spec \<Rightarrow> fw_outcome" where
  "FirewallAllow h spec0 =
     (case validateFWSpec spec0 of
        Inl e \<Rightarrow> (Inl e, [])
      | Inr spec \<Rightarrow>
          if fs_Action spec \<noteq> ''allow'' then (Inl BadAction, [])
          else if fs_Port spec = [] then (Inl AllowAll, [])
          else let (err, cmds) = fw_apply h spec True
               in (case err of Some e \<Rightarrow> Inl e | None \<Rightarrow> Inr NoWarning, cmds))"

definition FirewallDeny :: "host \<Rightarrow> fw_config option \<Rightarrow> fw_spec \<Rightarrow> fw_outcome" where
  "FirewallDeny h cfg spec0 =
     (case validateFWSpec spec0 of
        Inl e \<Rightarrow> (Inl e, [])
      | Inr spec \<Rightarrow>
          if fs_Action spec \<noteq> ''deny'' then (Inl BadAction, [])
          else case guardDeny spec (protectedPorts h cfg) of
                 Inl e \<Rightarrow> (Inl e, [])
               | Inr warning \<Rightarrow>
                   let (err, cmds) = fw_apply h spec False
                   in (case err of Some e \<Rightarrow> Inl e | None \<Rightarrow> Inr warning, cmds))"

definition delete_apply :: "host \<Rightarrow> fw_backend \<Rightarrow> string \<Rightarrow> fw_effect" where
  "delete_apply h b i =
     (case b of
        UFW \<Rightarrow> ufwDelete h i
      | Firewalld \<Rightarrow>
          (case firewalldDelete h (firewalldZone h) i of
             Inl e \<Rightarrow> (Some e, [])
           | Inr op \<Rightarrow>
               let cmd = [''firewall-cmd'', ''--permanent'', ''--zone='' @ firewalldZone h, op]
               in if \<not> snd (ho_run h cmd) then (Some (CommandFailed ''firewall-cmd''), [cmd])
                  else (if snd (ho_run h firewalld_reload) then None else Some (CommandFailed ''firewall-cmd''),
                        [cmd, firewalld_reload]))
      | Iptables \<Rightarrow> iptablesDelete h i
      | _ \<Rightarrow> (None, []))"

text \<open>\<open>None\<close> is a panic.\<close>

definition FirewallDelete :: "host \<Rightarrow> fw_config option \<Rightarrow> string \<Rightarrow> bool \<Rightarrow> fw_outcome option" where
  "FirewallDelete h cfg i force =
     (let b = detectFirewall h in
      if b = BackendNone \<or> b = NFT then Some (Inl (NotEditable b), [])
      else case fwDeleteCommand h b (TrimSpace i) (protectedPorts h cfg) of
             None \<Rightarrow> None
           | Some (Inl e) \<Rightarrow> Some (Inl e, [])
           | Some (Inr (_, warning)) \<Rightarrow>
               if warning \<noteq> NoWarning \<and> \<not> force then Some (Inl ConfirmFirst, [])
               else let (err, cmds) = delete_apply h b i
                    in Some (case err of Some e \<Rightarrow> Inl e | None \<Rightarrow> Inr warning, cmds))"

definition preview :: "host \<Rightarrow> fw_backend \<Rightarrow> fw_spec \<Rightarrow> bool \<Rightarrow> string list" where
  "preview h b spec allow =
     (case b of
        UFW \<Rightarrow> ufwCommands (if allow then ''allow'' else ''deny'') spec
      | Firewalld \<Rightarrow> [shellJoin (firewalld_add h spec allow), ''firewall-cmd --reload'']
      | Iptables \<Rightarrow> [shellJoin (''iptables'' # iptablesArgs spec allow)]
      | _ \<Rightarrow> [])"

definition FirewallDryRun ::
  "host \<Rightarrow> fw_config option \<Rightarrow> string \<Rightarrow> fw_spec option \<Rightarrow> string \<Rightarrow> (fw_error + string list \<times> fw_warning) option" where
  "FirewallDryRun h cfg action0 spec0 i =
     (let b = detectFirewall h; action = ToLower (TrimSpace action0) in
      if b = BackendNone \<or> b = NFT then Some (Inl (NotEditable b))
      else if action = ''delete''
      then if TrimSpace i = [] then Some (Inl IDRequired)
           else case fwDeleteCommand h b (TrimSpace i) (protectedPorts h cfg) of
                  None \<Rightarrow> None
                | Some (Inl e) \<Rightarrow> Some (Inl e)
                | Some (Inr (cmd, warning)) \<Rightarrow> Some (Inr ([cmd], warning))
      else case spec0 of
             None \<Rightarrow> Some (Inl SpecRequired)
           | Some s0 \<Rightarrow>
               (case validateFWSpec s0 of
                  Inl e \<Rightarrow> Some (Inl e)
                | Inr spec \<Rightarrow>
                    if action \<noteq> ''allow'' \<and> action \<noteq> ''deny'' then Some (Inl BadAction)
                    else if action = ''allow'' then Some (Inr (preview h b spec True, NoWarning))
                    else case guardDeny spec (protectedPorts h cfg) of
                           Inl e \<Rightarrow> Some (Inl e)
                         | Inr warning \<Rightarrow> Some (Inr (preview h b spec False, warning))))"

end
