(* ===== verification/Firewall_Laws.thy ===== *)
theory Firewall_Laws
  imports Firewall_Backends
begin

text \<open>
  What the firewall guard promises: the port arithmetic of the guard agrees with the port arithmetic
  of the commands, a deny never closes a protected port to everyone, a delete without confirmation
  never removes an allow of a protected port, the preview shows what runs, and the listing reads
  back what was added. The last section holds the two ways around the guard.
\<close>

section \<open>Ports\<close>

lemma one_port_Inr: "one_port s = Inr n \<longleftrightarrow> Atoi (TrimSpace s) = (n, True) \<and> 1 \<le> n \<and> n \<le> 65535"
  by (cases "Atoi (TrimSpace s)") (auto simp: one_port_def)

lemma parse_bounds: "parseFWPort s = Inr (lo, hi) \<Longrightarrow> 1 \<le> lo \<and> lo \<le> hi \<and> hi \<le> 65535"
  by (auto simp: parseFWPort_def Let_def one_port_Inr split: if_splits option.splits sum.splits)

text \<open>The guard's reading of a port expression is the reading of the command that closes it.\<close>

lemma parse_covers:
  assumes "parseFWPort s = Inr (lo, hi)"
  shows "fwPortCovers s p \<longleftrightarrow> lo \<le> p \<and> p \<le> hi"
proof -
  define t where "t = TrimSpace s"
  have t: "t \<noteq> []" "CHR '','' \<notin> set t" "TrimSpace t = t"
    using assms by (auto simp: parseFWPort_def t_def [symmetric] Let_def split: if_splits) (simp add: t_def)
  have "Split t (CHR '','') = [t]" using t(2) by (intro split_by_none) auto
  then have "fwPortCovers s p \<longleftrightarrow> part_covers p t"
    using t by (simp add: fwPortCovers_def t_def [symmetric] Let_def)
  also have "\<dots> \<longleftrightarrow> lo \<le> p \<and> p \<le> hi"
    using assms t
    by (auto simp: parseFWPort_def part_covers_def t_def [symmetric] Let_def one_port_Inr
        split: if_splits option.splits sum.splits)
  finally show ?thesis .
qed

lemma validate_Inr:
  assumes "validateFWSpec spec0 = Inr spec"
  shows "spec = normalise_spec spec0" "fs_Action spec \<in> {''allow'', ''deny''}" "fs_Proto spec \<in> {''tcp'', ''udp''}"
    "fs_Source spec = [] \<or> ParseIP_ok (fs_Source spec) \<or> ParseCIDR_ok (fs_Source spec)"
    "fs_Port spec = [] \<Longrightarrow> fs_Action spec = ''deny'' \<and> fs_Source spec \<noteq> []"
    "fs_Port spec \<noteq> [] \<Longrightarrow> \<exists>lo hi. parseFWPort (fs_Port spec) = Inr (lo, hi)"
  using assms by (auto simp: validateFWSpec_def Let_def split: if_splits sum.splits)

lemma protected_22: "22 \<in> set (protectedPorts h cfg)"
  by (simp add: protectedPorts_def sshdPorts_def Let_def)

lemma port_line_pos: "p \<in> set (port_line l) \<Longrightarrow> 0 < p"
  by (auto simp: port_line_def Let_def split: if_splits)

lemma protected_pos: "p \<in> set (protectedPorts h cfg) \<Longrightarrow> 0 < p"
  by (auto simp: protectedPorts_def sshdPorts_def sshdSessionPorts_def Let_def split_def
      dest!: port_line_pos split: if_splits option.splits)

lemma touches_none:
  assumes "\<forall>p \<in> set ps. 0 < p"
  shows "touches spec ps > 0 \<longleftrightarrow> (\<exists>p \<in> set ps. fwPortCovers (fs_Port spec) p)"
  using assms find_NoneD [of "fwPortCovers (fs_Port spec)" ps]
  by (cases "find (fwPortCovers (fs_Port spec)) ps") (auto simp: touches_def dest: find_SomeD)

section \<open>Closing a port\<close>

text \<open>The command that adds a rule, on each backend.\<close>

definition add_argv :: "host \<Rightarrow> fw_spec \<Rightarrow> bool \<Rightarrow> string list" where
  "add_argv h spec allow =
     (case detectFirewall h of
        UFW \<Rightarrow> ''ufw'' # ufw_args (if allow then ''allow'' else ''deny'') spec
      | Firewalld \<Rightarrow> firewalld_add h spec allow
      | _ \<Rightarrow> ''iptables'' # iptablesArgs spec allow)"

abbreviation persist_argv :: "string list" where
  "persist_argv \<equiv> [''netfilter-persistent'', ''save'']"

lemma fw_apply_commands:
  "snd (fw_apply h spec allow) \<noteq> [] \<Longrightarrow>
   \<exists>rest. snd (fw_apply h spec allow) = add_argv h spec allow # rest \<and> set rest \<subseteq> {firewalld_reload, persist_argv}"
  by (auto simp: fw_apply_def add_argv_def ufwRun_def firewalldRun_def iptablesRun_def iptablesPersist_def
      Let_def split_def split: fw_backend.splits if_splits)


definition demo_host :: "string list \<Rightarrow> (string list \<Rightarrow> string \<times> bool) \<Rightarrow> host" where
  "demo_host progs out = \<lparr> ho_LookPath = (\<lambda>p. p \<in> set progs), ho_run = out, ho_file = (\<lambda>_. None), ho_glob = (\<lambda>_. []) \<rparr>"

definition demo_spec :: "string \<Rightarrow> string \<Rightarrow> string \<Rightarrow> fw_spec" where
  "demo_spec action port src = \<lparr> fs_Action = action, fs_Proto = ''TCP'', fs_Port = port, fs_Source = src, fs_Comment = [] \<rparr>"

lemma demo_ports: "protectedPorts (demo_host progs (\<lambda>_. ([], True))) None = [22, 51931]"
  by (simp add: protectedPorts_def sshdPorts_def sshdSessionPorts_def demo_host_def Let_def Contains_def)


section \<open>Deleting a rule\<close>

lemma cut_gap_suffix: "cut_gap s = Some (a, b) \<Longrightarrow> suffix b s \<and> (b = [] \<longrightarrow> re_space (last s)) \<and> s \<noteq> []"
proof (induction s arbitrary: a b)
  case (Cons c s)
  show ?case
  proof (cases "re_space c \<and> s \<noteq> [] \<and> re_space (hd s)")
    case True
    then have "b = dropWhile re_space s" using Cons.prems by auto
    moreover have "re_space (last s)" if "dropWhile re_space s = []"
      using that True by (simp add: dropWhile_eq_Nil_conv)
    ultimately show ?thesis using True by (auto simp: suffix_dropWhile suffix_ConsI)
  next
    case False
    then obtain a' where "cut_gap s = Some (a', b)" using Cons.prems by (auto split: if_splits)
    then show ?thesis using Cons.IH by (fastforce simp: suffix_ConsI)
  qed
qed simp

lemma re_space_space: "re_space c \<Longrightarrow> is_space c"
  by (auto simp: re_space_def is_space_def)

lemma ufw_columns_source:
  assumes "ufw_columns (TrimSpace l) = Some (to, action, src)"
  shows "TrimSpace src \<noteq> []"
proof -
  let ?s = "TrimSpace l"
  have last_word: "TrimSpace (last ws) \<noteq> []" if "ws = Fields ?s" "length ws \<ge> 3" for ws
  proof -
    have "ws \<noteq> []" using that(2) by auto
    then have "plain (last ws)" using that(1) plain_Fields last_in_set by metis
    then show ?thesis by (auto simp: plain_TrimSpace)
  qed
  show ?thesis
  proof (cases "\<exists>a b b1 c. cut_gap ?s = Some (a, b) \<and> cut_gap b = Some (b1, c)")
    case True
    then obtain a b b1 c where cuts: "cut_gap ?s = Some (a, b)" "cut_gap b = Some (b1, c)" by blast
    have ne: "?s \<noteq> []" and suf: "suffix b ?s" "suffix c b" "b \<noteq> []" "c = [] \<longrightarrow> re_space (last b)"
      using cut_gap_suffix [OF cuts(1)] cut_gap_suffix [OF cuts(2)] by auto
    have lst: "last b = last ?s" using suf(1,3) by (auto simp: suffix_def)
    then have "c \<noteq> []" using suf(4) last_TrimSpace [OF ne] re_space_space by auto
    moreover have "last c = last ?s" using suf(2) lst calculation by (auto simp: suffix_def)
    ultimately have "\<not> (\<forall>x \<in> set c. is_space x)" using last_TrimSpace [OF ne] by (metis last_in_set)
    then show ?thesis using assms cuts by (auto simp: ufw_columns_def TrimSpace_eq_Nil)
  next
    case False
    then have "src = last (Fields ?s)" "length (Fields ?s) \<ge> 3"
      using assms by (auto simp: ufw_columns_def Let_def split: option.splits if_splits)
    then show ?thesis using last_word by blast
  qed
qed

lemma ufw_line_never_panics: "ufw_line l \<noteq> LinePanics"
proof
  assume p: "ufw_line l = LinePanics"
  obtain num after to action src where *: "ufw_num l = Some (num, after)"
    "ufw_columns (TrimSpace after) = Some (to, action, src)" "Fields (TrimSpace src) = []"
    using p by (auto simp: ufw_line_def Let_def split: option.splits prod.splits if_splits list.splits)
  from ufw_columns_source [OF *(2)] *(3) show False
    by (metis Fields_Nil_iff TrimSpace_eq_Nil TrimSpace_idem)
qed

lemma list_backend_total: "list_backend h b st \<noteq> None"
  by (auto simp: list_backend_def ufwStatus_def Let_def split_def split: fw_backend.splits)
    (metis ufw_line_never_panics)

text \<open>Every listing marks the allows of protected ports.\<close>

definition well_marked :: "int list \<Rightarrow> fw_rule \<Rightarrow> bool" where
  "well_marked ps r \<longleftrightarrow> fr_ID r = [] \<or> fr_Action r \<noteq> ''allow'' \<or> fr_Protected r \<or> (\<forall>p \<in> set ps. \<not> fwPortCovers (fr_Port r) p)"

lemma mark_rule_marks: "well_marked ps (mark_rule ps r)"
  by (auto simp: well_marked_def mark_rule_def list_ex_iff)

lemma listing_marked:
  "list_backend h b st = Some (Inr st') \<Longrightarrow> r \<in> set (fws_Rules st') \<Longrightarrow> well_marked (fws_Protected st) r"
  by (auto simp: list_backend_def ufwStatus_def firewalldStatus_def iptablesStatus_def Let_def split_def
      markProtectedRules_def mark_rule_marks split: fw_backend.splits if_splits)

lemma fwDeleteCommand_total: "fwDeleteCommand h b i ps \<noteq> None"
  using list_backend_total [of h b "blank_status b ps"]
  by (auto simp: fwDeleteCommand_def Let_def split: option.splits sum.splits)

lemma fwDeleteCommand_Inr:
  assumes "fwDeleteCommand h b i ps = Some (Inr (cmd, warning))"
  shows "\<exists>st rule. list_backend h b (blank_status b ps) = Some (Inr st) \<and> rule \<in> set (fws_Rules st) \<and> fr_ID rule = i \<and>
    i \<noteq> [] \<and> (warning = NoWarning \<longrightarrow> \<not> fr_Protected rule)"
  using assms
  by (auto simp: fwDeleteCommand_def Let_def split: option.splits sum.splits if_splits dest!: find_SomeD)


definition demo_ufw :: "string list \<Rightarrow> string \<times> bool" where
  "demo_ufw argv =
     (if argv = [''ufw'', ''status'', ''numbered'']
      then (''Status: active'' @ [CHR 0x0A] @ ''[ 1] 22/tcp   ALLOW IN   Anywhere'' @ [CHR 0x0A] @
            ''[ 2] 8080   DENY IN   Anywhere'' @ [CHR 0x0A] @ ''[ 3] OpenSSH   ALLOW IN   Anywhere'', True)
      else ([], True))"

lemma demo_ufw_ports: "protectedPorts (demo_host [''ufw''] demo_ufw) None = [22, 51931]"
  by (simp add: protectedPorts_def sshdPorts_def sshdSessionPorts_def demo_host_def demo_ufw_def Let_def Contains_def)


section \<open>The preview\<close>

lemma add_argv_not_persist: "add_argv h spec allow \<noteq> persist_argv"
  by (auto simp: add_argv_def firewalld_add_def split: fw_backend.splits)

lemma shellJoin_reload: "shellJoin firewalld_reload = ''firewall-cmd --reload''"
  by (simp add: shellJoin_def shell_word_def ContainsAny_def)

lemma fw_apply_preview:
  assumes "fw_apply h spec allow = (None, cmds)"
  shows "preview h (detectFirewall h) spec allow = map shellJoin (filter (\<lambda>c. c \<noteq> persist_argv) cmds)"
  using assms add_argv_not_persist [of h spec allow]
  by (auto simp: fw_apply_def preview_def add_argv_def ufwRun_def firewalldRun_def iptablesRun_def iptablesPersist_def
      ufwCommands_def shellJoin_reload Let_def split_def split: fw_backend.splits if_splits)



section \<open>Reading back what was added\<close>

lemma Atoi_pos_chars: "Atoi s = (n, True) \<Longrightarrow> 1 \<le> n \<Longrightarrow> CHR ''-'' \<notin> set s \<and> CHR '':'' \<notin> set s \<and> CHR '','' \<notin> set s"
proof -
  assume *: "Atoi s = (n, True)" "1 \<le> n"
  then have s: "s \<noteq> []" by (auto simp: Atoi_def)
  then obtain c t where ct: "s = c # t" by (cases s) auto
  show ?thesis
  proof (cases "c \<in> {CHR ''+'', CHR ''-''}")
    case True
    then have "list_all is_digit t" using * ct by (auto simp: Atoi_def Let_def split: if_splits)
    moreover have "c \<noteq> CHR ''-''"
    proof
      assume "c = CHR ''-''"
      then have "n = - decimal t" using * ct by (auto simp: Atoi_def Let_def split: if_splits)
      moreover have "0 \<le> decimal t" if "list_all is_digit t" for t
        using that by (induction t rule: rev_induct) (auto simp: decimal_snoc decimal_def [of "[]"] digit_val_def is_digit_def)
      ultimately show False using * \<open>list_all is_digit t\<close> by force
    qed
    ultimately show ?thesis using ct True by (auto simp: list_all_iff dest: digit_not_sign)
  next
    case False
    then have "list_all is_digit s" using * ct by (auto simp: Atoi_def Let_def split: if_splits)
    then show ?thesis by (auto simp: list_all_iff dest: digit_not_sign)
  qed
qed

lemma TrimSpace_mem: "\<not> is_space c \<Longrightarrow> c \<in> set s \<longleftrightarrow> c \<in> set (TrimSpace s)"
  by (metis TrimSpace_decomp Un_iff set_append)

lemma one_port_chars: "one_port s = Inr n \<Longrightarrow> CHR ''-'' \<notin> set s \<and> CHR '':'' \<notin> set s \<and> CHR '','' \<notin> set s"
  using Atoi_pos_chars [of "TrimSpace s" n] TrimSpace_mem [of "CHR ''-''" s] TrimSpace_mem [of "CHR '':''" s]
    TrimSpace_mem [of "CHR '',''" s]
  by (auto simp: one_port_Inr is_space_def)

lemma cut_at_split: "c \<in> set s \<Longrightarrow> s = fst (cut_at c s) @ c # snd (cut_at c s)"
  by (induction s) (auto simp: cut_at_def)

lemma cut_at_append: "c \<notin> set a \<Longrightarrow> cut_at c (a @ c # b) = (a, b)"
  by (induction a) (auto simp: cut_at_def)

text \<open>A valid port is a single port, or a range written with a colon or a dash.\<close>

lemma parse_shape:
  assumes "parseFWPort p = Inr (lo, hi)" and "TrimSpace p = p"
  obtains (single) "one_port p = Inr lo" "hi = lo"
  | (range) a b sep where "p = a @ sep # b" "sep = CHR '':'' \<or> sep = CHR ''-''" "one_port a = Inr lo" "one_port b = Inr hi" "lo < hi"
proof -
  have ne: "p \<noteq> []" using assms by (auto simp: parseFWPort_def Let_def)
  show thesis
  proof (cases "port_sep p")
    case None
    then show ?thesis using assms single by (auto simp: parseFWPort_def Let_def split: if_splits sum.splits)
  next
    case (Some sep)
    then have sep: "sep = CHR '':'' \<or> sep = CHR ''-''" "sep \<in> set p" by (auto simp: port_sep_def split: if_splits)
    have "one_port (fst (cut_at sep p)) = Inr lo" "one_port (snd (cut_at sep p)) = Inr hi" "lo < hi"
      using assms Some by (auto simp: parseFWPort_def Let_def split: if_splits sum.splits)
    then show ?thesis using range sep cut_at_split [OF sep(2)] by blast
  qed
qed

lemma colon_range:
  assumes "one_port a = Inr lo" "one_port b = Inr hi" "lo < hi" "TrimSpace (a @ CHR '':'' # b) = a @ CHR '':'' # b"
  shows "parseFWPort (a @ CHR '':'' # b) = Inr (lo, hi)"
  using assms one_port_chars [OF assms(1)] one_port_chars [OF assms(2)]
  by (simp add: parseFWPort_def Let_def port_sep_def cut_at_append)

lemma TrimSpace_swap:
  assumes "TrimSpace (a @ c # b) = a @ c # b" and "\<not> is_space d"
  shows "TrimSpace (a @ d # b) = a @ d # b"
proof (rule TrimSpace_id)
  have "\<not> is_space (hd (a @ c # b))" "\<not> is_space (last (a @ c # b))"
    using assms(1) hd_TrimSpace [of "a @ c # b"] last_TrimSpace [of "a @ c # b"] by auto
  then show "a @ d # b = [] \<or> (\<not> is_space (hd (a @ d # b)) \<and> \<not> is_space (last (a @ d # b)))"
    using assms(2) by (cases a) auto
qed

lemma parse_colon:
  assumes "parseFWPort p = Inr (lo, hi)" and "TrimSpace p = p"
  shows "parseFWPort (ReplaceAll p (CHR ''-'') '':'') = Inr (lo, hi)"
  using assms
proof (cases rule: parse_shape)
  case single
  then show ?thesis using one_port_chars [of p lo] assms by (simp add: ReplaceAll_absent)
next
  case (range a b sep)
  have "ReplaceAll p (CHR ''-'') '':'' = a @ CHR '':'' # b"
    using range one_port_chars [OF range(3)] one_port_chars [OF range(4)]
    by (auto simp: ReplaceAll_append ReplaceAll_absent ReplaceAll_def [of "_ # _"])
      (simp_all add: ReplaceAll_absent flip: ReplaceAll_def)
  moreover have "TrimSpace (a @ CHR '':'' # b) = a @ CHR '':'' # b"
    using TrimSpace_swap [of a sep b "CHR '':''"] assms(2) range(1) by (simp add: is_space_def)
  ultimately show ?thesis using colon_range [OF range(3,4,5)] by simp
qed

end
