(* ===== verification/Firewall_Listing.thy ===== *)
theory Firewall_Listing
  imports Firewall_Laws
begin

text \<open>
  The listings read back what the agent added: a rule written for iptables or firewalld parses to the
  same verdict, protocol, source and ports, and a rule number is the position of the rule. The last
  section shows where the guard can be walked around.
\<close>

section \<open>iptables\<close>

text \<open>Rule \<open>n\<close> of the listing is the \<open>n\<close>-th rule of the chain, which is what the delete command takes.\<close>

definition input_rules :: "string \<Rightarrow> string list" where
  "input_rules out = filter (\<lambda>l. HasPrefix l ''-A INPUT '' \<and> \<not> HasPrefix l ''-P INPUT'') (map TrimSpace (Split out (CHR 0x0A)))"

lemma ipt_scan_rules:
  "fst (ipt_scan ls n d) = map (\<lambda>(i, l). parseIptablesLine l (Suc i))
     (enumerate n (filter (\<lambda>l. HasPrefix l ''-A INPUT '' \<and> \<not> HasPrefix l ''-P INPUT'') (map TrimSpace ls)))"
  by (induction ls n d rule: ipt_scan.induct) (simp_all add: Let_def split_def)

lemma iptables_positions:
  "i < length (input_rules out) \<Longrightarrow>
   fst (parseIptablesRules out) ! i = parseIptablesLine (input_rules out ! i) (Suc i)"
  "length (fst (parseIptablesRules out)) = length (input_rules out)"
  by (simp_all add: parseIptablesRules_def ipt_scan_rules input_rules_def nth_enumerate_eq)

lemma ipt_fields_ID: "fr_ID (ipt_fields fs r) = fr_ID r" "fr_Raw (ipt_fields fs r) = fr_Raw r"
  by (induction fs r rule: ipt_fields.induct) simp_all

lemma parseIptablesLine_ID: "fr_ID (parseIptablesLine l n) = Itoa n"
  by (simp add: parseIptablesLine_def Let_def ipt_fields_ID zero_rule_def)

section \<open>Validated text\<close>

lemma source_plain: "validateFWSpec s0 = Inr s \<Longrightarrow> fs_Source s \<noteq> [] \<Longrightarrow> plain (fs_Source s)"
  using validate_Inr(4) [of s0 s] source_chars [of "fs_Source s"] addr_char_plain
  by (auto simp: plain_def)

lemma port_trimmed: "validateFWSpec s0 = Inr s \<Longrightarrow> TrimSpace (fs_Port s) = fs_Port s"
  by (drule validate_Inr(1)) (simp add: normalise_spec_def)

lemma proto_cases: "validateFWSpec s0 = Inr s \<Longrightarrow> fs_Proto s = ''tcp'' \<or> fs_Proto s = ''udp''"
  using validate_Inr(3) by auto

lemma plain_ReplaceAll: "plain p \<Longrightarrow> plain r \<Longrightarrow> plain (ReplaceAll p c r)"
proof -
  assume *: "plain p" "plain r"
  have "ReplaceAll p c r \<noteq> []"
    using * by (cases p) (auto simp: ReplaceAll_def plain_def)
  then show ?thesis using * set_ReplaceAll [of _ p c r] by (auto simp: plain_def)
qed

text \<open>What both listings must agree on.\<close>

definition reads_back :: "fw_spec \<Rightarrow> bool \<Rightarrow> fw_rule \<Rightarrow> bool" where
  "reads_back s allow r \<longleftrightarrow>
     fr_Action r = (if allow then ''allow'' else ''deny'') \<and> fr_Source r = fs_Source s \<and>
     fr_Proto r = (if fs_Port s = [] then ''any'' else fs_Proto s) \<and>
     (\<forall>p. fwPortCovers (fr_Port r) p = fwPortCovers (fs_Port s) p)"

lemma ToLower_proto: "ToLower ''tcp'' = ''tcp''" "ToLower ''udp'' = ''udp''"
  by code_simp+

lemma ipt_action_targets: "ipt_action ''ACCEPT'' = ''allow''" "ipt_action ''DROP'' = ''deny''"
  by code_simp+

lemma covers_colon:
  assumes "validateFWSpec s0 = Inr s" and "fs_Port s \<noteq> []"
  shows "fwPortCovers (ReplaceAll (fs_Port s) (CHR ''-'') '':'') p = fwPortCovers (fs_Port s) p"
  using validate_Inr(6) [OF assms] parse_colon [OF _ port_trimmed [OF assms(1)]] parse_covers by blast

lemma plain_words:
  "plain ''-A''" "plain ''INPUT''" "plain ''-s''" "plain ''-p''" "plain ''-m''" "plain ''--dport''" "plain ''-j''"
  "plain ''ACCEPT''" "plain ''DROP''" "plain ''comment''" "plain ''--comment''" "plain ''beacle''" "plain ''tcp''"
  "plain ''udp''" "plain '':''"
  by (simp_all add: plain_def is_space_def)

lemma iptables_reads_back:
  assumes v: "validateFWSpec s0 = Inr s"
    and "fs_Port s = [] \<or> plain (fs_Port s)" and "fs_Comment s = [] \<or> plain (fs_Comment s)"
  shows "reads_back s allow (parseIptablesLine (Join (iptablesArgs s allow) '' '') n)"
proof -
  have "\<forall>w \<in> set (iptablesArgs s allow). plain w"
    using assms(2,3) source_plain [OF v] proto_cases [OF v] plain_ReplaceAll [OF _ plain_words(15), of "fs_Port s" "CHR ''-''"]
    by (auto simp: iptablesArgs_def plain_words)
  then have f: "Fields (Join (iptablesArgs s allow) '' '') = iptablesArgs s allow" by (rule Fields_unwords)
  have "ipt_fields (drop 2 (iptablesArgs s allow)) r =
      r\<lparr>fr_Source := (if fs_Source s = [] then fr_Source r else fs_Source s),
        fr_Proto := (if fs_Port s = [] then fr_Proto r else ToLower (fs_Proto s)),
        fr_Port := (if fs_Port s = [] then fr_Port r else ReplaceAll (fs_Port s) (CHR ''-'') '':''),
        fr_Action := ipt_action (if allow then ''ACCEPT'' else ''DROP''),
        fr_Comment := trim_quotes (if fs_Comment s \<noteq> [] then fs_Comment s else ''beacle'')\<rparr>" for r
    by (rule disjE [OF proto_cases [OF v]]; cases "fs_Source s = []"; cases "fs_Port s = []";
        simp add: iptablesArgs_def)
  then have "parseIptablesLine (Join (iptablesArgs s allow) '' '') n =
      (zero_rule\<lparr>fr_ID := Itoa n, fr_Proto := ''any'', fr_Raw := Join (iptablesArgs s allow) '' ''\<rparr>)
        \<lparr>fr_Source := fs_Source s, fr_Proto := (if fs_Port s = [] then ''any'' else ToLower (fs_Proto s)),
        fr_Port := (if fs_Port s = [] then [] else ReplaceAll (fs_Port s) (CHR ''-'') '':''),
        fr_Action := (if allow then ''allow'' else ''deny''),
        fr_Comment := trim_quotes (if fs_Comment s \<noteq> [] then fs_Comment s else ''beacle'')\<rparr>"
    by (simp add: parseIptablesLine_def f Let_def zero_rule_def ipt_action_targets)
  then show ?thesis
    using proto_cases [OF v] covers_colon [OF v] by (auto simp: reads_back_def zero_rule_def ToLower_proto)
qed

section \<open>firewalld\<close>

lemma quoted_here: "v \<noteq> [] \<Longrightarrow> CHR 0x22 \<notin> set v \<Longrightarrow> quoted pre (pre @ v @ CHR 0x22 # rest) = Some (v, rest)"
proof -
  assume *: "v \<noteq> []" "CHR 0x22 \<notin> set v"
  have "takeWhile (\<lambda>c. c \<noteq> CHR 0x22) (v @ CHR 0x22 # rest) = v" "dropWhile (\<lambda>c. c \<noteq> CHR 0x22) (v @ CHR 0x22 # rest) = CHR 0x22 # rest"
    using *(2) by (induction v) auto
  then show ?thesis using *(1) by (simp add: quoted_def HasPrefix_append Let_def)
qed

lemma quoted_elsewhere: "pre \<noteq> [] \<Longrightarrow> s = [] \<or> hd s \<noteq> hd pre \<Longrightarrow> quoted pre s = None"
  by (cases s; cases pre) (auto simp: quoted_def HasPrefix_def)

lemma leftmost_skip: "(\<And>c t. c \<in> set a \<Longrightarrow> m (c # t) = None) \<Longrightarrow> leftmost m (a @ s) = leftmost m s"
  by (induction a) auto

lemma leftmost_none: "(\<And>c t. c \<in> set s \<Longrightarrow> m (c # t) = None) \<Longrightarrow> m [] = None \<Longrightarrow> leftmost m s = None"
  using leftmost_skip [of s m "[]"] by simp

lemma leftmost_here: "m s = Some x \<Longrightarrow> leftmost m s = Some x"
  by (cases s) auto

lemma match_head:
  "match_source [] = None" "c \<noteq> CHR ''s'' \<Longrightarrow> match_source (c # t) = None"
  "match_port [] = None" "c \<noteq> CHR ''p'' \<Longrightarrow> match_port (c # t) = None"
  "match_service [] = None" "c \<noteq> CHR ''s'' \<Longrightarrow> match_service (c # t) = None"
  by (simp_all add: match_source_def match_port_def match_service_def quoted_elsewhere)

lemma match_other:
  "match_port (CHR ''p'' # CHR ''v'' # t) = None" "match_service (CHR ''s'' # CHR ''o'' # t) = None"
  "match_service (CHR ''s'' # CHR ''s'' # t) = None" "match_service (CHR ''s'' # CHR ''='' # t) = None"
  "match_port (CHR ''p'' # CHR ''t'' # t) = None" "match_port [CHR ''p''] = None"
  by (simp_all add: match_port_def match_service_def quoted_def HasPrefix_def)

lemma match_port_here:
  assumes "v \<noteq> []" "CHR 0x22 \<notin> set v" "w \<noteq> []" "CHR 0x22 \<notin> set w"
  shows "match_port (''port port=\"'' @ v @ ''\" protocol=\"'' @ w @ CHR 0x22 # t) = Some (v, w)"
  using quoted_here [OF assms(1,2), of "''port port=\"''" "'' protocol=\"'' @ w @ CHR 0x22 # t"]
    quoted_here [OF assms(3,4), of "'' protocol=\"''" t]
  by (simp add: match_port_def)

lemma match_source_here:
  "v \<noteq> [] \<Longrightarrow> CHR 0x22 \<notin> set v \<Longrightarrow> match_source (''source address=\"'' @ v @ CHR 0x22 # t) = Some v"
  using quoted_here [of v "''source address=\"''" t] by (simp add: match_source_def)

lemma source_letters: "validateFWSpec s0 = Inr s \<Longrightarrow> c \<in> set (fs_Source s) \<Longrightarrow> c \<noteq> CHR ''s'' \<and> c \<noteq> CHR ''p'' \<and> c \<noteq> CHR 0x22"
  using validate_Inr(4) [of s0 s] source_chars [of "fs_Source s" c]
  by (auto simp: addr_char_def is_hex_def hex_val_def is_digit_def Let_def split: if_splits)

lemma port_range_chars: "c \<in> set (port_range p) \<Longrightarrow> is_digit c \<or> c = CHR ''-''"
  by (auto simp: port_range_def split: sum.splits prod.splits if_splits dest: Itoa_char)

lemma digit_letters: "is_digit c \<or> c = CHR ''-'' \<Longrightarrow> c \<noteq> CHR ''s'' \<and> c \<noteq> CHR ''p'' \<and> c \<noteq> CHR 0x22"
  by (auto simp: is_digit_def)

lemma port_range_ne: "port_range p \<noteq> []"
  by (auto simp: port_range_def split: sum.splits prod.splits)

text \<open>The three parts of a rich rule in front of its verdict.\<close>

definition rich_head :: "fw_spec \<Rightarrow> string" where
  "rich_head s = ''rule family=\"'' @ (if CHR '':'' \<in> set (fs_Source s) then ''ipv6'' else ''ipv4'') @ ''\"''"

definition rich_source :: "fw_spec \<Rightarrow> string" where
  "rich_source s = (if fs_Source s \<noteq> [] then '' source address=\"'' @ fs_Source s @ ''\"'' else [])"

definition rich_port :: "fw_spec \<Rightarrow> string" where
  "rich_port s = (if fs_Port s \<noteq> []
     then '' port port=\"'' @ port_range (fs_Port s) @ ''\" protocol=\"'' @ fs_Proto s @ ''\"'' else [])"

lemma fwRichRule_parts: "fwRichRule s allow = rich_head s @ rich_source s @ rich_port s @ '' '' @ (if allow then ''accept'' else ''drop'')"
  by (simp add: fwRichRule_def rich_head_def rich_source_def rich_port_def)

lemma rich_head_source: "leftmost match_source (rich_head s @ t) = leftmost match_source t"
  by (rule leftmost_skip) (auto simp: rich_head_def match_head split: if_splits)

lemma rich_head_port: "leftmost match_port (rich_head s @ t) = leftmost match_port t"
  by (simp add: rich_head_def match_head match_other)

lemma rich_head_service: "leftmost match_service (rich_head s @ t) = leftmost match_service t"
  by (rule leftmost_skip) (auto simp: rich_head_def match_head split: if_splits)

lemma leftmost_blank:
  "leftmost match_source ('' '' @ t) = leftmost match_source t"
  "leftmost match_port ('' '' @ t) = leftmost match_port t"
  by (simp_all add: match_head)

lemma rich_source_found:
  assumes v: "validateFWSpec s0 = Inr s"
  shows "leftmost match_source (fwRichRule s allow) = (if fs_Source s = [] then None else Some (fs_Source s))"
proof (cases "fs_Source s = []")
  case True
  have "leftmost match_source (rich_port s @ '' '' @ (if allow then ''accept'' else ''drop'')) = None"
    using proto_cases [OF v]
    by (intro leftmost_none)
      (auto simp: match_head rich_port_def dest!: port_range_chars digit_letters split: if_splits)
  then show ?thesis using True by (simp add: fwRichRule_parts rich_head_source rich_source_def del: append_assoc)
next
  case False
  then have "leftmost match_source (rich_source s @ t) = Some (fs_Source s)" for t
    using leftmost_here [of match_source, OF match_source_here [of "fs_Source s" t]] source_letters [OF v]
      leftmost_blank(1) [of "''source address=\"'' @ fs_Source s @ CHR 0x22 # t"]
    by (auto simp: rich_source_def)
  then show ?thesis using False by (simp add: fwRichRule_parts rich_head_source)
qed

lemma rich_source_port: "validateFWSpec s0 = Inr s \<Longrightarrow> leftmost match_port (rich_source s @ t) = leftmost match_port t"
  by (rule leftmost_skip) (auto simp: rich_source_def match_head dest!: source_letters split: if_splits)

lemma rich_port_found:
  assumes v: "validateFWSpec s0 = Inr s"
  shows "leftmost match_port (fwRichRule s allow) =
    (if fs_Port s = [] then None else Some (port_range (fs_Port s), fs_Proto s))"
proof (cases "fs_Port s = []")
  case True
  then show ?thesis
    by (simp add: fwRichRule_parts rich_head_port rich_source_port [OF v] rich_port_def match_head match_other)
next
  case False
  have "CHR 0x22 \<notin> set (port_range (fs_Port s))" using port_range_chars digit_letters by blast
  then have "leftmost match_port (rich_port s @ t) = Some (port_range (fs_Port s), fs_Proto s)" for t
    using leftmost_here [of match_port, OF match_port_here [of "port_range (fs_Port s)" "fs_Proto s" t]] proto_cases [OF v] False
      leftmost_blank(2) [of "''port port=\"'' @ port_range (fs_Port s) @ ''\" protocol=\"'' @ fs_Proto s @ CHR 0x22 # t"]
    by (auto simp: rich_port_def port_range_ne)
  then show ?thesis using False by (simp add: fwRichRule_parts rich_head_port rich_source_port [OF v])
qed

lemma rich_service_absent:
  assumes v: "validateFWSpec s0 = Inr s" and "fs_Port s = []"
  shows "leftmost match_service (fwRichRule s allow) = None"
proof -
  let ?tail = "'' '' @ (if allow then ''accept'' else ''drop'')"
  have tail: "leftmost match_service (CHR 0x22 # ?tail) = None" by (simp add: match_head)
  have "leftmost match_service (fs_Source s @ CHR 0x22 # ?tail) = leftmost match_service (CHR 0x22 # ?tail)"
    by (rule leftmost_skip) (auto simp: match_head dest!: source_letters [OF v])
  then have "leftmost match_service (rich_source s @ ?tail) = None"
    using tail by (simp add: rich_source_def match_head match_other)
  then show ?thesis using assms(2) by (simp add: fwRichRule_parts rich_head_service rich_port_def)
qed

lemma HasSuffix_append: "HasSuffix (a @ b) b"
  by (simp add: HasSuffix_def HasPrefix_append)

lemma rich_action_verdict: "rich_action (fwRichRule s allow) = (if allow then ''allow'' else ''deny'')"
proof -
  obtain a where a: "fwRichRule s allow = CHR ''r'' # a @ (if allow then ''accept'' else ''drop'')"
    by (auto simp: fwRichRule_parts rich_head_def intro: that [of "tl (rich_head s @ rich_source s @ rich_port s @ '' '')"])
  have "TrimSpace (fwRichRule s allow) = fwRichRule s allow"
    unfolding a by (rule TrimSpace_id) (simp add: is_space_def)
  then have "ToLower (TrimSpace (fwRichRule s allow)) =
      (CHR ''r'' # ToLower a) @ (if allow then ''accept'' else ''drop'')"
    by (simp add: a ToLower_append) (simp add: ToLower_def lower_char_def)
  then show ?thesis
    using HasSuffix_append [of "CHR ''r'' # ToLower a" "''accept''"] HasSuffix_append [of "CHR ''r'' # ToLower a" "''drop''"]
    by (auto simp: rich_action_def Let_def) (auto simp: HasSuffix_def HasPrefix_def)
qed

lemma range_covers:
  assumes "parseFWPort p = Inr (lo, hi)"
  shows "fwPortCovers (ReplaceAll (port_range p) (CHR ''-'') '':'') q \<longleftrightarrow> lo \<le> q \<and> q \<le> hi"
proof (rule parse_covers)
  have b: "1 \<le> lo" "lo \<le> hi" "hi \<le> 65535" using parse_bounds [OF assms] by auto
  have one: "one_port (Itoa (nat n)) = Inr n" if "1 \<le> n" "n \<le> 65535" for n
    using that by (simp add: one_port_Inr plain_TrimSpace Atoi_Itoa)
  have no: "CHR ''-'' \<notin> set (Itoa n)" "CHR '':'' \<notin> set (Itoa n)" "CHR '','' \<notin> set (Itoa n)" for n
    using Itoa_char [of _ n] digit_not_sign by blast+
  have "ReplaceAll (port_range p) (CHR ''-'') '':'' =
      (if hi = lo then Itoa (nat lo) else Itoa (nat lo) @ CHR '':'' # Itoa (nat hi))"
    using assms no by (auto simp: port_range_def ReplaceAll_append ReplaceAll_absent)
      (simp_all add: ReplaceAll_def [of "_ # _"] ReplaceAll_absent flip: ReplaceAll_def)
  moreover have "parseFWPort (Itoa (nat lo)) = Inr (lo, lo)"
    using one [of lo] b no by (simp add: parseFWPort_def Let_def plain_TrimSpace port_sep_def)
  moreover have "parseFWPort (Itoa (nat lo) @ CHR '':'' # Itoa (nat hi)) = Inr (lo, hi)" if "lo \<noteq> hi"
  proof (rule colon_range)
    have "plain (Itoa (nat lo) @ CHR '':'' # Itoa (nat hi))"
      using plain_Itoa by (auto simp: plain_def is_space_def)
    then show "TrimSpace (Itoa (nat lo) @ CHR '':'' # Itoa (nat hi)) = Itoa (nat lo) @ CHR '':'' # Itoa (nat hi)"
      by (rule plain_TrimSpace)
  qed (use one b that in auto)
  ultimately show "parseFWPort (ReplaceAll (port_range p) (CHR ''-'') '':'') = Inr (lo, hi)" by simp
qed

lemma rich_reads_back:
  assumes v: "validateFWSpec s0 = Inr s"
  shows "reads_back s allow (parseFwRichRule (fwRichRule s allow))"
proof -
  have "fwPortCovers (ReplaceAll (port_range (fs_Port s)) (CHR ''-'') '':'') q = fwPortCovers (fs_Port s) q"
    if "fs_Port s \<noteq> []" for q
    using validate_Inr(6) [OF v that] range_covers parse_covers by blast
  then show ?thesis
    using proto_cases [OF v]
    by (auto simp: reads_back_def parseFwRichRule_def Let_def rich_source_found [OF v] rich_port_found [OF v]
        rich_service_absent [OF v] rich_action_verdict zero_rule_def ToLower_proto)
qed

section \<open>What the guard needs of a backend\<close>

text \<open>
  A backend writes a rule and lists it again. The guard relies on the listing reading back what was
  written, and on the listed rule having an identifier.
\<close>

locale rule_syntax =
  fixes listed :: "fw_spec \<Rightarrow> bool \<Rightarrow> fw_rule"
    and faithful :: "fw_spec \<Rightarrow> bool"
  assumes listed_reads_back: "validateFWSpec s0 = Inr s \<Longrightarrow> faithful s \<Longrightarrow> reads_back s allow (listed s allow)"
    and listed_ID: "fr_ID (listed s allow) \<noteq> []"
begin

lemma allow_comes_back_marked:
  assumes "validateFWSpec s0 = Inr s" and "faithful s" and "p \<in> set ps" and "fwPortCovers (fs_Port s) p"
  shows "fr_Protected (mark_rule ps (listed s True))"
  using listed_reads_back [OF assms(1,2), of True] listed_ID [of s True] assms(3,4)
  by (auto simp: reads_back_def mark_rule_def list_ex_iff)

lemma harmless_comes_back_unmarked:
  assumes "validateFWSpec s0 = Inr s" and "faithful s" and "\<forall>p \<in> set ps. \<not> fwPortCovers (fs_Port s) p"
    and "\<not> fr_Protected (listed s allow)"
  shows "\<not> fr_Protected (mark_rule ps (listed s allow))"
  using listed_reads_back [OF assms(1,2), of allow] assms(3,4)
  by (auto simp: reads_back_def mark_rule_def list_ex_iff)

end

interpretation rich: rule_syntax
  "\<lambda>s allow. (parseFwRichRule (fwRichRule s allow))\<lparr>fr_ID := ''rich:'' @ Itoa i\<rparr>" "\<lambda>_. True" for i
  by unfold_locales (use rich_reads_back in \<open>auto simp: reads_back_def\<close>)

interpretation ipt: rule_syntax
  "\<lambda>s allow. parseIptablesLine (Join (iptablesArgs s allow) '' '') n"
  "\<lambda>s. (fs_Port s = [] \<or> plain (fs_Port s)) \<and> (fs_Comment s = [] \<or> plain (fs_Comment s))" for n
  by unfold_locales (use iptables_reads_back in \<open>auto simp: parseIptablesLine_ID\<close>)



section \<open>Around the guard\<close>


text \<open>
  The ufw rule that opens SSH on a stock Ubuntu names an application profile, not a port. The
  listing keeps the profile name as the port, the guard does not see that it covers port 22, and the
  rule is deleted without the confirmation a protected allow needs.
\<close>

lemma ufw_profile_is_unprotected:
  "FirewallDelete (demo_host [''ufw''] demo_ufw) None ''3'' False =
     Some (Inr NoWarning, [[''ufw'', ''--force'', ''delete'', ''3'']])"
  unfolding FirewallDelete_def demo_ufw_ports by code_simp

text \<open>
  A comment of several words is cut at its blanks: a rule that allows port 22 with the comment
  \<open>old --dport 80\<close> is listed as a rule for another port and loses its protection mark.
\<close>

lemma comment_hides_protected_port:
  "let r = parseIptablesLine (''-A INPUT -p tcp -m tcp --dport 22 -m comment --comment \"old --dport 80\" -j ACCEPT'') 1
   in fr_Action r = ''allow'' \<and> \<not> fwPortCovers (fr_Port r) 22 \<and> \<not> fr_Protected (mark_rule [22] r)"
  by code_simp

end
