(* ===== verification/Cron.thy ===== *)
theory Cron
  imports Go_Strings
begin

text \<open>
  Root's crontab (\<^verbatim>\<open>src/agent/cron_linux.go\<close>): reading lines, validating and writing entries, and the
  three edits. The program \<open>crontab\<close> is not part of the repository: what \<open>crontab -l\<close> prints and
  whether it succeeds, and whether \<open>crontab -\<close> accepts a text, are fields of the record \<open>cron_host\<close>.
  An edit returns its result and the text it handed to \<open>crontab -\<close>, if any. Systemd timers are read
  from JSON and not modelled.
\<close>

record cron_spec =
  cs_Minute :: string
  cs_Hour :: string
  cs_DayMonth :: string
  cs_Month :: string
  cs_DayWeek :: string
  cs_Command :: string

record cron_entry =
  ce_ID :: string
  ce_Source :: string
  ce_spec :: cron_spec
  ce_User :: string
  ce_Editable :: bool

definition zero_cron :: cron_spec where
  "zero_cron = \<lparr> cs_Minute = [], cs_Hour = [], cs_DayMonth = [], cs_Month = [], cs_DayWeek = [], cs_Command = [] \<rparr>"

section \<open>Reading a line\<close>

definition cronEnv :: "string \<Rightarrow> bool" where
  "cronEnv s \<longleftrightarrow> s \<noteq> [] \<and> (is_letter (hd s) \<or> hd s = CHR ''_'') \<and>
     HasPrefix (dropWhile re_space (dropWhile (\<lambda>c. is_letter c \<or> is_digit c \<or> c = CHR ''_'') s)) ''=''"

definition cronShortcuts :: "string \<rightharpoonup> string list" where
  "cronShortcuts = map_of
     [(''@yearly'', [''0'', ''0'', ''1'', ''1'', ''*'']), (''@annually'', [''0'', ''0'', ''1'', ''1'', ''*'']),
      (''@monthly'', [''0'', ''0'', ''1'', ''*'', ''*'']), (''@weekly'', [''0'', ''0'', ''*'', ''*'', ''0'']),
      (''@daily'', [''0'', ''0'', ''*'', ''*'', ''*'']), (''@midnight'', [''0'', ''0'', ''*'', ''*'', ''*'']),
      (''@hourly'', [''0'', ''*'', ''*'', ''*'', ''*''])]"

definition cut_field :: "string \<Rightarrow> string \<Rightarrow> string" where
  "cut_field f rest = TrimSpace (drop (case Index rest f of Some i \<Rightarrow> i + length f | None \<Rightarrow> length f - 1) rest)"

definition splitCronFields :: "string \<Rightarrow> nat \<Rightarrow> (string list \<times> string) option" where
  "splitCronFields line n =
     (let fields = Fields line in
      if length fields < n + 1 then None else Some (take n fields, fold cut_field (take n fields) line))"

definition spec_of :: "string list \<Rightarrow> string \<Rightarrow> cron_spec" where
  "spec_of fs cmd = \<lparr> cs_Minute = fs ! 0, cs_Hour = fs ! 1, cs_DayMonth = fs ! 2, cs_Month = fs ! 3,
     cs_DayWeek = fs ! 4, cs_Command = cmd \<rparr>"

text \<open>The user column of a system crontab, in front of the command.\<close>

definition take_user :: "bool \<Rightarrow> string \<Rightarrow> (string \<times> string) option" where
  "take_user withUser tail =
     (if \<not> withUser then Some ([], tail)
      else case splitCronFields tail 1 of None \<Rightarrow> None | Some (u, cmd) \<Rightarrow> Some (hd u, cmd))"

definition parse_shortcut :: "string \<Rightarrow> bool \<Rightarrow> (cron_spec \<times> string) option" where
  "parse_shortcut rest withUser =
     (let parts = Fields rest in
      if length parts < 2 then None
      else case take_user withUser (Join (tl parts) '' '') of
             None \<Rightarrow> None
           | Some (user, tail) \<Rightarrow>
               if hd parts = ''@reboot'' then Some (zero_cron\<lparr>cs_Minute := ''@reboot'', cs_Command := tail\<rparr>, user)
               else (case cronShortcuts (ToLower (hd parts)) of
                       None \<Rightarrow> None
                     | Some fs \<Rightarrow> Some (spec_of fs tail, user)))"

definition parseCronLine :: "string \<Rightarrow> bool \<Rightarrow> (cron_spec \<times> string) option" where
  "parseCronLine line withUser =
     (let rest = TrimSpace line in
      if rest = [] \<or> HasPrefix rest ''#'' \<or> cronEnv rest then None
      else if HasPrefix rest ''@'' then parse_shortcut rest withUser
      else case splitCronFields rest 5 of
             None \<Rightarrow> None
           | Some (fs, tail) \<Rightarrow>
               (case take_user withUser tail of
                  None \<Rightarrow> None
                | Some (user, cmd) \<Rightarrow> Some (spec_of fs cmd, user)))"

section \<open>Validating and writing an entry\<close>

definition cronBounds :: "nat \<Rightarrow> int \<times> int" where
  "cronBounds idx = [(0, 59), (0, 23), (1, 31), (1, 12), (0, 7)] ! idx"

definition cronNames :: "nat \<Rightarrow> string list" where
  "cronNames idx =
     (if idx = 3 then [''jan'', ''feb'', ''mar'', ''apr'', ''may'', ''jun'', ''jul'', ''aug'', ''sep'', ''oct'', ''nov'', ''dec'']
      else if idx = 4 then [''sun'', ''mon'', ''tue'', ''wed'', ''thu'', ''fri'', ''sat'']
      else [])"

definition cronNum :: "string \<Rightarrow> bool" where
  "cronNum s \<longleftrightarrow> s \<noteq> [] \<and> list_all is_digit s"

definition value_ok :: "nat \<Rightarrow> string \<Rightarrow> bool" where
  "value_ok idx v \<longleftrightarrow> v \<in> set (cronNames idx) \<or>
     (cronNum v \<and> fst (cronBounds idx) \<le> fst (Atoi v) \<and> fst (Atoi v) \<le> snd (cronBounds idx))"

definition before_at :: "char \<Rightarrow> string \<Rightarrow> string \<times> string option" where
  "before_at c s = (case index_of c s of None \<Rightarrow> (s, None) | Some i \<Rightarrow> (take i s, Some (drop (Suc i) s)))"

definition part_ok :: "nat \<Rightarrow> string \<Rightarrow> bool" where
  "part_ok idx part0 =
     (let part1 = TrimSpace (ToLower part0);
          (part, step) = before_at (CHR ''/'') part1
      in part1 \<noteq> [] \<and>
         (case step of
            None \<Rightarrow> True
          | Some st \<Rightarrow> cronNum st \<and> 1 \<le> fst (Atoi st) \<and> fst (Atoi st) \<le> snd (cronBounds idx)) \<and>
         (if part = [] \<or> part = ''*'' then \<not> (part = [] \<and> (step = None \<or> step = Some []))
          else let (lo, rng) = before_at (CHR ''-'') part;
                   hi = (case rng of None \<Rightarrow> part | Some h \<Rightarrow> h)
               in value_ok idx lo \<and> value_ok idx hi))"

definition cronFieldValid :: "string \<Rightarrow> nat \<Rightarrow> bool" where
  "cronFieldValid field0 idx =
     (let field = TrimSpace field0 in
      if field = [] \<or> field = ''*'' then field \<noteq> []
      else list_all (part_ok idx) (Split field (CHR '','')))"

datatype cron_error =
    BadField nat string | EmptyCommand | CommandLines | UnknownEntry string | NoCrontab
  | LoadFailed | EntryGone string | RebootEntry | SaveFailed

definition time_fields :: "cron_spec \<Rightarrow> string list" where
  "time_fields s = [cs_Minute s, cs_Hour s, cs_DayMonth s, cs_Month s, cs_DayWeek s]"

definition validateCronSpec :: "cron_spec \<Rightarrow> cron_error option" where
  "validateCronSpec spec =
     (case find (\<lambda>(idx, v). \<not> cronFieldValid v idx) (enumerate 0 (time_fields spec)) of
        Some (idx, v) \<Rightarrow> Some (BadField idx v)
      | None \<Rightarrow>
          if TrimSpace (cs_Command spec) = [] then Some EmptyCommand
          else if CHR 0x0A \<in> set (cs_Command spec) then Some CommandLines
          else None)"

definition renderCronSpec :: "cron_spec \<Rightarrow> string" where
  "renderCronSpec spec = Join (map TrimSpace (time_fields spec @ [cs_Command spec])) '' ''"

section \<open>The crontab\<close>

record cron_host =
  ch_available :: bool
  ch_list :: "string \<times> bool"
  ch_accepts :: "string \<Rightarrow> bool"

definition loadCrontab :: "string \<times> bool \<Rightarrow> string list option" where
  "loadCrontab res =
     (let (out, ok) = res in
      if \<not> ok then (if Contains (ToLower out) ''no crontab'' then Some [] else None)
      else let ls = Split out (CHR 0x0A) in Some (if last ls = [] then butlast ls else ls))"

definition crontab_text :: "string list \<Rightarrow> string" where
  "crontab_text ls = Join ls [CHR 0x0A] @ [CHR 0x0A]"

definition saveCrontab :: "cron_host \<Rightarrow> string list \<Rightarrow> cron_error option \<times> string option" where
  "saveCrontab h ls = (if ch_accepts h (crontab_text ls) then None else Some SaveFailed, Some (crontab_text ls))"

definition is_entry :: "string \<Rightarrow> bool" where
  "is_entry l \<longleftrightarrow> parseCronLine l False \<noteq> None"

definition crontabEntryLines :: "string list \<Rightarrow> nat list" where
  "crontabEntryLines ls = filter (\<lambda>i. is_entry (ls ! i)) [0..<length ls]"

definition cronID :: "nat \<Rightarrow> string" where
  "cronID n = ''crontab:'' @ Itoa n"

definition parseCronID :: "string \<Rightarrow> nat option" where
  "parseCronID i =
     (let (n, ok) = Atoi (TrimPrefix i ''crontab:'') in
      if i = [] \<or> \<not> ok \<or> n < 0 \<or> \<not> HasPrefix i ''crontab:'' then None else Some (nat n))"

text \<open>The rows of root's crontab as \<open>CronState\<close> lists them.\<close>

definition specs_of :: "string list \<Rightarrow> cron_spec list" where
  "specs_of ls = map (\<lambda>l. fst (the (parseCronLine l False))) (filter is_entry ls)"

definition row_of :: "nat \<Rightarrow> cron_spec \<Rightarrow> cron_entry" where
  "row_of n s = \<lparr> ce_ID = cronID n, ce_Source = ''crontab'', ce_spec = s, ce_User = [], ce_Editable = (cs_Minute s \<noteq> ''@reboot'') \<rparr>"

definition own_rows :: "string list \<Rightarrow> cron_entry list" where
  "own_rows ls = map (\<lambda>(n, s). row_of n s) (enumerate 0 (specs_of ls))"

definition cron_source :: "string \<Rightarrow> string" where
  "cron_source f =
     (if HasPrefix f ''/etc/cron.d/'' then ''cron.d/'' @ drop 12 f
      else if f = ''/etc/crontab'' then ''crontab-system'' else f)"

text \<open>
  \<open>files\<close> are the readable files among \<^verbatim>\<open>/etc/crontab\<close> and \<^verbatim>\<open>/etc/cron.d/*\<close> with their contents; a match of
  the glob has no further slash, so the base name is what follows the directory.
\<close>

definition readSystemCronFiles :: "(string \<times> string) list \<Rightarrow> cron_entry list" where
  "readSystemCronFiles files =
     sort_key (\<lambda>e. (ce_Source e, cs_Command (ce_spec e)))
       (concat (map (\<lambda>(f, raw). List.map_filter (\<lambda>l. map_option (\<lambda>(s, u).
          \<lparr> ce_ID = [], ce_Source = cron_source f, ce_spec = s, ce_User = u, ce_Editable = False \<rparr>)
          (parseCronLine l True)) (Split raw (CHR 0x0A))) files))"

definition CronState :: "cron_host \<Rightarrow> (string \<times> string) list \<Rightarrow> cron_error + cron_entry list" where
  "CronState h files =
     (if ch_available h
      then case loadCrontab (ch_list h) of
             None \<Rightarrow> Inl LoadFailed
           | Some ls \<Rightarrow> Inr (own_rows ls @ readSystemCronFiles files)
      else Inr (readSystemCronFiles files))"

definition CronCreate :: "cron_host \<Rightarrow> cron_spec \<Rightarrow> (cron_error + cron_entry) \<times> string option" where
  "CronCreate h spec =
     (case validateCronSpec spec of
        Some e \<Rightarrow> (Inl e, None)
      | None \<Rightarrow>
          if \<not> ch_available h then (Inl NoCrontab, None)
          else case loadCrontab (ch_list h) of
                 None \<Rightarrow> (Inl LoadFailed, None)
               | Some ls0 \<Rightarrow>
                   let ls = ls0 @ [renderCronSpec spec] in
                   (case saveCrontab h ls of
                      (Some e, t) \<Rightarrow> (Inl e, t)
                    | (None, t) \<Rightarrow>
                        (Inr \<lparr> ce_ID = cronID (length (crontabEntryLines ls) - 1), ce_Source = ''crontab'', ce_spec = spec,
                               ce_User = [], ce_Editable = True \<rparr>, t)))"

definition CronUpdate :: "cron_host \<Rightarrow> string \<Rightarrow> cron_spec \<Rightarrow> cron_error option \<times> string option" where
  "CronUpdate h i spec =
     (case validateCronSpec spec of
        Some e \<Rightarrow> (Some e, None)
      | None \<Rightarrow>
          (case parseCronID i of
             None \<Rightarrow> (Some (UnknownEntry i), None)
           | Some n \<Rightarrow>
               if \<not> ch_available h then (Some NoCrontab, None)
               else case loadCrontab (ch_list h) of
                      None \<Rightarrow> (Some LoadFailed, None)
                    | Some ls \<Rightarrow>
                        let entryLines = crontabEntryLines ls in
                        if n \<ge> length entryLines then (Some (EntryGone i), None)
                        else if cs_Minute (fst (the (parseCronLine (ls ! (entryLines ! n)) False))) = ''@reboot''
                        then (Some RebootEntry, None)
                        else saveCrontab h (ls[entryLines ! n := renderCronSpec spec])))"

definition CronDelete :: "cron_host \<Rightarrow> string \<Rightarrow> cron_error option \<times> string option" where
  "CronDelete h i =
     (case parseCronID i of
        None \<Rightarrow> (Some (UnknownEntry i), None)
      | Some n \<Rightarrow>
          if \<not> ch_available h then (Some NoCrontab, None)
          else case loadCrontab (ch_list h) of
                 None \<Rightarrow> (Some LoadFailed, None)
               | Some ls \<Rightarrow>
                   let entryLines = crontabEntryLines ls in
                   if n \<ge> length entryLines then (Some (EntryGone i), None)
                   else saveCrontab h (take (entryLines ! n) ls @ drop (Suc (entryLines ! n)) ls))"

end
