(* ===== verification/Cron_Laws.thy ===== *)
theory Cron_Laws
  imports Cron
begin

text \<open>
  The crontab as the panel sees it is a list of entries; creating, updating and deleting are appending
  to it, replacing in it and removing from it, and every other line of the file stays as it was. This
  holds for entries whose time fields have no blanks inside; the validation does not ask for that.
\<close>

section \<open>Writing and reading an entry\<close>

definition blank_free :: "cron_spec \<Rightarrow> bool" where
  "blank_free spec \<longleftrightarrow> (\<forall>f \<in> set (time_fields spec). \<forall>c \<in> set (TrimSpace f). \<not> is_space c)"

definition trimmed :: "cron_spec \<Rightarrow> cron_spec" where
  "trimmed s = \<lparr> cs_Minute = TrimSpace (cs_Minute s), cs_Hour = TrimSpace (cs_Hour s), cs_DayMonth = TrimSpace (cs_DayMonth s),
     cs_Month = TrimSpace (cs_Month s), cs_DayWeek = TrimSpace (cs_DayWeek s), cs_Command = TrimSpace (cs_Command s) \<rparr>"

lemma validate_None:
  "validateCronSpec spec = None \<longleftrightarrow>
     (\<forall>(i, f) \<in> set (enumerate 0 (time_fields spec)). cronFieldValid f i) \<and>
     TrimSpace (cs_Command spec) \<noteq> [] \<and> CHR 0x0A \<notin> set (cs_Command spec)"
proof -
  define P where "P = (\<lambda>(idx, v). \<not> cronFieldValid v idx)"
  have "find P (enumerate 0 (time_fields spec)) = None \<longleftrightarrow> (\<forall>(i, f) \<in> set (enumerate 0 (time_fields spec)). cronFieldValid f i)"
    unfolding find_NoneD by (auto simp: P_def)
  then show ?thesis
    unfolding validateCronSpec_def P_def [symmetric] by (auto split: option.splits)
qed

lemma field_plain:
  assumes "validateCronSpec spec = None" and "blank_free spec" and "f \<in> set (time_fields spec)"
  shows "plain (TrimSpace f)"
proof -
  obtain i where "(i, f) \<in> set (enumerate 0 (time_fields spec))"
    using assms(3) by (metis in_set_conv_nth length_enumerate nth_enumerate_eq add_0)
  then have "cronFieldValid f i" using assms(1) by (auto simp: validate_None)
  then have "TrimSpace f \<noteq> []" by (auto simp: cronFieldValid_def Let_def split: if_splits)
  then show ?thesis using assms(2,3) by (auto simp: plain_def blank_free_def)
qed

lemma before_at_fst: "fst (before_at c s) = takeWhile (\<lambda>x. x \<noteq> c) s"
proof (induction s)
  case (Cons x s)
  then show ?case by (auto simp: before_at_def split: option.splits)
qed (simp add: before_at_def)

text \<open>A minute starts with a digit, an asterisk or a slash, so the line is no comment and no assignment.\<close>

lemma minute_head:
  assumes "cronFieldValid f 0" and "plain (TrimSpace f)"
  shows "is_digit (hd (TrimSpace f)) \<or> hd (TrimSpace f) \<in> {CHR ''*'', CHR ''/''}"
proof (cases "TrimSpace f = ''*''")
  case False
  define t where "t = TrimSpace f"
  obtain w ws where w: "Split t (CHR '','') = w # ws" using split_by_nonempty by (metis list.exhaust)
  have ok: "part_ok 0 w"
    using assms False w by (auto simp: cronFieldValid_def Let_def t_def [symmetric] plain_def split: if_splits)
  then have ne: "w \<noteq> []" by (auto simp: part_ok_def Let_def split_def ToLower_def)
  have hd_t: "hd w = hd t" using w ne by (cases t) (auto split: if_splits list.splits)
  have "plain w"
    using ne w split_by_pieces [of w "\<lambda>x. x = CHR '',''" t] assms(2) by (auto simp: plain_def t_def)
  then have "TrimSpace (ToLower w) = ToLower w" by (intro plain_TrimSpace plain_ToLower)
  moreover obtain c v where cv: "ToLower w = c # v" "c = lower_char (hd w)" using ne by (cases w) (auto simp: ToLower_def)
  ultimately have "takeWhile (\<lambda>x. x \<noteq> CHR ''/'') (c # v) \<in> {[], ''*''} \<or>
      value_ok 0 (takeWhile (\<lambda>x. x \<noteq> CHR ''-'') (takeWhile (\<lambda>x. x \<noteq> CHR ''/'') (c # v)))"
    using ok unfolding part_ok_def by (simp only: Let_def split_def before_at_fst) (auto split: if_splits)
  then have "is_digit c \<or> c \<in> {CHR ''*'', CHR ''/''}"
    by (auto simp: value_ok_def cronNames_def cronNum_def split: if_splits)
  then have "is_digit (hd w) \<or> hd w \<in> {CHR ''*'', CHR ''/''}"
    using of_char_lower [of "hd w"] unfolding cv(2) is_digit_def by (auto split: if_splits)
  then show ?thesis using hd_t t_def by simp
qed simp

lemma cut_field_front: "plain f \<Longrightarrow> TrimSpace rest = rest \<Longrightarrow> cut_field f (f @ CHR '' '' # rest) = rest"
  by (simp add: cut_field_def Index_prefix HasPrefix_append TrimSpace_space is_space_def)

lemma fold_cut_field:
  "\<forall>f \<in> set fs. plain f \<Longrightarrow> TrimSpace cmd = cmd \<Longrightarrow> cmd \<noteq> [] \<Longrightarrow>
   fold cut_field fs (Join (fs @ [cmd]) '' '') = cmd \<and> TrimSpace (Join (fs @ [cmd]) '' '') = Join (fs @ [cmd]) '' ''"
proof (induction fs)
  case (Cons f fs)
  let ?r = "Join (fs @ [cmd]) '' ''"
  have r: "Join ((f # fs) @ [cmd]) '' '' = f @ CHR '' '' # ?r" by (cases fs) auto
  have ih: "fold cut_field fs ?r = cmd" "TrimSpace ?r = ?r" using Cons by auto
  have ne: "?r \<noteq> []" using Cons.prems(3) by (cases fs) (auto simp: Join_Cons)
  have "TrimSpace (f @ CHR '' '' # ?r) = f @ CHR '' '' # ?r"
  proof (rule TrimSpace_id)
    show "f @ CHR '' '' # ?r = [] \<or> (\<not> is_space (hd (f @ CHR '' '' # ?r)) \<and> \<not> is_space (last (f @ CHR '' '' # ?r)))"
      using Cons.prems(1) ne last_TrimSpace [of ?r] ih(2) by (auto simp: plain_def)
  qed
  then show ?case using Cons.prems(1) ih unfolding r by (simp add: cut_field_front)
qed simp

lemma Fields_line: "\<forall>f \<in> set fs. plain f \<Longrightarrow> Fields (Join (fs @ [cmd]) '' '') = fs @ Fields cmd"
proof (induction fs)
  case (Cons f fs)
  have "Join ((f # fs) @ [cmd]) '' '' = f @ CHR '' '' # Join (fs @ [cmd]) '' ''" by (cases fs) auto
  then show ?case using Cons by (simp add: Fields_word is_space_def)
qed simp

lemma parse_render:
  assumes "validateCronSpec spec = None" and "blank_free spec"
  shows "parseCronLine (renderCronSpec spec) False = Some (trimmed spec, [])"
proof -
  let ?fs = "map TrimSpace (time_fields spec)" and ?cmd = "TrimSpace (cs_Command spec)"
  have fs: "\<forall>f \<in> set ?fs. plain f" using field_plain [OF assms] by auto
  have cmd: "?cmd \<noteq> []" "TrimSpace ?cmd = ?cmd" using assms(1) by (auto simp: validate_None)
  define line where "line = renderCronSpec spec"
  have line: "line = Join (?fs @ [?cmd]) '' ''" by (simp add: line_def renderCronSpec_def)
  have trim: "TrimSpace line = line" and cut: "fold cut_field ?fs line = ?cmd"
    using fold_cut_field [OF fs cmd(2,1)] line by simp_all
  have "Fields ?cmd \<noteq> []" using cmd by (metis Fields_Nil_iff TrimSpace_eq_Nil)
  then have split: "splitCronFields line 5 = Some (?fs, ?cmd)"
    using Fields_line [OF fs, of ?cmd] line cut by (cases "Fields ?cmd") (simp_all add: splitCronFields_def time_fields_def)
  have "plain (TrimSpace (cs_Minute spec))" using fs by (simp add: time_fields_def)
  moreover have "cronFieldValid (cs_Minute spec) 0" using assms(1) by (auto simp: validate_None time_fields_def)
  ultimately have "is_digit (hd (TrimSpace (cs_Minute spec))) \<or> hd (TrimSpace (cs_Minute spec)) \<in> {CHR ''*'', CHR ''/''}"
    "TrimSpace (cs_Minute spec) \<noteq> []"
    using minute_head by (auto simp: plain_def)
  then have hd: "is_digit (hd line) \<or> hd line \<in> {CHR ''*'', CHR ''/''}" "line \<noteq> []"
    by (auto simp: line time_fields_def)
  then obtain c t where "line = c # t" "is_digit c \<or> c \<in> {CHR ''*'', CHR ''/''}" by (cases line) auto
  then have "\<not> HasPrefix line ''#''" "\<not> HasPrefix line ''@''" "\<not> cronEnv line"
    by (auto simp: HasPrefix_def cronEnv_def is_letter_def is_digit_def)
  then show ?thesis
    unfolding line_def [symmetric] using hd(2) trim split
    by (simp add: parseCronLine_def take_user_def Let_def spec_of_def trimmed_def time_fields_def)
qed

section \<open>The lines of a crontab\<close>

lemma entryLines_Nil [simp]: "crontabEntryLines [] = []"
  by (simp add: crontabEntryLines_def)

lemma entryLines_Cons [simp]:
  "crontabEntryLines (l # ls) = (if is_entry l then [0] else []) @ map Suc (crontabEntryLines ls)"
proof -
  have "[0..<length (l # ls)] = 0 # map Suc [0..<length ls]" by (simp add: map_Suc_upt upt_conv_Cons del: upt_Suc)
  then show ?thesis by (simp add: crontabEntryLines_def filter_map o_def)
qed

lemma length_entryLines: "length (crontabEntryLines ls) = length (filter is_entry ls)"
  by (induction ls) simp_all

lemma entry_line:
  "n < length (filter is_entry ls) \<Longrightarrow>
   crontabEntryLines ls ! n < length ls \<and> ls ! (crontabEntryLines ls ! n) = filter is_entry ls ! n"
proof (induction ls arbitrary: n)
  case (Cons l ls)
  then show ?case by (cases n) (auto simp: length_entryLines nth_append)
qed simp

text \<open>The other lines: comments, assignments and whatever else is no entry.\<close>

definition other_lines :: "string list \<Rightarrow> string list" where
  "other_lines ls = filter (\<lambda>l. \<not> is_entry l \<and> l \<noteq> []) ls"

lemma update_entry:
  "n < length (filter is_entry ls) \<Longrightarrow> is_entry l' \<Longrightarrow>
   filter is_entry (ls[crontabEntryLines ls ! n := l']) = (filter is_entry ls)[n := l'] \<and>
   other_lines (ls[crontabEntryLines ls ! n := l']) = other_lines ls"
proof (induction ls arbitrary: n)
  case (Cons l ls)
  then show ?case by (cases n) (auto simp: length_entryLines nth_append other_lines_def)
qed simp

lemma delete_entry:
  "n < length (filter is_entry ls) \<Longrightarrow>
   (let k = crontabEntryLines ls ! n; ls' = take k ls @ drop (Suc k) ls in
    filter is_entry ls' = take n (filter is_entry ls) @ drop (Suc n) (filter is_entry ls) \<and> other_lines ls' = other_lines ls)"
proof (induction ls arbitrary: n)
  case (Cons l ls)
  then show ?case by (cases n) (auto simp: length_entryLines nth_append other_lines_def Let_def)
qed simp

lemma loaded_lines: "loadCrontab res = Some ls \<Longrightarrow> l \<in> set ls \<Longrightarrow> CHR 0x0A \<notin> set l"
  by (cases res) (auto simp: loadCrontab_def Let_def dest: in_set_butlastD split_by_pieces split: if_splits)

lemma empty_no_entry: "\<not> is_entry []"
  by (simp add: is_entry_def parseCronLine_def)

text \<open>What was written is what the next load reads, up to one blank line in an emptied file.\<close>

lemma load_saved:
  assumes "\<forall>l \<in> set ls. CHR 0x0A \<notin> set l"
  shows "\<exists>ls'. loadCrontab (crontab_text ls, True) = Some ls' \<and> specs_of ls' = specs_of ls \<and> other_lines ls' = other_lines ls"
proof (cases "ls = []")
  case True
  then show ?thesis by (simp add: loadCrontab_def crontab_text_def Let_def specs_of_def other_lines_def empty_no_entry)
next
  case False
  then show ?thesis using Split_Join_final [OF assms] by (simp add: loadCrontab_def crontab_text_def Let_def)
qed

lemma rendered_line:
  assumes "validateCronSpec spec = None" and "blank_free spec"
  shows "CHR 0x0A \<notin> set (renderCronSpec spec)"
proof -
  have "CHR 0x0A \<notin> set (TrimSpace f)" if "f \<in> set (time_fields spec @ [cs_Command spec])" for f
  proof (cases "f = cs_Command spec")
    case True
    then show ?thesis using assms(1) set_TrimSpace [of "cs_Command spec"] unfolding validate_None by blast
  next
    case False
    then have "plain (TrimSpace f)" using that field_plain [OF assms] by auto
    then show ?thesis by (auto simp: plain_def is_space_def)
  qed
  then have "\<forall>w \<in> set (map TrimSpace (time_fields spec @ [cs_Command spec])). CHR 0x0A \<notin> set w" by auto
  then show ?thesis unfolding renderCronSpec_def by (auto dest!: set_Join)
qed

lemma rendered_entry:
  "validateCronSpec spec = None \<Longrightarrow> blank_free spec \<Longrightarrow>
   is_entry (renderCronSpec spec) \<and> fst (the (parseCronLine (renderCronSpec spec) False)) = trimmed spec"
  by (simp add: is_entry_def parse_render)

lemma parseCronID_cronID: "int n \<le> max_int \<Longrightarrow> parseCronID (cronID n) = Some n"
  using TrimPrefix_append [of "''crontab:''" "Itoa n"] HasPrefix_append [of "''crontab:''" "Itoa n"]
  by (simp add: parseCronID_def cronID_def Atoi_Itoa Let_def)

section \<open>The three edits\<close>

text \<open>The crontab the next load reads after the text \<open>t\<close> was installed.\<close>

definition installs :: "string option \<Rightarrow> cron_spec list \<Rightarrow> string list \<Rightarrow> bool" where
  "installs t specs others \<longleftrightarrow>
     (\<exists>text ls. t = Some text \<and> loadCrontab (text, True) = Some ls \<and> specs_of ls = specs \<and> other_lines ls = others)"

lemma installs_save:
  assumes "\<forall>l \<in> set ls. CHR 0x0A \<notin> set l" and "saveCrontab h ls = (e, t)"
  shows "installs t (specs_of ls) (other_lines ls)"
  using load_saved [OF assms(1)] assms(2) by (auto simp: installs_def saveCrontab_def)

lemma specs_entryLines: "length (specs_of ls) = length (crontabEntryLines ls)"
  by (simp add: specs_of_def length_entryLines)

lemma cron_create_refines:
  assumes "loadCrontab (ch_list h) = Some ls" and "blank_free spec" and c: "CronCreate h spec = (Inr e, t)"
  shows "installs t (specs_of ls @ [trimmed spec]) (other_lines ls) \<and> ce_ID e = cronID (length (specs_of ls))"
proof -
  let ?new = "ls @ [renderCronSpec spec]"
  have v: "validateCronSpec spec = None" and e: "ce_ID e = cronID (length (crontabEntryLines ?new) - 1)"
    and s: "saveCrontab h ?new = (None, t)"
    using c assms(1) by (auto simp: CronCreate_def Let_def split: option.splits if_splits prod.splits)
  have "installs t (specs_of ?new) (other_lines ?new)"
    using loaded_lines [OF assms(1)] rendered_line [OF v assms(2)] by (intro installs_save [OF _ s]) auto
  then show ?thesis
    using e rendered_entry [OF v assms(2)] by (simp add: specs_of_def other_lines_def length_entryLines)
qed

lemma cron_update_refines:
  assumes "loadCrontab (ch_list h) = Some ls" and "blank_free spec" and "parseCronID i = Some n"
    and u: "CronUpdate h i spec = (None, t)"
  shows "n < length (specs_of ls) \<and> installs t ((specs_of ls)[n := trimmed spec]) (other_lines ls)"
proof -
  let ?new = "ls[crontabEntryLines ls ! n := renderCronSpec spec]"
  have v: "validateCronSpec spec = None" and n: "n < length (crontabEntryLines ls)" and s: "saveCrontab h ?new = (None, t)"
    using u assms(1,3) by (auto simp: CronUpdate_def Let_def split: option.splits if_splits)
  have "installs t (specs_of ?new) (other_lines ?new)"
    using loaded_lines [OF assms(1)] rendered_line [OF v assms(2)] set_update_subset_insert [of ls]
    by (intro installs_save [OF _ s]) blast
  moreover have "specs_of ?new = (specs_of ls)[n := trimmed spec]" "other_lines ?new = other_lines ls"
    using update_entry [of n ls "renderCronSpec spec"] n rendered_entry [OF v assms(2)]
    by (simp_all add: specs_of_def length_entryLines map_update)
  ultimately show ?thesis using n by (simp add: specs_entryLines)
qed

lemma cron_delete_refines:
  assumes "loadCrontab (ch_list h) = Some ls" and "parseCronID i = Some n" and d: "CronDelete h i = (None, t)"
  shows "n < length (specs_of ls) \<and> installs t (take n (specs_of ls) @ drop (Suc n) (specs_of ls)) (other_lines ls)"
proof -
  let ?new = "take (crontabEntryLines ls ! n) ls @ drop (Suc (crontabEntryLines ls ! n)) ls"
  have n: "n < length (crontabEntryLines ls)" and s: "saveCrontab h ?new = (None, t)"
    using d assms(1,2) by (auto simp: CronDelete_def Let_def split: option.splits if_splits)
  have "installs t (specs_of ?new) (other_lines ?new)"
    using loaded_lines [OF assms(1)] by (intro installs_save [OF _ s]) (auto dest: in_set_takeD in_set_dropD)
  moreover have "specs_of ?new = take n (specs_of ls) @ drop (Suc n) (specs_of ls)" "other_lines ?new = other_lines ls"
    using delete_entry [of n ls] n by (simp_all add: specs_of_def length_entryLines Let_def take_map drop_map)
  ultimately show ?thesis using n by (simp add: specs_entryLines)
qed


definition demo_cron :: cron_host where
  "demo_cron = \<lparr> ch_available = True, ch_list = (''# jobs'' @ [CHR 0x0A] @ ''5 4 * * * backup --all'' @ [CHR 0x0A], True),
     ch_accepts = (\<lambda>_. True) \<rparr>"

definition demo_job :: "string \<Rightarrow> cron_spec" where
  "demo_job m = \<lparr> cs_Minute = m, cs_Hour = ''*'', cs_DayMonth = ''*'', cs_Month = ''*'', cs_DayWeek = ''MON-fri'',
     cs_Command = '' tidy up '' \<rparr>"


section \<open>Blanks inside a field\<close>

text \<open>
  The validation trims every item of a comma list before it looks at it, but the line is written
  with the field as it came. A minute field \<open>1, 2\<close> is accepted, and the entry that is installed runs
  another command at another time; with a line break after the comma one entry becomes two lines,
  although line breaks in a command are refused.
\<close>

lemma cron_blank_slips_through:
  "validateCronSpec (demo_job ''1, 2'') = None \<and>
   parseCronLine (renderCronSpec (demo_job ''1, 2'')) False =
     Some (\<lparr> cs_Minute = ''1,'', cs_Hour = ''2'', cs_DayMonth = ''*'', cs_Month = ''*'', cs_DayWeek = ''*'',
             cs_Command = ''MON-fri tidy up'' \<rparr>, []) \<and>
   validateCronSpec (demo_job (''1,'' @ [CHR 0x0A] @ ''2'')) = None \<and>
   loadCrontab (the (snd (CronCreate demo_cron (demo_job (''1,'' @ [CHR 0x0A] @ ''2'')))), True) =
     Some [''# jobs'', ''5 4 * * * backup --all'', ''1,'', ''2 * * * MON-fri tidy up'']"
  by (intro conjI) code_simp+

end
