(* ===== verification/Systemd_Unit.thy ===== *)
theory Systemd_Unit
  imports Go_Strings
begin

text \<open>
  Making a systemd service from the panel: what may become a unit and how it is rendered
  (\<^verbatim>\<open>src/agent/systemd_unit.go\<close>), installing and removing it
  (\<^verbatim>\<open>src/agent/systemd_create_linux.go\<close>), and the shell words of \<^verbatim>\<open>src/agent/util.go\<close>.

  The machine of one operation is the record \<open>unit_host\<close>: the file at the unit's path, whether the
  working directory exists, what \<open>systemd-analyze\<close> says, whether the write goes through (a failed
  \<open>os.WriteFile\<close> has truncated the file and written some of it) and which \<open>systemctl\<close> calls succeed.
\<close>

abbreviation newline :: char where "newline \<equiv> CHR 0x0A"
abbreviation backslash :: char where "backslash \<equiv> CHR 0x5C"
abbreviation dquote :: char where "dquote \<equiv> CHR 0x22"
abbreviation squote :: char where "squote \<equiv> CHR 0x27"

record unit_spec =
  us_Name :: string
  us_Description :: string
  us_ExecStart :: string
  us_WorkingDir :: string
  us_User :: string
  us_Restart :: string
  us_RestartSec :: int
  us_Env :: "(string, string) gomap"
  us_After :: string
  us_EnableAtBoot :: bool
  us_StartNow :: bool
  us_Overwrite :: bool

datatype unit_error =
    NameLength | NameCharacter | NameStart | NoCommand | BadEnvName string
  | DirNotAbsolute | DirMissing string | AlreadyExists | Rejected string | WriteFailed
  | ReloadFailed | EnableFailed | StartFailed | NotInUnitDir | RemoveFailed

section \<open>Names and values\<close>

definition unit_char :: "char \<Rightarrow> bool" where
  "unit_char r \<longleftrightarrow> r \<in> {CHR ''-'', CHR ''_'', CHR ''.'', CHR ''@''} \<or> is_letter r \<or> is_digit r"

definition validUnitName :: "string \<Rightarrow> unit_error + string" where
  "validUnitName name0 =
     (let name = TrimSuffix (TrimSpace name0) ''.service'' in
      if name = [] \<or> length name > 64 then Inl NameLength
      else if \<not> list_all unit_char name then Inl NameCharacter
      else if HasPrefix name ''-'' \<or> HasPrefix name ''.'' then Inl NameStart
      else Inr name)"

definition oneLine :: "string \<Rightarrow> string" where
  "oneLine v = TrimSpace (ReplaceAll (ReplaceAll v (CHR 0x0D) '' '') newline '' '')"

definition quoteEnv :: "string \<Rightarrow> string \<Rightarrow> string" where
  "quoteEnv name v =
     name @ ''='' @ [dquote] @
       ReplaceAll (ReplaceAll v backslash [backslash, backslash]) dquote [backslash, dquote] @ [dquote]"

definition validateSpecFields :: "unit_spec \<Rightarrow> unit_error + string" where
  "validateSpecFields spec =
     (case validUnitName (us_Name spec) of
        Inl e \<Rightarrow> Inl e
      | Inr name \<Rightarrow>
          if TrimSpace (us_ExecStart spec) = [] then Inl NoCommand
          else (case find (\<lambda>k. TrimSpace k = [] \<or> ContainsAny k [CHR ''='', CHR '' '', CHR 0x09]) (map fst (us_Env spec)) of
                  Some k \<Rightarrow> Inl (BadEnvName k)
                | None \<Rightarrow> Inr name))"

section \<open>Rendering\<close>

abbreviation sortedKeys :: "(string, string) gomap \<Rightarrow> string list" where
  "sortedKeys m \<equiv> sort (map fst m)"

definition unit_description :: "unit_spec \<Rightarrow> string" where
  "unit_description spec = (if TrimSpace (us_Description spec) = [] then us_Name spec else TrimSpace (us_Description spec))"

definition unit_after :: "unit_spec \<Rightarrow> string" where
  "unit_after spec = (if TrimSpace (us_After spec) = [] then ''network-online.target'' else TrimSpace (us_After spec))"

definition unit_restart :: "unit_spec \<Rightarrow> string" where
  "unit_restart spec = (if us_Restart spec \<in> {''always'', ''on-failure'', ''no''} then us_Restart spec else ''always'')"

definition nl :: "string \<Rightarrow> string" where "nl s = s @ [newline]"

definition renderUnit :: "unit_spec \<Rightarrow> string" where
  "renderUnit spec =
     nl (''# Generated by Beacle. Edits here are kept '' @ em_dash @ '' Beacle only'') @
     nl ''# rewrites this file when you save the service again.'' @ [newline] @
     nl ''[Unit]'' @
     nl (''Description='' @ oneLine (unit_description spec)) @
     nl (''After='' @ oneLine (unit_after spec)) @
     (if Contains (unit_after spec) ''network-online.target'' then nl ''Wants=network-online.target'' else []) @
     nl ''StartLimitIntervalSec=0'' @
     [newline] @ nl ''[Service]'' @
     nl ''Type=simple'' @
     nl (''ExecStart='' @ oneLine (us_ExecStart spec)) @
     (if TrimSpace (us_WorkingDir spec) \<noteq> [] then nl (''WorkingDirectory='' @ oneLine (TrimSpace (us_WorkingDir spec))) else []) @
     (if TrimSpace (us_User spec) \<noteq> [] then nl (''User='' @ oneLine (TrimSpace (us_User spec))) else []) @
     nl (''Restart='' @ unit_restart spec) @
     (if unit_restart spec \<noteq> ''no''
      then nl (''RestartSec='' @ Itoa (nat (if us_RestartSec spec \<le> 0 then 3 else us_RestartSec spec))) else []) @
     concat (map (\<lambda>k. nl (''Environment='' @ quoteEnv (oneLine k) (oneLine (the (map_of (us_Env spec) k))))) (sortedKeys (us_Env spec))) @
     [newline] @ nl ''[Install]'' @
     nl ''WantedBy=multi-user.target''"

section \<open>Installing and removing\<close>

record unit_host =
  uh_file :: "string option"
  uh_dir :: "string \<Rightarrow> bool"
  uh_verify :: "string \<Rightarrow> bool \<times> string"
  uh_write :: "nat option"
  uh_systemctl :: "string \<Rightarrow> bool"
  uh_remove :: bool

definition unitPath :: "string \<Rightarrow> string" where
  "unitPath name = ''/etc/systemd/system/'' @ name @ ''.service''"

definition validateSpec :: "unit_host \<Rightarrow> unit_spec \<Rightarrow> unit_error + string" where
  "validateSpec h spec =
     (case validateSpecFields spec of
        Inl e \<Rightarrow> Inl e
      | Inr name \<Rightarrow>
          let wd = TrimSpace (us_WorkingDir spec) in
          if wd \<noteq> [] \<and> \<not> HasPrefix wd ''/'' then Inl DirNotAbsolute
          else if wd \<noteq> [] \<and> \<not> uh_dir h wd then Inl (DirMissing wd)
          else Inr name)"

text \<open>\<open>os.WriteFile\<close>: \<open>None\<close> writes all of it, \<open>Some n\<close> fails after \<open>n\<close> bytes.\<close>

definition write_unit :: "unit_host \<Rightarrow> string \<Rightarrow> bool \<times> unit_host" where
  "write_unit h text =
     (case uh_write h of
        None \<Rightarrow> (True, h\<lparr>uh_file := Some text\<rparr>)
      | Some n \<Rightarrow> (False, h\<lparr>uh_file := Some (take n text)\<rparr>))"

text \<open>\<open>undo\<close>; the file could be written a moment ago, so it can be written back.\<close>

definition undo_unit :: "string option \<Rightarrow> unit_host \<Rightarrow> unit_host" where
  "undo_unit previous h = h\<lparr>uh_file := previous\<rparr>"

definition CreateSystemdUnit :: "unit_host \<Rightarrow> unit_spec \<Rightarrow> (unit_error + string) \<times> unit_host" where
  "CreateSystemdUnit h spec0 =
     (case validateSpec h spec0 of
        Inl e \<Rightarrow> (Inl e, h)
      | Inr name \<Rightarrow>
          let spec = spec0\<lparr>us_Name := name\<rparr>;
              previous = uh_file h;
              text = renderUnit spec
          in if previous \<noteq> None \<and> \<not> us_Overwrite spec then (Inl AlreadyExists, h)
             else if \<not> fst (uh_verify h text) then (Inl (Rejected (snd (uh_verify h text))), h)
             else let (ok, h1) = write_unit h text in
                  if \<not> ok then (Inl WriteFailed, h1)
                  else if \<not> uh_systemctl h1 ''daemon-reload'' then (Inl ReloadFailed, undo_unit previous h1)
                  else if us_EnableAtBoot spec \<and> \<not> uh_systemctl h1 ''enable'' then (Inl EnableFailed, undo_unit previous h1)
                  else if us_StartNow spec \<and> \<not> uh_systemctl h1 ''start'' then (Inl StartFailed, h1)
                  else (Inr text, h1))"

definition DeleteSystemdUnit :: "unit_host \<Rightarrow> string \<Rightarrow> unit_error option \<times> unit_host" where
  "DeleteSystemdUnit h name =
     (case validUnitName name of
        Inl e \<Rightarrow> (Some e, h)
      | Inr clean \<Rightarrow>
          if uh_file h = None then (Some NotInUnitDir, h)
          else if \<not> uh_remove h then (Some RemoveFailed, h)
          else if \<not> uh_systemctl h ''daemon-reload'' then (Some ReloadFailed, h\<lparr>uh_file := None\<rparr>)
          else (None, h\<lparr>uh_file := None\<rparr>))"

section \<open>Shell words\<close>

definition screenName :: "string \<Rightarrow> unit_error + string" where
  "screenName name =
     (if name = [] \<or> length name > 64 then Inl NameLength
      else if \<not> list_all (\<lambda>r. r \<in> {CHR ''-'', CHR ''_'', CHR ''.''} \<or> is_letter r \<or> is_digit r) name then Inl NameCharacter
      else if HasPrefix name ''-'' then Inl NameStart
      else Inr name)"

definition shellQuote :: "string \<Rightarrow> string" where
  "shellQuote s = [squote] @ ReplaceAll s squote [squote, backslash, squote, squote] @ [squote]"

definition screenLines :: "string \<Rightarrow> string \<Rightarrow> string list" where
  "screenLines dir command = (if dir \<noteq> [] then [''cd '' @ shellQuote dir] else []) @ [TrimSpace command]"

section \<open>Safe names\<close>

lemma validUnitName_safe:
  assumes "validUnitName n = Inr name"
  shows "0 < length name \<and> length name \<le> 64 \<and> CHR ''/'' \<notin> set name \<and> newline \<notin> set name \<and>
    hd name \<noteq> CHR ''.'' \<and> hd name \<noteq> CHR ''-''"
proof -
  have all: "list_all unit_char name" and ne: "name \<noteq> []" "length name \<le> 64"
    and start: "\<not> HasPrefix name ''-''" "\<not> HasPrefix name ''.''"
    using assms by (auto simp: validUnitName_def Let_def split: if_splits)
  have "\<not> unit_char (CHR ''/'')" "\<not> unit_char newline"
    by (simp_all add: unit_char_def is_letter_def is_digit_def)
  then show ?thesis using all ne start by (cases name) (auto simp: list_all_iff HasPrefix_def)
qed

section \<open>One directive per line\<close>

lemma oneLine_no_newline: "newline \<notin> set (oneLine v)"
  using set_TrimSpace [of "ReplaceAll (ReplaceAll v (CHR 0x0D) '' '') newline '' ''"]
  by (auto simp: oneLine_def dest!: set_ReplaceAll)

lemma quoteEnv_no_newline: "newline \<notin> set n \<Longrightarrow> newline \<notin> set v \<Longrightarrow> newline \<notin> set (quoteEnv n v)"
  by (auto simp: quoteEnv_def dest!: set_ReplaceAll)

text \<open>The directives of a unit, written down once more as a list of lines.\<close>

definition unit_lines :: "unit_spec \<Rightarrow> string list" where
  "unit_lines spec =
     [''# Generated by Beacle. Edits here are kept '' @ em_dash @ '' Beacle only'',
      ''# rewrites this file when you save the service again.'', [],
      ''[Unit]'', ''Description='' @ oneLine (unit_description spec), ''After='' @ oneLine (unit_after spec)] @
     (if Contains (unit_after spec) ''network-online.target'' then [''Wants=network-online.target''] else []) @
     [''StartLimitIntervalSec=0'', [], ''[Service]'', ''Type=simple'', ''ExecStart='' @ oneLine (us_ExecStart spec)] @
     (if TrimSpace (us_WorkingDir spec) \<noteq> [] then [''WorkingDirectory='' @ oneLine (TrimSpace (us_WorkingDir spec))] else []) @
     (if TrimSpace (us_User spec) \<noteq> [] then [''User='' @ oneLine (TrimSpace (us_User spec))] else []) @
     [''Restart='' @ unit_restart spec] @
     (if unit_restart spec \<noteq> ''no''
      then [''RestartSec='' @ Itoa (nat (if us_RestartSec spec \<le> 0 then 3 else us_RestartSec spec))] else []) @
     map (\<lambda>k. ''Environment='' @ quoteEnv (oneLine k) (oneLine (the (map_of (us_Env spec) k)))) (sortedKeys (us_Env spec)) @
     [[], ''[Install]'', ''WantedBy=multi-user.target'']"

lemma renderUnit_lines: "renderUnit spec = concat (map nl (unit_lines spec))"
  by (simp add: renderUnit_def unit_lines_def nl_def o_def)

lemma em_dash_no_newline: "newline \<notin> set em_dash"
  by (simp add: em_dash_def)

lemma unit_restart_cases: "unit_restart spec \<in> {''always'', ''on-failure'', ''no''}"
  by (simp add: unit_restart_def)

lemma unit_lines_no_newline: "l \<in> set (unit_lines spec) \<Longrightarrow> newline \<notin> set l"
  using unit_restart_cases [of spec] Itoa_char [of newline]
  by (auto simp: unit_lines_def em_dash_no_newline oneLine_no_newline quoteEnv_no_newline is_digit_def split: if_splits)

lemma Split_lines: "\<forall>l \<in> set ls. newline \<notin> set l \<Longrightarrow> Split (concat (map nl ls)) newline = ls @ [[]]"
proof (induction ls)
  case (Cons l ls)
  moreover have "\<forall>x \<in> set l. x \<noteq> newline" using Cons.prems by auto
  ultimately show ?case by (simp add: nl_def split_by_append)
qed simp

end
