(* ===== verification/Systemd_Unit_Laws.thy ===== *)
theory Systemd_Unit_Laws
  imports Systemd_Unit
begin

text \<open>
  What the unit writer promises: a value never becomes a directive, a failed installation leaves the
  machine as it was, and quoting is undone by the reader it is meant for. The readers below follow
  the POSIX shell (quotes and backslashes of one word) and systemd's quoted assignments.
\<close>

section \<open>Directives\<close>

lemma filter_env_directives:
  "filter (\<lambda>l. HasPrefix l ''ExecStart='') (map (\<lambda>k. ''Environment='' @ f k) ks) = []"
  "filter (\<lambda>l. HasPrefix l ''User='') (map (\<lambda>k. ''Environment='' @ f k) ks) = []"
  by (auto simp: filter_empty_conv HasPrefix_def)

text \<open>
  C12. No value of a spec can become a directive of its own. Cut at its line breaks, the rendered unit
  is exactly the list of directives the code means to write, whatever the spec holds: in particular
  there is exactly one \<open>ExecStart\<close> line, and a \<open>User\<close> line only if a user was given.
\<close>

theorem unit_has_only_its_directives:
  "Split (renderUnit spec) newline = unit_lines spec @ [[]] \<and>
   filter (\<lambda>l. HasPrefix l ''ExecStart='') (Split (renderUnit spec) newline) = [''ExecStart='' @ oneLine (us_ExecStart spec)] \<and>
   filter (\<lambda>l. HasPrefix l ''User='') (Split (renderUnit spec) newline) =
     (if TrimSpace (us_User spec) = [] then [] else [''User='' @ oneLine (TrimSpace (us_User spec))])"
proof -
  have lines: "Split (renderUnit spec) newline = unit_lines spec @ [[]]"
    unfolding renderUnit_lines using unit_lines_no_newline by (intro Split_lines) blast
  have "filter (\<lambda>l. HasPrefix l ''ExecStart='') (unit_lines spec) = [''ExecStart='' @ oneLine (us_ExecStart spec)]"
    unfolding unit_lines_def by (simp add: filter_env_directives [simplified] HasPrefix_def)
  moreover have "filter (\<lambda>l. HasPrefix l ''User='') (unit_lines spec) =
     (if TrimSpace (us_User spec) = [] then [] else [''User='' @ oneLine (TrimSpace (us_User spec))])"
    unfolding unit_lines_def by (simp add: filter_env_directives [simplified] HasPrefix_def)
  ultimately show ?thesis by (simp add: lines HasPrefix_def)
qed

section \<open>Installation\<close>


definition demo_unit :: unit_spec where
  "demo_unit = \<lparr> us_Name = ''web.service'', us_Description = ''Web'', us_ExecStart = ''/srv/web'', us_WorkingDir = ''/srv'',
     us_User = ''www'', us_Restart = ''no'', us_RestartSec = 0, us_Env = [(''MODE'', ''a b'')], us_After = [],
     us_EnableAtBoot = True, us_StartNow = False, us_Overwrite = True \<rparr>"

definition demo_unit_host :: "nat option \<Rightarrow> unit_host" where
  "demo_unit_host w = \<lparr> uh_file = Some ''old'', uh_dir = (\<lambda>_. True), uh_verify = (\<lambda>_. (True, [])), uh_write = w,
     uh_systemctl = (\<lambda>c. c \<noteq> ''enable''), uh_remove = True \<rparr>"


text \<open>A write that fails half way is not undone: the unit that was there is gone, and half a unit is.\<close>

lemma failed_write_is_not_undone:
  "fst (CreateSystemdUnit (demo_unit_host (Some 9)) demo_unit) = Inl WriteFailed \<and>
   uh_file (snd (CreateSystemdUnit (demo_unit_host (Some 9)) demo_unit)) = Some ''# Generat''"
  by (intro conjI) code_simp+

section \<open>Quoting\<close>

text \<open>One word as a POSIX shell reads it; the flag says whether the reader is inside single quotes.\<close>

fun sh_word :: "bool \<Rightarrow> string \<Rightarrow> string \<times> string" where
  "sh_word q [] = ([], [])"
| "sh_word True (c # s) = (if c = squote then sh_word False s else (c # fst (sh_word True s), snd (sh_word True s)))"
| "sh_word False [c] = (if c = squote \<or> c = backslash then ([], []) else if is_space c then ([], [c]) else ([c], []))"
| "sh_word False (c # d # s) =
     (if c = squote then sh_word True (d # s)
      else if c = backslash then (d # fst (sh_word False s), snd (sh_word False s))
      else if is_space c then ([], c # d # s)
      else (c # fst (sh_word False (d # s)), snd (sh_word False (d # s))))"

lemma sh_word_open: "s \<noteq> [] \<Longrightarrow> sh_word False (squote # s) = sh_word True s"
  by (cases s) simp_all

lemma sh_word_quoted:
  "sh_word True (ReplaceAll s squote [squote, backslash, squote, squote] @ squote # rest) =
     (s @ fst (sh_word False rest), snd (sh_word False rest))"
proof (induction s)
  case (Cons c s)
  let ?r = "ReplaceAll s squote [squote, backslash, squote, squote] @ squote # rest"
  have r: "?r \<noteq> []" by simp
  have step: "ReplaceAll (c # s) squote [squote, backslash, squote, squote] @ squote # rest =
      (if c = squote then squote # backslash # squote # squote # ?r else c # ?r)"
    by (simp add: ReplaceAll_def)
  show ?case using Cons unfolding step by (simp add: sh_word_open [OF r])
qed (simp add: ReplaceAll_def)

text \<open>An assignment as systemd reads it: a name, an equals sign and a quoted value with escapes.\<close>

fun unescape :: "string \<Rightarrow> string option" where
  "unescape [] = None"
| "unescape [c] = (if c = dquote then Some [] else None)"
| "unescape (c # d # s) =
     (if c = dquote then None
      else if c = backslash then map_option (\<lambda>v. d # v) (unescape s)
      else map_option (\<lambda>v. c # v) (unescape (d # s)))"

definition read_env :: "string \<Rightarrow> (string \<times> string) option" where
  "read_env s =
     (let name = takeWhile (\<lambda>c. c \<noteq> CHR ''='') s; rest = dropWhile (\<lambda>c. c \<noteq> CHR ''='') s in
      if HasPrefix rest [CHR ''='', dquote] then map_option (\<lambda>v. (name, v)) (unescape (drop 2 rest)) else None)"

lemma unescape_step: "c \<noteq> dquote \<Longrightarrow> c \<noteq> backslash \<Longrightarrow> s \<noteq> [] \<Longrightarrow> unescape (c # s) = map_option (\<lambda>v. c # v) (unescape s)"
  by (cases s) simp_all

lemma unescape_quoted:
  "unescape (ReplaceAll (ReplaceAll v backslash [backslash, backslash]) dquote [backslash, dquote] @ [dquote]) = Some v"
proof (induction v)
  case (Cons c v)
  let ?r = "ReplaceAll (ReplaceAll v backslash [backslash, backslash]) dquote [backslash, dquote] @ [dquote]"
  have "ReplaceAll (ReplaceAll (c # v) backslash [backslash, backslash]) dquote [backslash, dquote] @ [dquote] =
      (if c = backslash then backslash # backslash # ?r else if c = dquote then backslash # dquote # ?r else c # ?r)"
    by (simp add: ReplaceAll_def)
  then show ?case using Cons by (simp add: unescape_step)
qed (simp add: ReplaceAll_def)



section \<open>Two gaps\<close>

text \<open>
  A line break in the name of a variable passes the validation and becomes a blank, which splits the
  assignment the validation meant to protect.
\<close>

lemma env_name_line_break:
  "validateSpecFields (demo_unit\<lparr>us_Env := [(''A'' @ [newline] @ ''B'', ''x'')]\<rparr>) = Inr ''web'' \<and>
   ''Environment=A B='' @ [dquote] @ ''x'' @ [dquote] \<in> set (unit_lines (demo_unit\<lparr>us_Env := [(''A'' @ [newline] @ ''B'', ''x'')]\<rparr>))"
  by (intro conjI) code_simp+

text \<open>
  A value that ends in a backslash continues on the next line when systemd reads the unit: here the
  line after the working directory is the one that takes the service off root.
\<close>

lemma trailing_backslash_swallows_next_line:
  "\<exists>a b. unit_lines (demo_unit\<lparr>us_WorkingDir := ''/srv'' @ [backslash]\<rparr>) =
     a @ [''WorkingDirectory=/srv'' @ [backslash], ''User=www''] @ b"
proof -
  let ?ls = "unit_lines (demo_unit\<lparr>us_WorkingDir := ''/srv'' @ [backslash]\<rparr>)"
  have "?ls = take 12 ?ls @ [?ls ! 12, ?ls ! 13] @ drop 14 ?ls" by code_simp
  moreover have "?ls ! 12 = ''WorkingDirectory=/srv'' @ [backslash]" "?ls ! 13 = ''User=www''" by code_simp+
  ultimately show ?thesis by metis
qed

end
