(* ===== verification/Caddyfile.thy ===== *)
theory Caddyfile
  imports Go_Strings
begin

text \<open>
  Reading a Caddyfile the user wrote (\<^verbatim>\<open>src/agent/caddyfile_parse.go\<close>): site blocks and where they are,
  what a block does, whether the form may regenerate it, and swapping one block for new text.
\<close>

section \<open>Definitions\<close>

record caddy_block =
  cb_Addresses :: "string list"
  cb_Body :: string
  cb_Raw :: string
  cb_StartLine :: nat
  cb_EndLine :: nat

text \<open>The loop of \<open>stripComments\<close>, with the quote state and the byte before.\<close>

fun strip_from :: "bool \<Rightarrow> char option \<Rightarrow> string \<Rightarrow> string" where
  "strip_from q prev [] = []"
| "strip_from q prev (c # s) =
     (if c = CHR ''#'' \<and> \<not> q then []
      else c # strip_from (if c = CHR 0x22 \<and> prev \<noteq> Some (CHR 0x5C) then \<not> q else q) (Some c) s)"

definition stripComments :: "string \<Rightarrow> string" where
  "stripComments line = strip_from False None line"

definition Count :: "string \<Rightarrow> char \<Rightarrow> int" where
  "Count s c = int (length (filter (\<lambda>x. x = c) s))"

definition splitAddresses :: "string \<Rightarrow> string list" where
  "splitAddresses addr =
     filter (\<lambda>p. p \<noteq> []) (map TrimSpace (FieldsFunc addr (\<lambda>r. r = CHR '','' \<or> r = CHR '' '' \<or> r = CHR 0x09)))"

definition code_of :: "string \<Rightarrow> string" where
  "code_of line = TrimSpace (stripComments line)"

definition opens :: "string \<Rightarrow> int" where
  "opens code = Count code (CHR 0x7B) - Count code (CHR 0x7D)"

datatype caddy_state =
    Outside
  | Inside (in_header: "string list") (in_depth: int) (in_start: nat) (in_body: "string list") (in_raw: "string list")

fun caddy_scan :: "nat \<Rightarrow> string list \<Rightarrow> caddy_state \<Rightarrow> caddy_block list" where
  "caddy_scan i [] st = []"
| "caddy_scan i (line # ls) Outside =
     (let code = code_of line in
      if code = [] then caddy_scan (Suc i) ls Outside
      else if opens code > 0
      then caddy_scan (Suc i) ls
             (Inside (splitAddresses (TrimSpace (takeWhile (\<lambda>c. c \<noteq> CHR 0x7B) code))) (opens code) i [] [line])
      else caddy_scan (Suc i) ls Outside)"
| "caddy_scan i (line # ls) (Inside header depth start body raw) =
     (let depth' = depth + opens (code_of line) in
      if depth' \<le> 0
      then \<lparr> cb_Addresses = header, cb_Body = Join body [CHR 0x0A], cb_Raw = Join (raw @ [line]) [CHR 0x0A],
             cb_StartLine = start, cb_EndLine = i \<rparr> # caddy_scan (Suc i) ls Outside
      else caddy_scan (Suc i) ls (Inside header depth' start (body @ [line]) (raw @ [line])))"

definition parseCaddyfile :: "string \<Rightarrow> caddy_block list" where
  "parseCaddyfile src = caddy_scan 0 (Split src (CHR 0x0A)) Outside"

text \<open>Line numbers are never negative here, so the first test of \<open>replaceBlock\<close> always passes.\<close>

definition replaceBlock :: "string \<Rightarrow> caddy_block \<Rightarrow> string \<Rightarrow> string option" where
  "replaceBlock src blk raw =
     (let ls = Split src (CHR 0x0A) in
      if cb_EndLine blk < cb_StartLine blk \<or> cb_EndLine blk \<ge> length ls then None
      else Some (Join (take (cb_StartLine blk) ls @ Split (TrimRight raw [CHR 0x0D, CHR 0x0A]) (CHR 0x0A) @
                       drop (Suc (cb_EndLine blk)) ls) [CHR 0x0A]))"

definition bareHost :: "string \<Rightarrow> string" where
  "bareHost addr = TrimPrefix (TrimPrefix addr ''https://'') ''http://''"

definition line_words :: "string \<Rightarrow> string list list" where
  "line_words body = map (\<lambda>l. Fields (code_of l)) (Split body (CHR 0x0A))"

definition directiveArg :: "string \<Rightarrow> string \<Rightarrow> string" where
  "directiveArg body directive =
     (case find (\<lambda>f. length f \<ge> 2 \<and> f ! 0 = directive \<and> f ! 1 \<noteq> [CHR 0x7B]) (line_words body) of
        None \<Rightarrow> []
      | Some f \<Rightarrow> TrimSuffix (f ! 1) [CHR 0x7B])"

definition hasDirective :: "string \<Rightarrow> string \<Rightarrow> bool" where
  "hasDirective body directive =
     list_ex (\<lambda>f. f \<noteq> [] \<and> TrimSuffix (hd f) [CHR 0x7B] = directive) (line_words body)"

datatype site_kind = SiteProxy | SiteStatic | SiteMixed | SiteOther

definition classifyBlock :: "string \<Rightarrow> site_kind" where
  "classifyBlock body =
     (let proxy = hasDirective body ''reverse_proxy'';
          static = (hasDirective body ''file_server'' \<or> hasDirective body ''root'')
      in if proxy \<and> static then SiteMixed else if proxy then SiteProxy else if static then SiteStatic else SiteOther)"

definition unsupported :: "string list" where
  "unsupported = [''handle'', ''handle_path'', ''route'', ''try_files'', ''file_server'', ''root'',
     ''rewrite'', ''redir'', ''php_fastcgi'', ''templates'', ''respond'', ''map'',
     ''forward_auth'', ''reverse_proxy_to'', ''import'', ''uri'', ''vars'']"

definition editableByForm :: "caddy_block \<Rightarrow> bool" where
  "editableByForm b =
     (length (cb_Addresses b) = 1 \<and> classifyBlock (cb_Body b) = SiteProxy \<and>
      list_all (\<lambda>l. code_of l = [] \<or>
          (\<not> HasPrefix (code_of l) ''@'' \<and> TrimSuffix (hd (Fields (code_of l))) [CHR 0x7B] \<notin> set unsupported))
        (Split (cb_Body b) (CHR 0x0A)))"

definition tlsMode :: "caddy_block \<Rightarrow> string" where
  "tlsMode b =
     (let arg = directiveArg (cb_Body b) ''tls'' in
      if arg = ''internal'' then ''internal''
      else if arg \<noteq> [] then ''custom''
      else if cb_Addresses b \<noteq> [] \<and> HasPrefix (hd (cb_Addresses b)) ''http://'' then ''none''
      else ''auto'')"

section \<open>Blocks are where they say\<close>

text \<open>A block with the lines it came from: all of them in \<open>Raw\<close>, those between the braces in \<open>Body\<close>.\<close>

definition located :: "string list \<Rightarrow> caddy_block \<Rightarrow> bool" where
  "located ls b \<longleftrightarrow> cb_StartLine b < cb_EndLine b \<and> cb_EndLine b < length ls \<and>
     cb_Raw b = Join (take (Suc (cb_EndLine b) - cb_StartLine b) (drop (cb_StartLine b) ls)) [CHR 0x0A] \<and>
     cb_Body b = Join (take (cb_EndLine b - Suc (cb_StartLine b)) (drop (Suc (cb_StartLine b)) ls)) [CHR 0x0A]"

text \<open>The scanner has read \<open>done\<close> lines; an open block has collected the lines since its start.\<close>

definition scan_inv :: "string list \<Rightarrow> caddy_state \<Rightarrow> bool" where
  "scan_inv front st \<longleftrightarrow> (case st of Outside \<Rightarrow> True
     | Inside _ _ start body raw \<Rightarrow>
         start < length front \<and> raw = drop start front \<and> body = drop (Suc start) front)"

lemma scan_located:
  "scan_inv front st \<Longrightarrow> i = length front \<Longrightarrow> b \<in> set (caddy_scan i ls st) \<Longrightarrow> located (front @ ls) b"
proof (induction i ls st arbitrary: front rule: caddy_scan.induct)
  case (2 i line ls)
  show ?case
    using 2(1) [OF refl, of "front @ [line]"] 2(2) [OF refl, of "front @ [line]"] 2(3) [OF refl, of "front @ [line]"]
      2(4-)
    by (auto simp: scan_inv_def Let_def split: if_splits)
next
  case (3 i line ls header depth start body raw)
  have inv: "start < length front" "raw = drop start front" "body = drop (Suc start) front"
    using 3(3) by (auto simp: scan_inv_def)
  show ?case
  proof (cases "depth + opens (code_of line) \<le> 0")
    case True
    have "located (front @ line # ls) \<lparr> cb_Addresses = header, cb_Body = Join body [CHR 0x0A],
        cb_Raw = Join (raw @ [line]) [CHR 0x0A], cb_StartLine = start, cb_EndLine = i \<rparr>"
      using inv 3(4) by (simp add: located_def Suc_diff_le)
    then show ?thesis
      using True 3(1) [OF refl True, of "front @ [line]"] 3(4,5) by (auto simp: scan_inv_def Let_def)
  next
    case False
    then show ?thesis
      using 3(2) [OF refl False, of "front @ [line]"] 3(4,5) inv by (auto simp: scan_inv_def Let_def)
  qed
qed simp

text \<open>Blocks come in the order of the file and do not overlap.\<close>

definition earliest :: "nat \<Rightarrow> caddy_state \<Rightarrow> nat" where
  "earliest i st = (case st of Outside \<Rightarrow> i | Inside _ _ start _ _ \<Rightarrow> start)"

lemma scan_from: "b \<in> set (caddy_scan i ls st) \<Longrightarrow> earliest i st \<le> i \<Longrightarrow> earliest i st \<le> cb_StartLine b"
proof (induction i ls st rule: caddy_scan.induct)
  case (2 i line ls)
  show ?case
    using 2(1) [OF refl] 2(2) [OF refl] 2(3) [OF refl] 2(4-)
    by (fastforce simp: earliest_def Let_def split: if_splits)
next
  case (3 i line ls header depth start body raw)
  show ?case
    using 3(1) [OF refl] 3(2) [OF refl] 3(3-)
    by (fastforce simp: earliest_def Let_def split: if_splits)
qed simp

lemma scan_disjoint: "sorted_wrt (\<lambda>a b. cb_EndLine a < cb_StartLine b) (caddy_scan i ls st)"
proof (induction i ls st rule: caddy_scan.induct)
  case (2 i line ls)
  then show ?case by (auto simp: Let_def)
next
  case (3 i line ls header depth start body raw)
  have "i < cb_StartLine b" if "b \<in> set (caddy_scan (Suc i) ls Outside)" for b
    using scan_from [OF that] by (simp add: earliest_def)
  with 3 show ?case by (auto simp: Let_def)
qed simp

lemma parsed_located: "b \<in> set (parseCaddyfile src) \<Longrightarrow> located (Split src (CHR 0x0A)) b"
  using scan_located [of "[]" Outside 0 b] by (simp add: parseCaddyfile_def scan_inv_def)

lemma Split_free: "w \<in> set (Split s c) \<Longrightarrow> c \<notin> set w"
  by (auto dest: split_by_pieces)

text \<open>What \<open>replaceBlock\<close> writes, line by line.\<close>

lemma replaceBlock_lines:
  assumes "located (Split src (CHR 0x0A)) b"
  shows "\<exists>out. replaceBlock src b raw = Some out \<and>
    Split out (CHR 0x0A) = take (cb_StartLine b) (Split src (CHR 0x0A)) @
      Split (TrimRight raw [CHR 0x0D, CHR 0x0A]) (CHR 0x0A) @ drop (Suc (cb_EndLine b)) (Split src (CHR 0x0A))"
proof -
  let ?ls = "take (cb_StartLine b) (Split src (CHR 0x0A)) @
      Split (TrimRight raw [CHR 0x0D, CHR 0x0A]) (CHR 0x0A) @ drop (Suc (cb_EndLine b)) (Split src (CHR 0x0A))"
  have "\<forall>w \<in> set ?ls. CHR 0x0A \<notin> set w"
    by (auto dest: in_set_takeD in_set_dropD Split_free)
  moreover have "?ls \<noteq> []" by (simp add: split_by_nonempty)
  ultimately have "Split (Join ?ls [CHR 0x0A]) (CHR 0x0A) = ?ls" by (rule Split_Join [rotated])
  with assms show ?thesis by (simp add: replaceBlock_def located_def Let_def)
qed

lemma replaceBlock_same:
  assumes loc: "located (Split src (CHR 0x0A)) b"
    and trim: "TrimRight (cb_Raw b) [CHR 0x0D, CHR 0x0A] = cb_Raw b"
  shows "replaceBlock src b (cb_Raw b) = Some src"
proof -
  let ?ls = "Split src (CHR 0x0A)"
  let ?mid = "take (Suc (cb_EndLine b) - cb_StartLine b) (drop (cb_StartLine b) ?ls)"
  have n: "cb_StartLine b < cb_EndLine b" "cb_EndLine b < length ?ls" "cb_Raw b = Join ?mid [CHR 0x0A]"
    using loc by (auto simp: located_def)
  have "?mid \<noteq> []" using n(1,2) by simp
  then have "Split (cb_Raw b) (CHR 0x0A) = ?mid"
    using Split_Join [of ?mid "CHR 0x0A"] n(3) by (metis Split_free in_set_dropD in_set_takeD)
  moreover have "take (cb_StartLine b) ?ls @ ?mid @ drop (Suc (cb_EndLine b)) ?ls = ?ls"
    using append_take_drop_id [of "Suc (cb_EndLine b) - cb_StartLine b" "drop (cb_StartLine b) ?ls"] n(1)
    by (simp add: drop_drop)
  ultimately show ?thesis
    using n(1,2) trim by (simp add: replaceBlock_def Let_def Join_Split)
qed

text \<open>
  C19. A hand-written Caddyfile survives the editor. The blocks the parser lifts out lie in the order of the file and do
  not overlap; each holds exactly the lines it says it was read from. Rewriting one of them always succeeds, and every
  line before and after it is the line that was there: only the block's own lines become the new text. Saving a block
  as it was read gives the file back byte for byte, provided the block does not end in a carriage return.
\<close>

theorem caddy_rewrite_is_local:
  "sorted_wrt (\<lambda>a b. cb_EndLine a < cb_StartLine b) (parseCaddyfile src) \<and>
   (\<forall>b \<in> set (parseCaddyfile src).
      located (Split src (CHR 0x0A)) b \<and>
      (\<exists>out. replaceBlock src b raw = Some out \<and>
        Split out (CHR 0x0A) = take (cb_StartLine b) (Split src (CHR 0x0A)) @
          Split (TrimRight raw [CHR 0x0D, CHR 0x0A]) (CHR 0x0A) @ drop (Suc (cb_EndLine b)) (Split src (CHR 0x0A))) \<and>
      (TrimRight (cb_Raw b) [CHR 0x0D, CHR 0x0A] = cb_Raw b \<longrightarrow> replaceBlock src b (cb_Raw b) = Some src))"
  using scan_disjoint parsed_located replaceBlock_lines replaceBlock_same by (auto simp: parseCaddyfile_def)

definition sample_caddyfile :: string where
  "sample_caddyfile = Join [''# sites'', ''a.com {'', ''reverse_proxy :80'', ''}'', ''b.com, c.com {'', ''root * /srv'',
     ''}'', []] [CHR 0x0A]"

definition sample_block :: caddy_block where
  "sample_block = \<lparr> cb_Addresses = [''a.com''], cb_Body = ''reverse_proxy :80'',
     cb_Raw = Join [''a.com {'', ''reverse_proxy :80'', ''}''] [CHR 0x0A], cb_StartLine = 1, cb_EndLine = 3 \<rparr>"

lemma sample_block_parsed:
  "sample_block \<in> set (parseCaddyfile sample_caddyfile)"
  "TrimRight (cb_Raw sample_block) [CHR 0x0D, CHR 0x0A] = cb_Raw sample_block"
  by code_simp+

theorem caddy_rewrite_is_local_witness:
  "replaceBlock sample_caddyfile sample_block (cb_Raw sample_block) = Some sample_caddyfile"
  using caddy_rewrite_is_local [of sample_caddyfile "[]"] sample_block_parsed by blast

text \<open>
  A file with Windows line ends: the closing brace's line ends in a carriage return, which saving the block as it was
  read takes away, so the untouched file changes.
\<close>

lemma crlf_block_loses_its_return:
  "let src = Join [''a.com {'' @ [CHR 0x0D], ''reverse_proxy :80'' @ [CHR 0x0D], ''}'' @ [CHR 0x0D], []] [CHR 0x0A]
   in map (\<lambda>b. replaceBlock src b (cb_Raw b)) (parseCaddyfile src) =
      [Some (Join [''a.com {'' @ [CHR 0x0D], ''reverse_proxy :80'' @ [CHR 0x0D], ''}'', []] [CHR 0x0A])]"
  by code_simp

section \<open>What the form may edit\<close>

text \<open>
  A quoted brace is counted like any other: \<open>parseCaddyfile\<close> says it counts braces outside quotes, and a block with a
  response body holding a closing brace ends there, in the middle of the site.
\<close>

lemma quoted_brace_ends_block:
  "map cb_EndLine (parseCaddyfile (Join [''a.com {'', ''respond '' @ [CHR 0x22] @ ''}'' @ [CHR 0x22], ''}''] [CHR 0x0A])) = [1]"
  by code_simp

end
