(* ===== verification/Agent_Hub.thy ===== *)
theory Agent_Hub
  imports Registration_Laws Snapshot_Merge
begin

text \<open>
  The backend's end of the agent sockets (\<^verbatim>\<open>src/backend/agent_hub.go\<close>), the terminal relay that
  shares its table of sockets (\<^verbatim>\<open>src/backend/terminal.go\<close>) and the power mode it pushes
  (\<^verbatim>\<open>src/backend/power_mode.go\<close>).

  Sockets, calls and terminals are numbered in the order they are created; \<open>agents\<close>, \<open>pending\<close> and
  \<open>terms\<close> map names to those numbers as the Go maps map them to pointers. A buffered channel is the
  list of what it holds, the \<open>done\<close> channel of a session a flag. The state also holds what the
  frames act on: alert engine with registry, history, spikes and the waiting list.

  \<open>handleMessage\<close> is \<open>None\<close> where the Go code panics. The HTTP server recovers that panic, and the
  deferred \<open>disconnect\<close> of the read loop runs, as it does after a read error.
\<close>

section \<open>Frames\<close>

type_synonym power_mode = string

abbreviation PowerModeActive :: power_mode where "PowerModeActive \<equiv> ''active''"
abbreviation PowerModeEco :: power_mode where "PowerModeEco \<equiv> ''eco''"
abbreviation PowerModeSleep :: power_mode where "PowerModeSleep \<equiv> ''sleep''"

datatype term_op = TermOpen | TermData | TermResize | TermClose | TermExit | TermError | TermUnknown string

record terminal_frame =
  tf_Session :: string
  tf_Op :: term_op
  tf_Data :: string
  tf_Cols :: int
  tf_Rows :: int
  tf_Code :: int
  tf_Error :: string
  tf_User :: string

definition zero_term :: terminal_frame where
  "zero_term = \<lparr> tf_Session = [], tf_Op = TermUnknown [], tf_Data = [], tf_Cols = 0, tf_Rows = 0, tf_Code = 0,
     tf_Error = [], tf_User = [] \<rparr>"

record agent_result =
  ar_RequestID :: string
  ar_StatusCode :: int
  ar_Body :: string

text \<open>What an agent sends; a payload field that may be absent is an option.\<close>

datatype agent_frame =
    RegisterFrame "register_request option"
  | MetricsFrame "system_metrics option"
  | BackfillFrame "metric_sample list"
  | SpikesFrame "spike_record list"
  | DockerFrame "docker_state option"
  | SystemdFrame "systemd_unit list option"
  | PortsFrame "port_info list"
  | ProxyFrame "proxy_state option"
  | TerminalFrame "terminal_frame option"
  | ResultFrame "agent_result option"
  | HeartbeatFrame
  | OtherFrame string

text \<open>What the backend sends.\<close>

datatype hub_frame =
    ErrorFrame reg_error
  | AckFrame register_response power_mode
  | ModeFrame power_mode
  | RefreshFrame
  | CommandFrame string string string string
  | ShellFrame terminal_frame

section \<open>Sessions\<close>

record agent_session =
  ss_vpsID :: string
  ss_entry :: "vps_entry option"
  ss_send :: "hub_frame list"
  ss_done :: bool
  ss_registered :: bool
  ss_remoteIP :: string
  ss_token :: string
  ss_tokenEntry :: "vps_entry option"
  ss_pinnedID :: string
  ss_sent :: "hub_frame list"
  ss_handing :: "(nat \<times> agent_result) option"
  ss_reading :: bool

datatype call_state = Calling | Waiting | Cleaning string | Answered agent_result | Failed string

record hub_call =
  ca_requestID :: string
  ca_sess :: nat
  ca_frame :: hub_frame
  ca_chan :: "agent_result option"
  ca_state :: call_state

record term_sub =
  ts_id :: string
  ts_vpsID :: string
  ts_sess :: nat
  ts_out :: "terminal_frame list"
  ts_ended :: bool

datatype hub_task = SyncWatchersTask | SyncAgentTask string

record agent_hub =
  ah_agents :: "(string, nat) gomap"
  ah_pending :: "(string, nat) gomap"
  ah_terms :: "(string, nat) gomap"
  ah_session :: "nat \<Rightarrow> agent_session"
  ah_sessions :: nat
  ah_call :: "nat \<Rightarrow> hub_call"
  ah_calls :: nat
  ah_term :: "nat \<Rightarrow> term_sub"
  ah_termcount :: nat
  ah_eng :: engine
  ah_hist :: history
  ah_spikes :: spikes
  ah_rejoins :: rejoin_queue
  ah_panel :: "panel_event list"
  ah_mode :: power_mode
  ah_plugins :: bool
  ah_tasks :: "hub_task list"

abbreviation hub_store :: "agent_hub \<Rightarrow> store" where "hub_store h \<equiv> ae_store (ah_eng h)"

definition on_session :: "nat \<Rightarrow> (agent_session \<Rightarrow> agent_session) \<Rightarrow> agent_hub \<Rightarrow> agent_hub" where
  "on_session n f h = h\<lparr>ah_session := (ah_session h)(n := f (ah_session h n))\<rparr>"

definition hub_update :: "(store \<Rightarrow> store) \<Rightarrow> agent_hub \<Rightarrow> agent_hub" where
  "hub_update f h = h\<lparr>ah_eng := (ah_eng h)\<lparr>ae_store := f (hub_store h)\<rparr>\<rparr>"

definition hub_broadcast :: "effect \<Rightarrow> agent_hub \<Rightarrow> agent_hub" where
  "hub_broadcast e h = h\<lparr>ah_eng := send_out e (ah_eng h)\<rparr>"

definition shutdown :: "nat \<Rightarrow> agent_hub \<Rightarrow> agent_hub" where
  "shutdown n h = on_session n (\<lambda>s. s\<lparr>ss_done := True\<rparr>) h"

abbreviation sendBuffer :: nat where "sendBuffer \<equiv> 64"

definition hub_send :: "nat \<Rightarrow> hub_frame \<Rightarrow> agent_hub \<Rightarrow> agent_hub" where
  "hub_send n f h =
     (if ss_done (ah_session h n) then h
      else if length (ss_send (ah_session h n)) < sendBuffer
      then on_session n (\<lambda>s. s\<lparr>ss_send := ss_send s @ [f]\<rparr>) h
      else shutdown n h)"

definition attachSession :: "nat \<Rightarrow> agent_hub \<Rightarrow> agent_hub" where
  "attachSession n h =
     (let i = ss_vpsID (ah_session h n);
          h1 = (case map_of (ah_agents h) i of
                  Some old \<Rightarrow> if old \<noteq> n then shutdown old h else h
                | None \<Rightarrow> h)
      in h1\<lparr>ah_agents := map_put i n (ah_agents h1)\<rparr>)"

definition hub_Connected :: "string \<Rightarrow> agent_hub \<Rightarrow> bool" where
  "hub_Connected i h =
     (case map_of (ah_agents h) i of
        None \<Rightarrow> False
      | Some n \<Rightarrow> ss_registered (ah_session h n) \<and> \<not> ss_done (ah_session h n))"

definition ConnectedCount :: "agent_hub \<Rightarrow> nat" where
  "ConnectedCount h = length (filter (\<lambda>(i, n). ss_registered (ah_session h n)) (ah_agents h))"

definition serveAgentWS :: "string \<Rightarrow> string \<Rightarrow> string \<Rightarrow> agent_hub \<Rightarrow> agent_hub" where
  "serveAgentWS remoteIP tok pinnedID h =
     (let tokenEntry = (if tok \<noteq> [] \<and> pinnedID = [] then FindByToken tok (hub_store h) else None)
      in h\<lparr>ah_session := (ah_session h)(ah_sessions h :=
              \<lparr> ss_vpsID = [], ss_entry = None, ss_send = [], ss_done = False, ss_registered = False,
                ss_remoteIP = remoteIP, ss_token = tok, ss_tokenEntry = tokenEntry, ss_pinnedID = pinnedID,
                ss_sent = [], ss_handing = None, ss_reading = True \<rparr>),
            ah_sessions := Suc (ah_sessions h)\<rparr>)"

definition off_entry :: "time \<Rightarrow> vps_entry \<Rightarrow> vps_entry" where
  "off_entry now e =
     (if vps_Status (en_VPS e) = VPSPending then e
      else if en_Restart e \<noteq> None \<and> Fresh now (en_Restart e)
      then e\<lparr>en_VPS := (en_VPS e)\<lparr>vps_Status := MarkerStatus (en_Restart e)\<rparr>\<rparr>
      else e\<lparr>en_Restart := None, en_VPS := (en_VPS e)\<lparr>vps_Status := VPSOffline\<rparr>\<rparr>)"

definition disconnect :: "time \<Rightarrow> nat \<Rightarrow> agent_hub \<Rightarrow> agent_hub" where
  "disconnect now n h0 =
     (let h = on_session n (\<lambda>s. s\<lparr>ss_reading := False\<rparr>) h0;
          i = ss_vpsID (ah_session h n);
          wasLive = (i \<noteq> [] \<and> map_of (ah_agents h) i = Some n);
          h1 = (if wasLive then h\<lparr>ah_agents := map_del i (ah_agents h)\<rparr> else h);
          h2 = shutdown n h1
      in if \<not> wasLive then h2
         else let h3 = hub_update (\<lambda>s. snd (UpdateVPS i (off_entry now) s)) h2
              in hub_broadcast (BroadcastVPSList (ListVPS (hub_store h3))) h3)"

section \<open>Terminals\<close>

abbreviation termOutBuffer :: nat where "termOutBuffer \<equiv> 1024"

definition on_term :: "nat \<Rightarrow> (term_sub \<Rightarrow> term_sub) \<Rightarrow> agent_hub \<Rightarrow> agent_hub" where
  "on_term t f h = h\<lparr>ah_term := (ah_term h)(t := f (ah_term h t))\<rparr>"

text \<open>
  The first \<open>select\<close> of \<open>deliverTerminal\<close> may take either case when the app side has ended and the
  buffer has room; \<open>pick\<close> says which. The inner \<open>select\<close> tries the same buffer again.
\<close>

definition term_put :: "nat \<Rightarrow> terminal_frame \<Rightarrow> agent_hub \<Rightarrow> bool \<times> agent_hub" where
  "term_put t f h =
     (if length (ts_out (ah_term h t)) < termOutBuffer
      then (True, on_term t (\<lambda>s. s\<lparr>ts_out := ts_out s @ [f]\<rparr>) h)
      else (False, h))"

definition fell_behind :: "string \<Rightarrow> terminal_frame" where
  "fell_behind i = zero_term\<lparr>tf_Session := i, tf_Op := TermError, tf_Error := ''terminal output fell behind''\<rparr>"

definition deliverTerminal :: "bool \<Rightarrow> nat \<Rightarrow> terminal_frame \<Rightarrow> agent_hub \<Rightarrow> agent_hub" where
  "deliverTerminal pick t f h =
     (let i = ts_id (ah_term h t);
          (put, h1) = term_put t f h;
          final = (tf_Op f = TermExit \<or> tf_Op f = TermError \<or> \<not> put);
          h2 = (if put then h1 else snd (term_put t (fell_behind i) h1))
      in if ts_ended (ah_term h t) \<and> (pick \<or> \<not> put) then h
         else if final then h2\<lparr>ah_terms := map_del i (ah_terms h2)\<rparr> else h2)"

definition handleTerminalFrame :: "bool \<Rightarrow> nat \<Rightarrow> terminal_frame option \<Rightarrow> agent_hub \<Rightarrow> agent_hub" where
  "handleTerminalFrame pick n fo h =
     (case fo of
        None \<Rightarrow> h
      | Some f \<Rightarrow>
          (case map_of (ah_terms h) (tf_Session f) of
             None \<Rightarrow> h
           | Some t \<Rightarrow> if ts_sess (ah_term h t) \<noteq> n then h else deliverTerminal pick t f h))"

text \<open>\<open>None\<close>: \<open>errAgentOffline\<close>. The name of the session is random.\<close>

definition OpenTerminal :: "string \<Rightarrow> string \<Rightarrow> int \<Rightarrow> int \<Rightarrow> string \<Rightarrow> agent_hub \<Rightarrow> nat option \<times> agent_hub" where
  "OpenTerminal commandID vpsID cols rows user h =
     (case map_of (ah_agents h) vpsID of
        None \<Rightarrow> (None, h)
      | Some n \<Rightarrow>
          if \<not> ss_registered (ah_session h n) then (None, h)
          else
            let t = ah_termcount h;
                h1 = h\<lparr>ah_term := (ah_term h)(t := \<lparr> ts_id = commandID, ts_vpsID = vpsID, ts_sess = n, ts_out = [],
                                                    ts_ended = False \<rparr>),
                       ah_termcount := Suc t, ah_terms := map_put commandID t (ah_terms h)\<rparr>
            in (Some t, hub_send n (ShellFrame (zero_term\<lparr>tf_Session := commandID, tf_Op := TermOpen, tf_Cols := cols,
                          tf_Rows := rows, tf_User := user\<rparr>)) h1))"

definition TerminalInput :: "nat \<Rightarrow> terminal_frame \<Rightarrow> agent_hub \<Rightarrow> agent_hub" where
  "TerminalInput t f h =
     (if tf_Op f \<noteq> TermData \<and> tf_Op f \<noteq> TermResize then h
      else hub_send (ts_sess (ah_term h t)) (ShellFrame (f\<lparr>tf_Session := ts_id (ah_term h t)\<rparr>)) h)"

definition CloseTerminal :: "nat \<Rightarrow> agent_hub \<Rightarrow> agent_hub" where
  "CloseTerminal t h =
     (let i = ts_id (ah_term h t);
          live = (map_of (ah_terms h) i \<noteq> None);
          h1 = on_term t (\<lambda>s. s\<lparr>ts_ended := True\<rparr>) (h\<lparr>ah_terms := map_del i (ah_terms h)\<rparr>)
      in if live then hub_send (ts_sess (ah_term h t)) (ShellFrame (zero_term\<lparr>tf_Session := i, tf_Op := TermClose\<rparr>)) h1
         else h1)"

definition agentHasTerminal :: "string \<Rightarrow> bool" where
  "agentHasTerminal v0 =
     (let v = TrimPrefix (TrimSpace v0) ''v'' in
      if v = [] then True
      else let (major, ok) = Atoi (hd (Split v (CHR ''.''))) in \<not> ok \<or> major \<ge> 2)"

section \<open>Power mode and refresh\<close>

definition registered_sessions :: "agent_hub \<Rightarrow> nat list" where
  "registered_sessions h = filter (\<lambda>n. ss_registered (ah_session h n)) (map snd (ah_agents h))"

definition SetPowerMode :: "power_mode \<Rightarrow> agent_hub \<Rightarrow> agent_hub" where
  "SetPowerMode mode h = fold (\<lambda>n. hub_send n (ModeFrame mode)) (registered_sessions h) h"

definition RequestRefresh :: "string \<Rightarrow> agent_hub \<Rightarrow> agent_hub" where
  "RequestRefresh i h =
     (case map_of (ah_agents h) i of
        None \<Rightarrow> h
      | Some n \<Rightarrow> if ss_registered (ah_session h n) then hub_send n RefreshFrame h else h)"

definition RequestRefreshAll :: "agent_hub \<Rightarrow> agent_hub" where
  "RequestRefreshAll h = fold (\<lambda>n. hub_send n RefreshFrame) (registered_sessions h) h"

definition agentPowerMode :: "agent_hub \<Rightarrow> power_mode" where
  "agentPowerMode h = (if ah_mode h = [] then PowerModeActive else ah_mode h)"

definition setUIPowerMode :: "power_mode \<Rightarrow> agent_hub \<Rightarrow> agent_hub" where
  "setUIPowerMode mode0 h =
     (let mode = (if mode0 = [] then PowerModeActive else mode0);
          changed = (ah_mode h \<noteq> mode);
          h1 = h\<lparr>ah_mode := mode\<rparr>
      in if changed then SetPowerMode mode h1 else h1)"

definition handleUIPowerMode :: "string \<Rightarrow> agent_hub \<Rightarrow> bool \<times> agent_hub" where
  "handleUIPowerMode mode h =
     (if mode \<in> {PowerModeActive, PowerModeEco, PowerModeSleep} then (True, setUIPowerMode mode h) else (False, h))"

section \<open>Frames of an agent\<close>

text \<open>Registration works on registry, waiting list and panel log, and asks the hub who is connected.\<close>

definition panel_of :: "agent_hub \<Rightarrow> panel" where
  "panel_of h = \<lparr> pn_store = hub_store h, pn_rejoins = ah_rejoins h, pn_out = ah_panel h \<rparr>"

definition put_panel :: "panel \<Rightarrow> agent_hub \<Rightarrow> agent_hub" where
  "put_panel p h = hub_update (\<lambda>_. pn_store p) (h\<lparr>ah_rejoins := pn_rejoins p, ah_panel := pn_out p\<rparr>)"

definition hub_register :: "reg_env \<Rightarrow> nat \<Rightarrow> register_request \<Rightarrow> agent_hub \<Rightarrow> reg_result \<times> panel" where
  "hub_register g n req h =
     (let s = ah_session h n;
          g' = g\<lparr>rg_conn := (\<lambda>i. hub_Connected i h)\<rparr>
      in if ss_pinnedID s \<noteq> [] then registerPinnedAgent g' req (ss_pinnedID s) (panel_of h)
         else registerAgent g' req (ss_remoteIP s) (ss_token s) (ss_tokenEntry s) (panel_of h))"

definition registered_as :: "nat \<Rightarrow> vps_entry \<Rightarrow> register_response \<Rightarrow> agent_hub \<Rightarrow> agent_hub" where
  "registered_as n e ack h =
     (let h1 = on_session n (\<lambda>s. s\<lparr>ss_entry := Some e, ss_vpsID := vps_ID (en_VPS e), ss_registered := True\<rparr>) h;
          h2 = attachSession n h1;
          h3 = hub_broadcast (BroadcastVPSList (ListVPS (hub_store h2))) h2;
          mode = agentPowerMode h3;
          h4 = hub_send n (ModeFrame mode) (hub_send n (AckFrame ack mode) h3)
      in h4\<lparr>ah_tasks := ah_tasks h4 @ [SyncWatchersTask] @
              (if ah_plugins h4 then [SyncAgentTask (vps_ID (en_VPS e))] else [])\<rparr>)"

definition on_register :: "reg_env \<Rightarrow> nat \<Rightarrow> register_request \<Rightarrow> agent_hub \<Rightarrow> agent_hub option" where
  "on_register g n req h =
     (let (r, p) = hub_register g n req h;
          h1 = put_panel p h
      in case r of
           None \<Rightarrow> None
         | Some (Inl err) \<Rightarrow> Some (shutdown n (hub_send n (ErrorFrame err) h1))
         | Some (Inr (e, ack)) \<Rightarrow> Some (registered_as n e ack h1))"

text \<open>A snapshot frame of a registered session; the identifier is the one of the session's entry.\<close>

definition on_snapshot :: "time \<Rightarrow> nat \<Rightarrow> string \<Rightarrow> (vps_snapshot \<Rightarrow> vps_snapshot) \<Rightarrow> agent_hub \<Rightarrow> agent_hub option" where
  "on_snapshot now n ver merge h =
     (case ss_entry (ah_session h n) of
        None \<Rightarrow> Some h
      | Some e \<Rightarrow>
          if \<not> ss_registered (ah_session h n) then Some h
          else (case mergeSnapshot now (vps_ID (en_VPS e)) ver merge (ah_eng h, Some (ah_hist h)) of
                  Some (eng, Some hist) \<Rightarrow> Some (h\<lparr>ah_eng := eng, ah_hist := hist\<rparr>)
                | Some (eng, None) \<Rightarrow> Some (h\<lparr>ah_eng := eng\<rparr>)
                | None \<Rightarrow> None))"

definition on_backfill :: "time \<Rightarrow> nat \<Rightarrow> metric_sample list \<Rightarrow> agent_hub \<Rightarrow> agent_hub" where
  "on_backfill now n ss h =
     (case ss_entry (ah_session h n) of
        None \<Rightarrow> h
      | Some e \<Rightarrow>
          if \<not> ss_registered (ah_session h n) \<or> ss = [] then h
          else let (added, hist) = Backfill now (vps_ID (en_VPS e)) ss (ah_hist h);
                   h1 = h\<lparr>ah_hist := hist\<rparr>
               in if added > 0
                  then hub_broadcast (BroadcastSnapshot (GetSnapshot (vps_ID (en_VPS e)) (hub_store h1))) h1
                  else h1)"

definition on_spikes :: "time \<Rightarrow> nat \<Rightarrow> spike_record list \<Rightarrow> agent_hub \<Rightarrow> agent_hub" where
  "on_spikes now n rs h =
     (case ss_entry (ah_session h n) of
        None \<Rightarrow> h
      | Some e \<Rightarrow>
          if \<not> ss_registered (ah_session h n) \<or> rs = [] then h
          else h\<lparr>ah_spikes := snd (spikes_Record now (vps_ID (en_VPS e)) rs (ah_spikes h))\<rparr>)"

definition beat_entry :: "time \<Rightarrow> vps_entry \<Rightarrow> vps_entry" where
  "beat_entry now e0 =
     (let e = e0\<lparr>en_VPS := (en_VPS e0)\<lparr>vps_LastSeen := now\<rparr>\<rparr> in
      if en_Restart e \<noteq> None \<and> Fresh now (en_Restart e)
      then e\<lparr>en_VPS := (en_VPS e)\<lparr>vps_Status := MarkerStatus (en_Restart e)\<rparr>\<rparr>
      else if vps_Status (en_VPS e) = VPSOffline
      then e\<lparr>en_VPS := (en_VPS e)\<lparr>vps_Status := VPSOnline\<rparr>\<rparr>
      else e)"

definition on_heartbeat :: "time \<Rightarrow> nat \<Rightarrow> agent_hub \<Rightarrow> agent_hub" where
  "on_heartbeat now n h =
     (case ss_entry (ah_session h n) of
        None \<Rightarrow> h
      | Some e \<Rightarrow>
          if ss_registered (ah_session h n)
          then hub_update (\<lambda>s. snd (UpdateVPS (vps_ID (en_VPS e)) (beat_entry now) s)) h
          else h)"

text \<open>The locked part of a command result; the reader then hands the result to the channel it found.\<close>

definition on_result :: "nat \<Rightarrow> agent_result \<Rightarrow> agent_hub \<Rightarrow> agent_hub" where
  "on_result n r h =
     (case map_of (ah_pending h) (ar_RequestID r) of
        None \<Rightarrow> h
      | Some c \<Rightarrow> on_session n (\<lambda>s. s\<lparr>ss_handing := Some (c, r)\<rparr>)
                    (h\<lparr>ah_pending := map_del (ar_RequestID r) (ah_pending h)\<rparr>))"

fun handleMessage :: "reg_env \<Rightarrow> bool \<Rightarrow> nat \<Rightarrow> string \<Rightarrow> agent_frame \<Rightarrow> agent_hub \<Rightarrow> agent_hub option" where
  "handleMessage g pick n ver (RegisterFrame None) h = Some h"
| "handleMessage g pick n ver (RegisterFrame (Some req)) h = on_register g n req h"
| "handleMessage g pick n ver (MetricsFrame None) h = Some h"
| "handleMessage g pick n ver (MetricsFrame (Some m)) h = on_snapshot (rg_now g) n ver (\<lambda>sn. sn\<lparr>sn_Metrics := m\<rparr>) h"
| "handleMessage g pick n ver (BackfillFrame ss) h = Some (on_backfill (rg_now g) n ss h)"
| "handleMessage g pick n ver (SpikesFrame rs) h = Some (on_spikes (rg_now g) n rs h)"
| "handleMessage g pick n ver (DockerFrame None) h = Some h"
| "handleMessage g pick n ver (DockerFrame (Some d)) h = on_snapshot (rg_now g) n ver (\<lambda>sn. sn\<lparr>sn_Docker := d\<rparr>) h"
| "handleMessage g pick n ver (SystemdFrame None) h = Some h"
| "handleMessage g pick n ver (SystemdFrame (Some us)) h = on_snapshot (rg_now g) n ver (\<lambda>sn. sn\<lparr>sn_Services := us\<rparr>) h"
| "handleMessage g pick n ver (PortsFrame ps) h = on_snapshot (rg_now g) n ver (\<lambda>sn. sn\<lparr>sn_Ports := ps\<rparr>) h"
| "handleMessage g pick n ver (ProxyFrame None) h = Some h"
| "handleMessage g pick n ver (ProxyFrame (Some p)) h = on_snapshot (rg_now g) n ver (\<lambda>sn. sn\<lparr>sn_Proxy := p\<rparr>) h"
| "handleMessage g pick n ver (TerminalFrame f) h = Some (handleTerminalFrame pick n f h)"
| "handleMessage g pick n ver (ResultFrame None) h = Some h"
| "handleMessage g pick n ver (ResultFrame (Some r)) h = Some (on_result n r h)"
| "handleMessage g pick n ver HeartbeatFrame h = Some (on_heartbeat (rg_now g) n h)"
| "handleMessage g pick n ver (OtherFrame t) h = Some h"

section \<open>Commands to an agent\<close>

definition on_call :: "nat \<Rightarrow> (hub_call \<Rightarrow> hub_call) \<Rightarrow> agent_hub \<Rightarrow> agent_hub" where
  "on_call c f h = h\<lparr>ah_call := (ah_call h)(c := f (ah_call h c))\<rparr>"

definition drop_pending :: "nat \<Rightarrow> agent_hub \<Rightarrow> agent_hub" where
  "drop_pending c h = h\<lparr>ah_pending := map_del (ca_requestID (ah_call h c)) (ah_pending h)\<rparr>"

text \<open>The locked first part of \<open>Request\<close>: \<open>None\<close> is the error for a server without a socket.\<close>

definition Request_start :: "string \<Rightarrow> string \<Rightarrow> string \<Rightarrow> string \<Rightarrow> string \<Rightarrow> agent_hub \<Rightarrow> agent_hub option" where
  "Request_start commandID vpsID meth path body h =
     (case map_of (ah_agents h) vpsID of
        None \<Rightarrow> None
      | Some n \<Rightarrow>
          Some (h\<lparr>ah_call := (ah_call h)(ah_calls h := \<lparr> ca_requestID = commandID, ca_sess = n,
                     ca_frame = CommandFrame commandID meth path body, ca_chan = None, ca_state = Calling \<rparr>),
                  ah_calls := Suc (ah_calls h),
                  ah_pending := map_put commandID (ah_calls h) (ah_pending h)\<rparr>))"

text \<open>
  The two \<open>select\<close>s of \<open>Request\<close> as the steps each case takes; a failing call takes its entry out of
  \<open>pending\<close> in a second locked section.
\<close>

definition call_queue :: "nat \<Rightarrow> agent_hub \<Rightarrow> agent_hub" where
  "call_queue c h =
     on_call c (\<lambda>k. k\<lparr>ca_state := Waiting\<rparr>)
       (on_session (ca_sess (ah_call h c)) (\<lambda>s. s\<lparr>ss_send := ss_send s @ [ca_frame (ah_call h c)]\<rparr>) h)"

definition call_fails :: "nat \<Rightarrow> string \<Rightarrow> agent_hub \<Rightarrow> agent_hub" where
  "call_fails c why h = on_call c (\<lambda>k. k\<lparr>ca_state := Cleaning why\<rparr>) h"

definition call_cleanup :: "nat \<Rightarrow> string \<Rightarrow> agent_hub \<Rightarrow> agent_hub" where
  "call_cleanup c why h = on_call c (\<lambda>k. k\<lparr>ca_state := Failed why\<rparr>) (drop_pending c h)"

definition call_answer :: "nat \<Rightarrow> agent_result \<Rightarrow> agent_hub \<Rightarrow> agent_hub" where
  "call_answer c r h = on_call c (\<lambda>k. k\<lparr>ca_state := Answered r, ca_chan := None\<rparr>) h"

definition hand_over :: "nat \<Rightarrow> nat \<Rightarrow> agent_result \<Rightarrow> agent_hub \<Rightarrow> agent_hub" where
  "hand_over n c r h = on_call c (\<lambda>k. k\<lparr>ca_chan := Some r\<rparr>) (on_session n (\<lambda>s. s\<lparr>ss_handing := None\<rparr>) h)"

section \<open>Interleaving\<close>

inductive hub_step :: "agent_hub \<Rightarrow> agent_hub \<Rightarrow> bool" where
  accept: "hub_step h (serveAgentWS ip tok pin h)"
| frame: "n < ah_sessions h \<Longrightarrow> ss_reading (ah_session h n) \<Longrightarrow> ss_handing (ah_session h n) = None \<Longrightarrow>
    handleMessage g pick n ver f h = Some h' \<Longrightarrow> hub_step h h'"
| panic: "n < ah_sessions h \<Longrightarrow> ss_reading (ah_session h n) \<Longrightarrow> ss_handing (ah_session h n) = None \<Longrightarrow>
    handleMessage g pick n ver f h = None \<Longrightarrow> hub_step h (disconnect now n h)"
| hand: "ss_handing (ah_session h n) = Some (c, r) \<Longrightarrow> ca_chan (ah_call h c) = None \<Longrightarrow>
    hub_step h (hand_over n c r h)"
| read_fails: "n < ah_sessions h \<Longrightarrow> ss_reading (ah_session h n) \<Longrightarrow> ss_handing (ah_session h n) = None \<Longrightarrow>
    hub_step h (disconnect now n h)"
| written: "ss_send (ah_session h n) = f # fs \<Longrightarrow>
    hub_step h (on_session n (\<lambda>s. s\<lparr>ss_send := fs, ss_sent := ss_sent s @ [f]\<rparr>) h)"
| write_fails: "hub_step h (shutdown n h)"
| call: "Request_start rid vpsID meth path body h = Some h' \<Longrightarrow> hub_step h h'"
| queue: "c < ah_calls h \<Longrightarrow> ca_state (ah_call h c) = Calling \<Longrightarrow>
    length (ss_send (ah_session h (ca_sess (ah_call h c)))) < sendBuffer \<Longrightarrow> hub_step h (call_queue c h)"
| gone: "c < ah_calls h \<Longrightarrow> ca_state (ah_call h c) = Calling \<Longrightarrow>
    ss_done (ah_session h (ca_sess (ah_call h c))) \<Longrightarrow> hub_step h (call_fails c ''agent offline (no websocket)'' h)"
| full: "c < ah_calls h \<Longrightarrow> ca_state (ah_call h c) = Calling \<Longrightarrow>
    \<not> ss_done (ah_session h (ca_sess (ah_call h c))) \<Longrightarrow>
    \<not> length (ss_send (ah_session h (ca_sess (ah_call h c)))) < sendBuffer \<Longrightarrow>
    hub_step h (call_fails c ''agent send buffer full'' h)"
| answer: "c < ah_calls h \<Longrightarrow> ca_state (ah_call h c) = Waiting \<Longrightarrow> ca_chan (ah_call h c) = Some r \<Longrightarrow>
    hub_step h (call_answer c r h)"
| timeout: "c < ah_calls h \<Longrightarrow> ca_state (ah_call h c) = Waiting \<Longrightarrow>
    hub_step h (call_fails c ''agent command timeout'' h)"
| cleanup: "c < ah_calls h \<Longrightarrow> ca_state (ah_call h c) = Cleaning why \<Longrightarrow> hub_step h (call_cleanup c why h)"
| power: "hub_step h (snd (handleUIPowerMode mode h))"
| refresh: "hub_step h (RequestRefresh i h)"
| refresh_all: "hub_step h (RequestRefreshAll h)"
| open_term: "hub_step h (snd (OpenTerminal tid i cols rows user h))"
| input: "hub_step h (TerminalInput t f h)"
| close: "hub_step h (CloseTerminal t h)"
| lost: "ss_done (ah_session h (ts_sess (ah_term h t))) \<Longrightarrow>
    hub_step h (deliverTerminal pick t (zero_term\<lparr>tf_Session := ts_id (ah_term h t), tf_Op := TermError,
      tf_Error := ''agent disconnected''\<rparr>) h)"
| drain: "ts_out (ah_term h t) = f # fs \<Longrightarrow> hub_step h (on_term t (\<lambda>s. s\<lparr>ts_out := fs\<rparr>) h)"
| elsewhere: "hub_step h (h\<lparr>ah_eng := e, ah_hist := hi, ah_spikes := sk, ah_rejoins := q\<rparr>)"

definition new_hub :: "engine \<Rightarrow> history \<Rightarrow> spikes \<Rightarrow> bool \<Rightarrow> agent_hub" where
  "new_hub e hi sk plugins = \<lparr> ah_agents = [], ah_pending = [], ah_terms = [],
     ah_session = (\<lambda>_. \<lparr> ss_vpsID = [], ss_entry = None, ss_send = [], ss_done = True, ss_registered = False,
       ss_remoteIP = [], ss_token = [], ss_tokenEntry = None, ss_pinnedID = [], ss_sent = [], ss_handing = None,
       ss_reading = False \<rparr>),
     ah_sessions = 0,
     ah_call = (\<lambda>_. \<lparr> ca_requestID = [], ca_sess = 0, ca_frame = RefreshFrame, ca_chan = None, ca_state = Failed [] \<rparr>),
     ah_calls = 0, ah_term = (\<lambda>_. \<lparr> ts_id = [], ts_vpsID = [], ts_sess = 0, ts_out = [], ts_ended = True \<rparr>),
     ah_termcount = 0, ah_eng = e, ah_hist = hi, ah_spikes = sk, ah_rejoins = empty_queue, ah_panel = [],
     ah_mode = [], ah_plugins = plugins, ah_tasks = [] \<rparr>"

abbreviation hub_run :: "agent_hub \<Rightarrow> agent_hub \<Rightarrow> bool" where "hub_run \<equiv> hub_step\<^sup>*\<^sup>*"

end
