(* ===== verification/Agent_Hub_Laws.thy ===== *)
theory Agent_Hub_Laws
  imports Agent_Hub
begin

text \<open>
  What the agent hub promises: commands and their answers, which session speaks for which server,
  and what one socket's frames can change.
\<close>

section \<open>Calls\<close>

definition in_flight :: "call_state \<Rightarrow> bool" where
  "in_flight st \<longleftrightarrow> (case st of Answered _ \<Rightarrow> False | Failed _ \<Rightarrow> False | _ \<Rightarrow> True)"

definition answered :: "call_state \<Rightarrow> bool" where
  "answered st \<longleftrightarrow> (\<exists>r. st = Answered r)"

definition pending_ok :: "agent_hub \<Rightarrow> bool" where
  "pending_ok h \<longleftrightarrow> (\<forall>i c. map_of (ah_pending h) i = Some c \<longrightarrow>
     c < ah_calls h \<and> ca_requestID (ah_call h c) = i \<and> ca_chan (ah_call h c) = None \<and> in_flight (ca_state (ah_call h c)) \<and>
     (\<forall>n r. ss_handing (ah_session h n) \<noteq> Some (c, r)))"

definition handing_ok :: "agent_hub \<Rightarrow> bool" where
  "handing_ok h \<longleftrightarrow> (\<forall>n c r. ss_handing (ah_session h n) = Some (c, r) \<longrightarrow>
     c < ah_calls h \<and> ca_chan (ah_call h c) = None \<and> ar_RequestID r = ca_requestID (ah_call h c) \<and>
     \<not> answered (ca_state (ah_call h c)) \<and> (\<forall>m r'. ss_handing (ah_session h m) = Some (c, r') \<longrightarrow> m = n))"

definition chan_ok :: "agent_hub \<Rightarrow> bool" where
  "chan_ok h \<longleftrightarrow> (\<forall>c r. ca_chan (ah_call h c) = Some r \<longrightarrow>
     c < ah_calls h \<and> ar_RequestID r = ca_requestID (ah_call h c) \<and> \<not> answered (ca_state (ah_call h c)))"

definition answers_ok :: "agent_hub \<Rightarrow> bool" where
  "answers_ok h \<longleftrightarrow> (\<forall>c r. ca_state (ah_call h c) = Answered r \<longrightarrow> ar_RequestID r = ca_requestID (ah_call h c))"

definition calls_ok :: "agent_hub \<Rightarrow> bool" where
  "calls_ok h \<longleftrightarrow> pending_ok h \<and> handing_ok h \<and> chan_ok h \<and> answers_ok h"

lemmas calls_defs = calls_ok_def pending_ok_def handing_ok_def chan_ok_def answers_ok_def

text \<open>Steps that leave calls alone, and at most end a hand-over.\<close>

definition same_calls :: "agent_hub \<Rightarrow> agent_hub \<Rightarrow> bool" where
  "same_calls h h' \<longleftrightarrow> ah_pending h' = ah_pending h \<and> ah_call h' = ah_call h \<and> ah_calls h' = ah_calls h \<and>
     (\<forall>n. ss_handing (ah_session h' n) \<in> {None, ss_handing (ah_session h n)})"

lemma same_calls_refl [simp]: "same_calls h h" by (simp add: same_calls_def)

lemma same_calls_trans: "same_calls a b \<Longrightarrow> same_calls b c \<Longrightarrow> same_calls a c"
  by (fastforce simp: same_calls_def)

lemma calls_ok_same: "same_calls h h' \<Longrightarrow> calls_ok h \<Longrightarrow> calls_ok h'"
proof -
  assume same: "same_calls h h'" and ok: "calls_ok h"
  have keep: "ss_handing (ah_session h n) = Some x" if "ss_handing (ah_session h' n) = Some x" for n x
    using same that unfolding same_calls_def by (metis insertE option.distinct(1) singletonD)
  have eq: "ah_pending h' = ah_pending h" "ah_call h' = ah_call h" "ah_calls h' = ah_calls h"
    using same by (simp_all add: same_calls_def)
  have "pending_ok h'" using ok keep unfolding calls_ok_def pending_ok_def eq by blast
  moreover have "handing_ok h'" using ok keep unfolding calls_ok_def handing_ok_def eq by blast
  ultimately show ?thesis using ok unfolding calls_ok_def chan_ok_def answers_ok_def eq by blast
qed

text \<open>Steps that also leave alone what a session is: its server, its entry, its credentials.\<close>

definition identity :: "agent_session \<Rightarrow> string \<times> vps_entry option \<times> bool \<times> string \<times> vps_entry option \<times> (nat \<times> agent_result) option" where
  "identity s = (ss_vpsID s, ss_entry s, ss_registered s, ss_pinnedID s, ss_tokenEntry s, ss_handing s)"

lemma identity_updates [simp]:
  "identity (s\<lparr>ss_send := x\<rparr>) = identity s" "identity (s\<lparr>ss_sent := x\<rparr>) = identity s"
  "identity (s\<lparr>ss_done := b\<rparr>) = identity s" "identity (s\<lparr>ss_reading := b\<rparr>) = identity s"
  by (simp_all add: identity_def)

definition quiet :: "agent_hub \<Rightarrow> agent_hub \<Rightarrow> bool" where
  "quiet h h' \<longleftrightarrow> ah_pending h' = ah_pending h \<and> ah_call h' = ah_call h \<and> ah_calls h' = ah_calls h \<and>
     (\<forall>n. identity (ah_session h' n) = identity (ah_session h n))"

lemma quiet_refl [simp]: "quiet h h" by (simp add: quiet_def)

lemma quiet_trans: "quiet a b \<Longrightarrow> quiet b c \<Longrightarrow> quiet a c"
  by (simp add: quiet_def)

lemma quiet_same_calls: "quiet h h' \<Longrightarrow> same_calls h h'"
  by (simp add: quiet_def same_calls_def identity_def)

lemma quiet_on_session: "(\<And>s. identity (f s) = identity s) \<Longrightarrow> quiet h (on_session n f h)"
  by (simp add: quiet_def on_session_def)

lemma quiet_simple [simp]:
  "quiet h (on_term t f' h)" "quiet h (hub_update g h)" "quiet h (hub_broadcast e h)" "quiet h (shutdown n h)"
  by (simp_all add: quiet_def on_session_def on_term_def hub_update_def hub_broadcast_def shutdown_def)

lemma quiet_fields:
  assumes "quiet h h'"
  shows "quiet h (h'\<lparr>ah_agents := a\<rparr>)" "quiet h (h'\<lparr>ah_terms := ts\<rparr>)" "quiet h (h'\<lparr>ah_tasks := tk\<rparr>)"
    "quiet h (h'\<lparr>ah_hist := hi\<rparr>)" "quiet h (h'\<lparr>ah_spikes := sk\<rparr>)" "quiet h (h'\<lparr>ah_eng := e\<rparr>)"
    "quiet h (h'\<lparr>ah_mode := m\<rparr>)" "quiet h (h'\<lparr>ah_rejoins := q, ah_panel := p\<rparr>)"
    "quiet h (h'\<lparr>ah_eng := e, ah_hist := hi\<rparr>)"
  using assms by (simp_all add: quiet_def)

lemma quiet_send [simp]: "quiet h (hub_send n f h)"
  by (simp add: hub_send_def quiet_on_session)

lemma quiet_fold: "(\<And>n h. quiet h (f n h)) \<Longrightarrow> quiet h (fold f ns h)"
  by (induction ns arbitrary: h) (auto intro: quiet_trans)

lemma quiet_ops [simp]:
  "quiet h (attachSession n h)" "quiet h (RequestRefresh i h)"
  "quiet h (RequestRefreshAll h)" "quiet h (SetPowerMode mode h)" "quiet h (snd (handleUIPowerMode mode h))"
  "quiet h (put_panel p h)"
proof -
  show "quiet h (attachSession n h)"
    by (auto simp: attachSession_def Let_def intro!: quiet_fields split: option.splits)
  show "quiet h (RequestRefresh i h)" by (simp add: RequestRefresh_def split: option.splits)
  show all: "quiet h (RequestRefreshAll h)" "quiet h (SetPowerMode mode h)" for h mode
    by (simp_all add: RequestRefreshAll_def SetPowerMode_def quiet_fold)
  have "quiet h (h\<lparr>ah_mode := m\<rparr>)" for m by (simp add: quiet_fields)
  then show "quiet h (snd (handleUIPowerMode mode h))"
    using quiet_trans [OF _ all(2)] by (simp add: handleUIPowerMode_def setUIPowerMode_def Let_def)
  show "quiet h (put_panel p h)"
    unfolding put_panel_def by (rule quiet_trans [OF quiet_fields(8) [OF quiet_refl] quiet_simple(2)])
qed

lemma quiet_disconnect [simp]: "quiet h (disconnect now n h)"
  by (auto simp: disconnect_def Let_def quiet_def on_session_def shutdown_def hub_update_def hub_broadcast_def)

lemma quiet_terminal [simp]:
  "quiet h (snd (OpenTerminal tid i cols rows user h))" "quiet h (TerminalInput t f h)" "quiet h (CloseTerminal t h)"
  "quiet h (deliverTerminal pick t f h)" "quiet h (handleTerminalFrame pick n fo h)"
proof -
  have sub: "quiet h (h\<lparr>ah_term := a, ah_termcount := b, ah_terms := c\<rparr>)" for h a b c by (simp add: quiet_def)
  show "quiet h (snd (OpenTerminal tid i cols rows user h))"
    using quiet_trans [OF sub quiet_send] by (simp add: OpenTerminal_def Let_def split: option.split)
  show "quiet h (TerminalInput t f h)" by (simp add: TerminalInput_def)
  have "quiet h (on_term t g (h\<lparr>ah_terms := m\<rparr>))" for g m by (simp add: quiet_def on_term_def)
  then show "quiet h (CloseTerminal t h)"
    using quiet_trans [OF _ quiet_send] by (simp add: CloseTerminal_def Let_def)
  show del: "quiet h (deliverTerminal pick t f h)" for t f
    by (simp add: deliverTerminal_def term_put_def Let_def split_def quiet_def on_term_def)
  show "quiet h (handleTerminalFrame pick n fo h)"
    using del by (simp add: handleTerminalFrame_def split: option.split)
qed

lemma same_calls_serve: "same_calls h (serveAgentWS ip tok pin h)"
  by (simp add: serveAgentWS_def Let_def same_calls_def)

lemma agents_simps [simp]:
  "ah_agents (on_session n f h) = ah_agents h" "ah_agents (shutdown n h) = ah_agents h" "ah_agents (hub_send n g h) = ah_agents h"
  "ah_agents (hub_broadcast b h) = ah_agents h" "ah_agents (hub_update u h) = ah_agents h" "ah_agents (put_panel p h) = ah_agents h"
  by (simp_all add: on_session_def shutdown_def hub_send_def hub_broadcast_def hub_update_def put_panel_def)

lemma agents_attach [simp]: "ah_agents (attachSession n h) = map_put (ss_vpsID (ah_session h n)) n (ah_agents h)"
  by (simp add: attachSession_def Let_def split: option.split)

lemma session_on_session [simp]: "ah_session (on_session n f h) m = (if m = n then f (ah_session h n) else ah_session h m)"
  by (simp add: on_session_def)

text \<open>What a successful register frame does to the sessions and to the table of agents.\<close>

lemma registered_as_effect:
  "same_calls h (registered_as n e ack h)"
  "identity (ah_session (registered_as n e ack h) m) = identity ((ah_session h m)
     \<lparr>ss_entry := if m = n then Some e else ss_entry (ah_session h m),
      ss_vpsID := if m = n then vps_ID (en_VPS e) else ss_vpsID (ah_session h m),
      ss_registered := m = n \<or> ss_registered (ah_session h m)\<rparr>)"
  "map_of (ah_agents (registered_as n e ack h)) k = (if k = vps_ID (en_VPS e) then Some n else map_of (ah_agents h) k)"
proof -
  define h1 where "h1 = on_session n (\<lambda>s. s\<lparr>ss_entry := Some e, ss_vpsID := vps_ID (en_VPS e), ss_registered := True\<rparr>) h"
  define h3 where "h3 = hub_broadcast (BroadcastVPSList (ListVPS (hub_store (attachSession n h1)))) (attachSession n h1)"
  define h4 where "h4 = hub_send n (ModeFrame (agentPowerMode h3)) (hub_send n (AckFrame ack (agentPowerMode h3)) h3)"
  have "quiet h1 h3" unfolding h3_def by (rule quiet_trans [OF quiet_ops(1) quiet_simple(3)])
  moreover have "quiet h3 h4" unfolding h4_def by (rule quiet_trans [OF quiet_send quiet_send])
  ultimately have "quiet h1 h4" by (rule quiet_trans)
  then have q: "quiet h1 (registered_as n e ack h)"
    unfolding registered_as_def Let_def h1_def [symmetric] h3_def [symmetric] h4_def [symmetric]
    by (rule quiet_fields(3))
  have "same_calls h h1" by (simp add: h1_def on_session_def same_calls_def)
  with q show "same_calls h (registered_as n e ack h)" by (meson quiet_same_calls same_calls_trans)
  show "identity (ah_session (registered_as n e ack h) m) = identity ((ah_session h m)
     \<lparr>ss_entry := if m = n then Some e else ss_entry (ah_session h m),
      ss_vpsID := if m = n then vps_ID (en_VPS e) else ss_vpsID (ah_session h m),
      ss_registered := m = n \<or> ss_registered (ah_session h m)\<rparr>)"
    using q by (simp add: quiet_def h1_def on_session_def identity_def)
  show "map_of (ah_agents (registered_as n e ack h)) k = (if k = vps_ID (en_VPS e) then Some n else map_of (ah_agents h) k)"
    by (simp add: registered_as_def Let_def)
qed

lemma on_register_cases:
  assumes "on_register g n req h = Some h'"
  obtains err p where "hub_register g n req h = (Some (Inl err), p)" "h' = shutdown n (hub_send n (ErrorFrame err) (put_panel p h))"
    | e ack p where "hub_register g n req h = (Some (Inr (e, ack)), p)" "h' = registered_as n e ack (put_panel p h)"
  using assms by (auto simp: on_register_def Let_def split_def split: option.splits sum.splits) (metis prod.collapse)+

lemma quiet_refused: "quiet h (shutdown n (hub_send n f (put_panel p h)))"
  by (meson quiet_trans quiet_ops(6) quiet_send quiet_simple(4))

lemma same_calls_register: "on_register g n req h = Some h' \<Longrightarrow> same_calls h h'"
  by (erule on_register_cases)
    (simp_all add: quiet_same_calls quiet_refused same_calls_trans [OF quiet_same_calls [OF quiet_ops(6)] registered_as_effect(1)])

lemma quiet_snapshot: "on_snapshot now n ver merge h = Some h' \<Longrightarrow> quiet h h'"
  by (auto simp: on_snapshot_def split: option.splits if_splits intro: quiet_fields [OF quiet_refl])

lemma quiet_records [simp]:
  "quiet h (on_backfill now n ss h)" "quiet h (on_spikes now n rs h)" "quiet h (on_heartbeat now n h)"
  by (simp_all add: on_backfill_def on_spikes_def on_heartbeat_def split_def Let_def quiet_def hub_broadcast_def
      hub_update_def split: option.split)

lemma frame_quiet:
  "handleMessage g pick n ver f h = Some h' \<Longrightarrow> (\<nexists>r. f = ResultFrame (Some r)) \<Longrightarrow> (\<nexists>r. f = RegisterFrame (Some r)) \<Longrightarrow>
   quiet h h'"
  by (induction g pick n ver f h rule: handleMessage.induct) (auto dest: quiet_snapshot)

lemma frame_calls: "handleMessage g pick n ver f h = Some h' \<Longrightarrow> (\<nexists>r. f = ResultFrame (Some r)) \<Longrightarrow> same_calls h h'"
  using frame_quiet [THEN quiet_same_calls] same_calls_register
  by (cases "\<exists>r. f = RegisterFrame (Some r)") fastforce+

text \<open>The steps of a call.\<close>

lemma calls_ok_result: "calls_ok h \<Longrightarrow> ss_handing (ah_session h n) = None \<Longrightarrow> calls_ok (on_result n r h)"
proof (cases "map_of (ah_pending h) (ar_RequestID r)")
  case (Some c)
  assume ok: "calls_ok h" and idle: "ss_handing (ah_session h n) = None"
  have c: "c < ah_calls h" "ca_requestID (ah_call h c) = ar_RequestID r" "ca_chan (ah_call h c) = None"
    "\<not> answered (ca_state (ah_call h c))" "\<forall>n r. ss_handing (ah_session h n) \<noteq> Some (c, r)"
    using ok Some by (auto simp: calls_ok_def pending_ok_def in_flight_def answered_def split: call_state.splits)
  show ?thesis
    using ok Some idle c unfolding calls_ok_def
    by (intro conjI; simp add: on_result_def on_session_def pending_ok_def handing_ok_def chan_ok_def answers_ok_def; (metis c(2))?)
qed (simp add: on_result_def)

lemma calls_ok_hand:
  "calls_ok h \<Longrightarrow> ss_handing (ah_session h n) = Some (c, r) \<Longrightarrow> calls_ok (hand_over n c r h)"
proof -
  assume ok: "calls_ok h" and hand: "ss_handing (ah_session h n) = Some (c, r)"
  have c: "c < ah_calls h" "ca_chan (ah_call h c) = None" "ar_RequestID r = ca_requestID (ah_call h c)"
    "\<not> answered (ca_state (ah_call h c))" "\<And>m r'. ss_handing (ah_session h m) = Some (c, r') \<Longrightarrow> m = n"
    using ok hand unfolding calls_ok_def handing_ok_def by blast+
  have p: "map_of (ah_pending h) i \<noteq> Some c" for i using ok hand unfolding calls_ok_def pending_ok_def by blast
  have "pending_ok (hand_over n c r h)" "chan_ok (hand_over n c r h)" "answers_ok (hand_over n c r h)"
    using ok c p by (auto simp: calls_defs hand_over_def on_session_def on_call_def answered_def)
  moreover have "handing_ok (hand_over n c r h)"
    using ok c(5) unfolding calls_ok_def handing_ok_def hand_over_def on_session_def on_call_def
    by simp (metis option.inject prod.inject)
  ultimately show ?thesis by (simp add: calls_ok_def)
qed

lemma calls_ok_call: "calls_ok h \<Longrightarrow> Request_start rid vpsID meth path body h = Some h' \<Longrightarrow> calls_ok h'"
proof -
  assume ok: "calls_ok h" and "Request_start rid vpsID meth path body h = Some h'"
  then obtain n where h': "h' = h\<lparr>ah_call := (ah_call h)(ah_calls h := \<lparr> ca_requestID = rid, ca_sess = n,
                     ca_frame = CommandFrame rid meth path body, ca_chan = None, ca_state = Calling \<rparr>),
                  ah_calls := Suc (ah_calls h), ah_pending := map_put rid (ah_calls h) (ah_pending h)\<rparr>"
    by (auto simp: Request_start_def split: option.splits)
  have new: "map_of (ah_pending h) i \<noteq> Some (ah_calls h)" "ss_handing (ah_session h m) \<noteq> Some (ah_calls h, r)" for i m r
    using ok unfolding calls_ok_def pending_ok_def handing_ok_def by blast+
  have "pending_ok h'" "chan_ok h'" "answers_ok h'"
    using ok new unfolding h' by (auto simp: calls_defs in_flight_def less_Suc_eq)
  moreover have "handing_ok h'"
    using ok new(2) unfolding h' by (auto simp: calls_ok_def handing_ok_def less_Suc_eq)
  ultimately show ?thesis by (simp add: calls_ok_def)
qed

text \<open>A call moves on: its state changes, the channel keeps or loses its content, the rest stays.\<close>

lemma calls_ok_move:
  assumes "calls_ok h" and "\<not> answered st \<or> (\<exists>r. st = Answered r \<and> ca_chan (ah_call h c) = Some r \<and> ch = None)"
    and "in_flight st \<or> (\<forall>i. map_of (ah_pending h) i \<noteq> Some c)"
    and "ch = ca_chan (ah_call h c) \<or> ch = None" and "\<not> answered (ca_state (ah_call h c))"
  shows "calls_ok (on_call c (\<lambda>k. k\<lparr>ca_state := st, ca_chan := ch\<rparr>) h)"
proof -
  let ?h = "on_call c (\<lambda>k. k\<lparr>ca_state := st, ca_chan := ch\<rparr>) h"
  have none: "map_of (ah_pending h) i = Some c \<Longrightarrow> ca_chan (ah_call h c) = None"
    "ss_handing (ah_session h n) = Some (c, r) \<Longrightarrow> ca_chan (ah_call h c) = None" for i n r
    using assms(1) unfolding calls_ok_def pending_ok_def handing_ok_def by blast+
  have "pending_ok ?h" using assms none(1) by (auto simp: calls_ok_def pending_ok_def on_call_def)
  moreover have "handing_ok ?h" using assms none(2) by (fastforce simp: calls_ok_def handing_ok_def on_call_def answered_def)
  moreover have "chan_ok ?h" using assms by (auto simp: calls_ok_def chan_ok_def on_call_def answered_def dest: sym)
  moreover have "answers_ok ?h" using assms by (auto simp: calls_ok_def chan_ok_def answers_ok_def on_call_def answered_def)
  ultimately show ?thesis by (simp add: calls_ok_def)
qed

lemma on_call_state: "on_call c (\<lambda>k. k\<lparr>ca_state := st\<rparr>) h = on_call c (\<lambda>k. k\<lparr>ca_state := st, ca_chan := ca_chan (ah_call h c)\<rparr>) h"
  by (simp add: on_call_def)

lemma calls_ok_cleanup: "calls_ok h \<Longrightarrow> ca_state (ah_call h c) = Cleaning why \<Longrightarrow> calls_ok (call_cleanup c why h)"
proof -
  assume ok: "calls_ok h" and st: "ca_state (ah_call h c) = Cleaning why"
  have "calls_ok (drop_pending c h)" using ok by (auto simp: calls_defs drop_pending_def)
  moreover have "map_of (ah_pending (drop_pending c h)) i \<noteq> Some c" for i
    using ok by (auto simp: calls_ok_def pending_ok_def drop_pending_def)
  moreover have "ah_call (drop_pending c h) = ah_call h" by (simp add: drop_pending_def)
  ultimately show ?thesis
    unfolding call_cleanup_def using st
    by (subst on_call_state) (intro calls_ok_move; simp add: answered_def)
qed

lemma calls_ok_fails:
  "calls_ok h \<Longrightarrow> ca_state (ah_call h c) = Calling \<or> ca_state (ah_call h c) = Waiting \<Longrightarrow> calls_ok (call_fails c why h)"
  unfolding call_fails_def
  by (subst on_call_state) (intro calls_ok_move; auto simp: answered_def in_flight_def)

lemma calls_ok_queue: "calls_ok h \<Longrightarrow> ca_state (ah_call h c) = Calling \<Longrightarrow> calls_ok (call_queue c h)"
proof -
  assume ok: "calls_ok h" and st: "ca_state (ah_call h c) = Calling"
  let ?h = "on_session (ca_sess (ah_call h c)) (\<lambda>s. s\<lparr>ss_send := ss_send s @ [ca_frame (ah_call h c)]\<rparr>) h"
  have "quiet h ?h" by (rule quiet_on_session) (simp add: identity_def)
  then have "calls_ok ?h" by (intro calls_ok_same [OF quiet_same_calls ok])
  moreover have "ah_call ?h = ah_call h" by (simp add: on_session_def)
  ultimately show ?thesis
    unfolding call_queue_def using st
    by (subst on_call_state) (intro calls_ok_move; simp add: answered_def in_flight_def)
qed

lemma calls_ok_answer:
  "calls_ok h \<Longrightarrow> ca_state (ah_call h c) = Waiting \<Longrightarrow> ca_chan (ah_call h c) = Some r \<Longrightarrow> calls_ok (call_answer c r h)"
proof -
  assume ok: "calls_ok h" and st: "ca_state (ah_call h c) = Waiting" and ch: "ca_chan (ah_call h c) = Some r"
  have "map_of (ah_pending h) i \<noteq> Some c" for i using ok ch by (auto simp: calls_ok_def pending_ok_def)
  then show ?thesis
    unfolding call_answer_def using ok st ch by (intro calls_ok_move) (simp_all add: answered_def)
qed

lemma calls_ok_frame:
  assumes "calls_ok h" and "ss_handing (ah_session h n) = None" and "handleMessage g pick n ver f h = Some h'"
  shows "calls_ok h'"
proof (cases "\<exists>r. f = ResultFrame (Some r)")
  case True
  then show ?thesis using assms calls_ok_result by auto
next
  case False
  then show ?thesis using frame_calls [OF assms(3)] calls_ok_same assms(1) by blast
qed

lemma calls_ok_quiet: "calls_ok h \<Longrightarrow> quiet h h' \<Longrightarrow> calls_ok h'"
  by (rule calls_ok_same [OF quiet_same_calls])

lemma calls_ok_step: "hub_step h h' \<Longrightarrow> calls_ok h \<Longrightarrow> calls_ok h'"
proof (induction rule: hub_step.induct)
  case (written h n f fs)
  have "quiet h (on_session n (\<lambda>s. s\<lparr>ss_send := fs, ss_sent := ss_sent s @ [f]\<rparr>) h)"
    by (rule quiet_on_session) (simp add: identity_def)
  then show ?case using written.prems by (rule calls_ok_same [OF quiet_same_calls])
next
  case elsewhere
  then show ?case by (rule calls_ok_same [rotated]) (simp add: same_calls_def)
qed (auto intro: calls_ok_frame calls_ok_hand calls_ok_call calls_ok_queue calls_ok_fails calls_ok_answer calls_ok_cleanup
       calls_ok_same [OF same_calls_serve] calls_ok_quiet)

lemma calls_ok_run: "hub_run (new_hub e hi sk pl) h \<Longrightarrow> calls_ok h"
proof (induction rule: rtranclp_induct)
  case base
  show ?case by (simp add: calls_defs new_hub_def)
qed (rule calls_ok_step)

text \<open>How far a call still is from its end, and that it can always get there.\<close>

definition call_rank :: "call_state \<Rightarrow> nat" where
  "call_rank st = (case st of Calling \<Rightarrow> 3 | Waiting \<Rightarrow> 2 | Cleaning _ \<Rightarrow> 1 | _ \<Rightarrow> 0)"

lemma call_progress:
  assumes "c < ah_calls h" and "in_flight (ca_state (ah_call h c))"
  shows "\<exists>h'. hub_step h h' \<and> call_rank (ca_state (ah_call h' c)) < call_rank (ca_state (ah_call h c))"
proof (cases "ca_state (ah_call h c)")
  case Calling
  have "hub_step h (call_queue c h) \<or> hub_step h (call_fails c ''agent offline (no websocket)'' h) \<or>
      hub_step h (call_fails c ''agent send buffer full'' h)"
    using hub_step.queue [OF assms(1) Calling] hub_step.gone [OF assms(1) Calling] hub_step.full [OF assms(1) Calling] by blast
  then show ?thesis using Calling by (auto simp: call_queue_def call_fails_def on_call_def on_session_def call_rank_def)
next
  case Waiting
  then show ?thesis using hub_step.timeout [OF assms(1)] by (force simp: call_fails_def on_call_def call_rank_def)
next
  case (Cleaning why)
  then show ?thesis using hub_step.cleanup [OF assms(1)] by (force simp: call_cleanup_def on_call_def call_rank_def)
qed (use assms(2) in \<open>simp_all add: in_flight_def\<close>)

text \<open>
  C9. Commands and answers find each other. However sockets come and go, frames arrive and calls time
  out: an answered call was answered with a result that carries its own request identifier; a reader
  that took a call out of the table finds the call's channel empty, so it never blocks on a caller
  that gave up; and the table holds only calls that are still in flight, so nothing is left behind
  when a call ends. A call in flight always has a step that brings it closer to its end.
\<close>

theorem calls_are_answered_once:
  assumes "hub_run (new_hub e hi sk pl) h"
  shows "(\<forall>c r. ca_state (ah_call h c) = Answered r \<longrightarrow> ar_RequestID r = ca_requestID (ah_call h c)) \<and>
         (\<forall>n c r. ss_handing (ah_session h n) = Some (c, r) \<longrightarrow> ca_chan (ah_call h c) = None \<and> hub_step h (hand_over n c r h)) \<and>
         (\<forall>i c. map_of (ah_pending h) i = Some c \<longrightarrow> ca_requestID (ah_call h c) = i \<and> in_flight (ca_state (ah_call h c))) \<and>
         (\<forall>c. c < ah_calls h \<and> in_flight (ca_state (ah_call h c)) \<longrightarrow>
            (\<exists>h'. hub_step h h' \<and> call_rank (ca_state (ah_call h' c)) < call_rank (ca_state (ah_call h c))))"
proof -
  have ok: "calls_ok h" using assms by (rule calls_ok_run)
  have "\<exists>h'. hub_step h h' \<and> call_rank (ca_state (ah_call h' c)) < call_rank (ca_state (ah_call h c))"
    if "c < ah_calls h" "in_flight (ca_state (ah_call h c))" for c
    using that by (rule call_progress)
  moreover have "ca_chan (ah_call h c) = None \<and> hub_step h (hand_over n c r h)"
    if "ss_handing (ah_session h n) = Some (c, r)" for n c r
    using ok that hub_step.hand [OF that] unfolding calls_ok_def handing_ok_def by metis
  ultimately show ?thesis using ok unfolding calls_ok_def pending_ok_def answers_ok_def by blast
qed

definition demo_hub :: agent_hub where
  "demo_hub = new_hub demo_fleet (NewHistory 0 [] True) demo_spikes False"

definition demo_answer :: agent_result where
  "demo_answer = \<lparr> ar_RequestID = ''77'', ar_StatusCode = 200, ar_Body = [] \<rparr>"

definition demo_joined :: agent_hub where
  "demo_joined = the (handleMessage demo_reg False 0 ''2.2'' (RegisterFrame (Some (demo_request ''a'')))
     (serveAgentWS ''10.9.0.2'' [] ''a'' demo_hub))"

definition demo_called :: agent_hub where
  "demo_called = call_queue 0 (the (Request_start ''77'' ''a'' ''GET'' ''/api/ports'' [] demo_joined))"

definition demo_handing :: agent_hub where
  "demo_handing = the (handleMessage demo_reg False 0 ''2.2'' (ResultFrame (Some demo_answer)) demo_called)"

definition demo_done :: agent_hub where
  "demo_done = call_answer 0 demo_answer (hand_over 0 0 demo_answer demo_handing)"

lemma demo_joins: "hub_run demo_hub demo_joined"
proof -
  let ?h = "serveAgentWS ''10.9.0.2'' [] ''a'' demo_hub"
  have "hub_step demo_hub ?h" by (rule hub_step.accept)
  moreover have "hub_step ?h demo_joined"
  proof (rule hub_step.frame [of 0])
    have "handleMessage demo_reg False 0 ''2.2'' (RegisterFrame (Some (demo_request ''a''))) ?h \<noteq> None" by code_simp
    then show "handleMessage demo_reg False 0 ''2.2'' (RegisterFrame (Some (demo_request ''a''))) ?h = Some demo_joined"
      by (simp add: demo_joined_def)
  qed code_simp+
  ultimately show ?thesis by (meson r_into_rtranclp rtranclp_trans)
qed

lemma demo_runs: "hub_run demo_hub demo_done"
proof -
  let ?q = "the (Request_start ''77'' ''a'' ''GET'' ''/api/ports'' [] demo_joined)"
  have "Request_start ''77'' ''a'' ''GET'' ''/api/ports'' [] demo_joined \<noteq> None" by code_simp
  then have "hub_step demo_joined ?q" by (intro hub_step.call) auto
  moreover have "hub_step ?q demo_called" unfolding demo_called_def by (rule hub_step.queue) code_simp+
  moreover have "hub_step demo_called demo_handing"
  proof (rule hub_step.frame [of 0])
    have "handleMessage demo_reg False 0 ''2.2'' (ResultFrame (Some demo_answer)) demo_called \<noteq> None" by code_simp
    then show "handleMessage demo_reg False 0 ''2.2'' (ResultFrame (Some demo_answer)) demo_called = Some demo_handing"
      by (simp add: demo_handing_def)
  qed code_simp+
  moreover have "hub_step demo_handing (hand_over 0 0 demo_answer demo_handing)" by (rule hub_step.hand) code_simp+
  moreover have "hub_step (hand_over 0 0 demo_answer demo_handing) demo_done"
    unfolding demo_done_def by (rule hub_step.answer) code_simp+
  ultimately show ?thesis using demo_joins by (meson rtranclp.rtrancl_into_rtrancl)
qed

theorem calls_are_answered_once_witness:
  "ca_state (ah_call demo_done 0) = Answered demo_answer \<and> ar_RequestID demo_answer = ca_requestID (ah_call demo_done 0)"
proof -
  have st: "ca_state (ah_call demo_done 0) = Answered demo_answer" by code_simp
  with calls_are_answered_once [OF demo_runs [unfolded demo_hub_def]] show ?thesis by blast
qed

end
