(* ===== verification/Hub_Sessions.thy ===== *)
theory Hub_Sessions
  imports Agent_Hub_Laws
begin

text \<open>
  Which socket speaks for which server, over every interleaving of the agent hub: what frames of one
  socket can change, who may take a socket's place, and what a reconnect and the end of a socket do.
\<close>

section \<open>Sessions\<close>

text \<open>A session knows its server exactly when it is registered.\<close>

definition session_ok :: "agent_session \<Rightarrow> bool" where
  "session_ok s \<longleftrightarrow> (ss_registered s \<longleftrightarrow> ss_entry s \<noteq> None) \<and> (\<forall>e. ss_entry s = Some e \<longrightarrow> vps_ID (en_VPS e) = ss_vpsID s)"

lemma session_ok_identity: "identity s = identity s' \<Longrightarrow> session_ok s = session_ok s'"
  by (simp add: identity_def session_ok_def)

lemma sessions_quiet: "session_ok (ah_session h n) \<Longrightarrow> quiet h h' \<Longrightarrow> session_ok (ah_session h' n)"
  unfolding quiet_def using session_ok_identity by metis

lemma session_ok_updates [simp]:
  "session_ok (s\<lparr>ss_handing := x\<rparr>) = session_ok s" "session_ok (s\<lparr>ss_send := y\<rparr>) = session_ok s"
  "session_ok (s\<lparr>ss_sent := y\<rparr>) = session_ok s"
  by (simp_all add: session_ok_def)

lemma session_ok_registered:
  "session_ok (ah_session h m) \<Longrightarrow> session_ok (ah_session (registered_as n e ack h) m)"
  using session_ok_identity [OF registered_as_effect(2)] by (auto simp: session_ok_def)

lemma session_ok_register:
  assumes "on_register g n req h = Some h'" and "session_ok (ah_session h m)"
  shows "session_ok (ah_session h' m)"
  using assms(1)
  by (rule on_register_cases)
    (use sessions_quiet [OF assms(2)] in \<open>simp_all add: quiet_refused session_ok_registered quiet_ops(6)\<close>)

lemma session_ok_frame:
  assumes "handleMessage g pick n ver f h = Some h'" and "session_ok (ah_session h m)"
  shows "session_ok (ah_session h' m)"
proof (cases "(\<exists>r. f = RegisterFrame (Some r)) \<or> (\<exists>r. f = ResultFrame (Some r))")
  case False
  then show ?thesis using assms frame_quiet sessions_quiet by blast
next
  case True
  then show ?thesis
    using assms by (auto simp: on_result_def intro: session_ok_register split: option.splits)
qed

lemma session_ok_step: "hub_step h h' \<Longrightarrow> \<forall>m. session_ok (ah_session h m) \<Longrightarrow> session_ok (ah_session h' n)"
proof (induction rule: hub_step.induct)
  case frame
  then show ?case using session_ok_frame by blast
next
  case (call rid vpsID meth path body h h')
  then show ?case by (auto simp: Request_start_def split: option.splits)
next
  case (accept h ip tok pin)
  then show ?case by (simp add: serveAgentWS_def session_ok_def Let_def)
qed (auto simp: hand_over_def on_call_def call_queue_def call_fails_def call_cleanup_def drop_pending_def call_answer_def
  on_term_def intro: sessions_quiet)

lemma session_ok_run: "hub_run (new_hub e hi sk pl) h \<Longrightarrow> session_ok (ah_session h n)"
proof (induction arbitrary: n rule: rtranclp_induct)
  case base
  show ?case by (simp add: session_ok_def new_hub_def)
qed (use session_ok_step in blast)

section \<open>One socket, one server\<close>

text \<open>What is recorded about a server: its entry, its snapshot, its history and its spikes.\<close>

definition recorded :: "string \<Rightarrow> agent_hub \<Rightarrow> vps_entry option \<times> vps_snapshot option \<times> metric_sample list \<times> spike_record list" where
  "recorded j h = (GetVPS j (hub_store h), GetSnapshot j (hub_store h), hist_of (ah_hist h) j, spikes_of (ah_spikes h) j)"

lemma hist_of_others:
  "j \<noteq> i \<Longrightarrow> hist_of (snd (history_Record i s hi)) j = hist_of hi j"
  "j \<noteq> i \<Longrightarrow> hist_of (snd (Backfill now i ss hi)) j = hist_of hi j"
  by (simp_all add: hist_of_def history_Record_def Backfill_def rewrite_history_def Let_def)

lemma spikes_of_others: "j \<noteq> i \<Longrightarrow> spikes_of (snd (spikes_Record now i rs k)) j = spikes_of k j"
  by (simp add: spikes_of_def spikes_Record_def rewrite_spikes_def Let_def)

lemma hist_of_annotate: "snd (annotateDiskForecast now i (Some hi) m) = Some hi' \<Longrightarrow> hist_of hi' = hist_of hi"
  by (auto simp: annotateDiskForecast_def DiskForecast_def hist_of_def Let_def split: if_splits option.splits prod.splits)


lemma merge_recorded:
  assumes "mergeSnapshot now i ver merge (e, Some hi) = Some (e', hist')" and "store_wf (ae_store e)" and "no_bar i" and "j \<noteq> i"
  shows "GetVPS j (ae_store e') = GetVPS j (ae_store e) \<and> GetSnapshot j (ae_store e') = GetSnapshot j (ae_store e) \<and>
    (\<exists>hi'. hist' = Some hi' \<and> hist_of hi' j = hist_of hi j)"
proof (cases "GetVPS i (ae_store e)")
  case None
  then show ?thesis using assms(1) frame_for_deleted_server [of i e now ver merge "Some hi"] by auto
next
  case (Some en)
  have id: "vps_ID (en_VPS en) = i" using store_wf_lookup [OF assms(2)] Some by (simp add: GetVPS_def)
  have "GetVPS j (ae_store e') = GetVPS j (ae_store e) \<and> GetSnapshot j (ae_store e') = GetSnapshot j (ae_store e)"
    using frame_updates_registry [OF assms(1) Some id assms(3)] assms(4) by blast
  moreover have "\<exists>hi'. hist' = Some hi' \<and> hist_of hi' j = hist_of hi j"
  proof -
    have en: "vps_ID (en_VPS (merge_entry now ver st en)) = i" for st by (simp add: merge_entry_def Let_def id)
    define m where "m = sn_Metrics (merge (case GetSnapshot i (ae_store e) of None \<Rightarrow> zero_snapshot | Some s \<Rightarrow> s))"
    obtain m' hi1 where ann: "annotateDiskForecast now i (Some hi) m = (m', Some hi1)"
      by (cases "annotateDiskForecast now i (Some hi) m") (auto simp: annotateDiskForecast_def split_def Let_def split: if_splits)
    then have "hist_of hi1 = hist_of hi" using hist_of_annotate [of now i hi m hi1] by simp
    then show ?thesis
      using assms(1,4) Some en ann hist_of_others(1) [of j i]
      by (auto simp: mergeSnapshot_def UpdateVPS_def GetVPS_def Let_def m_def [symmetric] split: option.splits if_splits)
  qed
  ultimately show ?thesis by blast
qed

text \<open>Frames of a session that is not registered reach no record.\<close>

lemma frame_unregistered:
  assumes "handleMessage g pick n ver f h = Some h'" and "\<nexists>req. f = RegisterFrame (Some req)"
    and "ss_entry (ah_session h n) = None"
  shows "ah_eng h' = ah_eng h \<and> ah_hist h' = ah_hist h \<and> ah_spikes h' = ah_spikes h"
  using assms
  by (induction g pick n ver f h rule: handleMessage.induct)
    (auto simp: on_snapshot_def on_backfill_def on_spikes_def on_heartbeat_def handleTerminalFrame_def deliverTerminal_def
      term_put_def on_term_def Let_def split_def on_result_def on_session_def split: option.splits if_splits)

lemma snapshot_recorded:
  assumes "on_snapshot now n ver merge h = Some h'" and "ss_entry (ah_session h n) = Some en" and "vps_ID (en_VPS en) = i"
    and "store_wf (hub_store h)" and "no_bar i" and "j \<noteq> i"
  shows "recorded j h' = recorded j h"
proof (cases "ss_registered (ah_session h n)")
  case True
  then obtain e' hist' where m: "mergeSnapshot now i ver merge (ah_eng h, Some (ah_hist h)) = Some (e', hist')"
    using assms(1-3) by (auto simp: on_snapshot_def split: option.splits)
  from merge_recorded [OF m assms(4,5,6)] show ?thesis
    using assms(1-3) True m by (auto simp: on_snapshot_def recorded_def)
qed (use assms(1,2) in \<open>simp add: on_snapshot_def\<close>)

lemma records_others:
  assumes "ss_entry (ah_session h n) = Some en" and "vps_ID (en_VPS en) = i" and "j \<noteq> i"
  shows "recorded j (on_backfill now n ss h) = recorded j h" "recorded j (on_spikes now n rs h) = recorded j h"
    "recorded j (on_heartbeat now n h) = recorded j h"
proof -
  have up: "GetVPS j (snd (UpdateVPS i fn s)) = GetVPS j s" "GetSnapshot j (snd (UpdateVPS i fn s)) = GetSnapshot j s" for fn s
    using assms(3) reg.get_upd by (simp, simp add: UpdateVPS_def GetSnapshot_def split: option.split)
  show "recorded j (on_backfill now n ss h) = recorded j h"
    using assms hist_of_others(2) [OF assms(3), of now ss "ah_hist h"]
    by (auto simp: on_backfill_def recorded_def hub_broadcast_def send_out_def Let_def split_def)
  show "recorded j (on_spikes now n rs h) = recorded j h"
    using assms by (simp add: on_spikes_def recorded_def spikes_of_others)
  show "recorded j (on_heartbeat now n h) = recorded j h"
    using assms up by (simp add: on_heartbeat_def recorded_def hub_update_def)
qed

lemma recorded_terminal [simp]: "recorded j (handleTerminalFrame pick n fo h) = recorded j h"
  by (simp add: handleTerminalFrame_def deliverTerminal_def term_put_def on_term_def recorded_def Let_def split_def split: option.split)

lemma recorded_result [simp]: "recorded j (on_result n r h) = recorded j h"
  by (simp add: on_result_def on_session_def recorded_def split: option.split)

lemma frame_recorded:
  assumes "handleMessage g pick n ver f h = Some h'" and "\<nexists>req. f = RegisterFrame (Some req)"
    and "ss_entry (ah_session h n) = Some en" and "vps_ID (en_VPS en) = i"
    and "store_wf (hub_store h)" and "no_bar i" and "j \<noteq> i"
  shows "recorded j h' = recorded j h"
proof -
  have snap: "on_snapshot now n ver merge h = Some h' \<Longrightarrow> recorded j h' = recorded j h" for now merge
    using snapshot_recorded [OF _ assms(3-)] by blast
  show ?thesis
  proof (cases "(g, pick, n, ver, f, h)" rule: handleMessage.cases)
    case 2
    then show ?thesis using assms(2) by simp
  qed (use assms(1,2) records_others [OF assms(3,4,7)] in \<open>auto intro: snap\<close>)
qed

text \<open>A frame reaches only terminals that were opened over its own socket.\<close>

lemma frame_terminals:
  assumes "handleMessage g pick n ver f h = Some h'" and "ts_sess (ah_term h t) \<noteq> n"
  shows "ah_term h' t = ah_term h t"
proof -
  have reg: "ah_term (registered_as n e ack k) = ah_term k" "ah_term (put_panel p k) = ah_term k"
    "ah_term (shutdown n (hub_send n f' k)) = ah_term k" for e ack k p f'
    by (simp_all add: registered_as_def put_panel_def hub_update_def hub_send_def shutdown_def on_session_def attachSession_def
        hub_broadcast_def Let_def split: option.split)
  have "on_register g n req h = Some h' \<Longrightarrow> ah_term h' = ah_term h" for req
    by (erule on_register_cases) (simp_all add: reg)
  note on_reg = this
  show ?thesis
  proof (cases "(g, pick, n, ver, f, h)" rule: handleMessage.cases)
  qed (use assms on_reg in \<open>auto simp: on_snapshot_def on_backfill_def on_spikes_def on_heartbeat_def handleTerminalFrame_def
    deliverTerminal_def term_put_def on_term_def hub_update_def hub_broadcast_def Let_def split_def on_result_def on_session_def
    split: option.splits if_splits\<close>)
qed

text \<open>
  C8. A socket speaks for one server. Whatever an agent sends other than a registration, nothing that
  is recorded about any other server changes: not its entry, its snapshot, its history or its
  spikes, and no terminal that was opened over another socket gets a frame. Before it is registered,
  a socket reaches no record at all.
\<close>

theorem socket_speaks_for_one_server:
  assumes "hub_run (new_hub e hi sk pl) h" and "store_wf (hub_store h)" and "no_bar (ss_vpsID (ah_session h n))"
    and "handleMessage g pick n ver f h = Some h'" and "\<nexists>req. f = RegisterFrame (Some req)"
  shows "(\<forall>j. j \<noteq> ss_vpsID (ah_session h n) \<longrightarrow> recorded j h' = recorded j h) \<and>
    (\<forall>t. ts_sess (ah_term h t) \<noteq> n \<longrightarrow> ah_term h' t = ah_term h t) \<and>
    (\<not> ss_registered (ah_session h n) \<longrightarrow> ah_eng h' = ah_eng h \<and> ah_hist h' = ah_hist h \<and> ah_spikes h' = ah_spikes h)"
proof -
  have ok: "session_ok (ah_session h n)" using assms(1) by (rule session_ok_run)
  have terms: "\<forall>t. ts_sess (ah_term h t) \<noteq> n \<longrightarrow> ah_term h' t = ah_term h t"
    using frame_terminals [OF assms(4)] by blast
  show ?thesis
  proof (cases "ss_entry (ah_session h n)")
    case None
    then show ?thesis
      using frame_unregistered [OF assms(4,5)] terms by (simp add: recorded_def)
  next
    case (Some en)
    then have "vps_ID (en_VPS en) = ss_vpsID (ah_session h n)" "ss_registered (ah_session h n)"
      using ok by (simp_all add: session_ok_def)
    then show ?thesis
      using frame_recorded [OF assms(4,5) Some _ assms(2,3)] terms by blast
  qed
qed

lemma demo_joined_wf: "store_wf (hub_store demo_joined)" "no_bar (ss_vpsID (ah_session demo_joined 0))"
  by code_simp+

theorem socket_speaks_for_one_server_witness:
  "recorded ''b'' (the (handleMessage demo_reg False 0 ''2.2'' HeartbeatFrame demo_joined)) = recorded ''b'' demo_joined"
proof -
  have "handleMessage demo_reg False 0 ''2.2'' HeartbeatFrame demo_joined = Some (on_heartbeat 9 0 demo_joined)"
    by (simp add: demo_reg_def)
  moreover have "''b'' \<noteq> ss_vpsID (ah_session demo_joined 0)" by code_simp
  ultimately show ?thesis
    using socket_speaks_for_one_server [OF demo_joins [unfolded demo_hub_def] demo_joined_wf, of demo_reg False "''2.2''" HeartbeatFrame]
    by simp
qed

section \<open>Taking over a socket\<close>

lemma GetVPS_put_panel [simp]: "hub_store (put_panel p h) = pn_store p"
  by (simp add: put_panel_def hub_update_def)

lemma hub_store_simps [simp]:
  "hub_store (on_session n f h) = hub_store h" "hub_store (shutdown n h) = hub_store h" "hub_store (hub_send n fr h) = hub_store h"
  "hub_store (hub_broadcast b h) = hub_store h"
  by (simp_all add: on_session_def shutdown_def hub_send_def hub_broadcast_def send_out_def)

lemma hub_store_attach [simp]: "hub_store (attachSession n h) = hub_store h"
  by (simp add: attachSession_def Let_def split: option.split)

lemma hub_store_registered [simp]: "hub_store (registered_as n e ack h) = hub_store h"
  by (simp add: registered_as_def Let_def)

text \<open>The entry a register frame is accepted for, and that no other entry changes.\<close>

lemma pin_entry_ID [simp]: "vps_ID (en_VPS (pin_entry g req e)) = vps_ID (en_VPS e)"
  by (simp add: pin_entry_def Let_def split: option.split)

lemma update_with_token_ID:
  assumes "\<And>i f s. fst (upd i f s) = map_option f (GetVPS i s)" and "\<And>e. vps_ID (en_VPS (f e)) = vps_ID (en_VPS e)"
    and "store_wf s" and "fst (update_with_token upd needs i f s) = Some e"
  shows "vps_ID (en_VPS e) = i"
proof -
  obtain e0 where e0: "GetVPS i s = Some e0" using assms(1,4) by (auto simp: update_with_token_def split: option.splits)
  moreover have "vps_ID (en_VPS e0) = i" using store_wf_lookup [OF assms(3)] e0 by (simp add: GetVPS_def)
  ultimately show ?thesis
    using assms(4) assms(1,2) by (auto simp: update_with_token_def split_def Let_def split: if_splits)
qed

lemma registerPinnedAgent_result:
  assumes "store_wf (pn_store p)" and "registerPinnedAgent g req i p = (r, p')"
  shows "(\<exists>err. r = Some (Inl err)) \<or> (\<exists>en ack. r = Some (Inr (en, ack)) \<and> vps_ID (en_VPS en) = i)"
    and "j \<noteq> i \<Longrightarrow> GetVPS j (pn_store p') = GetVPS j (pn_store p)"
proof -
  have id: "fst (update_with_token UpdateVPSNow needs i (pin_entry g req) (pn_store p)) = Some e \<Longrightarrow> vps_ID (en_VPS e) = i" for needs e
    using update_with_token_ID [OF reg_now.upd_result pin_entry_ID assms(1)] .
  show "(\<exists>err. r = Some (Inl err)) \<or> (\<exists>en ack. r = Some (Inr (en, ack)) \<and> vps_ID (en_VPS en) = i)"
    using assms(2) id by (auto simp: registerPinnedAgent_def Let_def split_def acked_def split: option.splits)
  show "GetVPS j (pn_store p') = GetVPS j (pn_store p)" if "j \<noteq> i"
    using assms(2) update_with_token_others [of UpdateVPSNow, OF reg_now.get_upd [THEN trans, OF if_not_P] that]
    by (auto simp: registerPinnedAgent_def Let_def split_def acked_def split: option.splits if_splits)
qed


lemma hub_register_others:
  assumes "store_wf (hub_store h)" and "hub_Connected k h" and "GetVPS k (hub_store h) = Some e0" and "en_AgentToken e0 \<noteq> []"
    and "ss_pinnedID (ah_session h n) \<noteq> k" and "ss_tokenEntry (ah_session h n) = None"
    and "\<not> rg_loopback g (ss_remoteIP (ah_session h n))" and "hub_register g n req h = (r, p)"
  shows "GetVPS k (pn_store p) = Some e0 \<and> (\<forall>en ack. r = Some (Inr (en, ack)) \<longrightarrow> vps_ID (en_VPS en) \<noteq> k)"
proof (cases "ss_pinnedID (ah_session h n) = []")
  case False
  then have "registerPinnedAgent (g\<lparr>rg_conn := (\<lambda>i. hub_Connected i h)\<rparr>) req (ss_pinnedID (ah_session h n)) (panel_of h) = (r, p)"
    using assms(8) by (simp add: hub_register_def Let_def)
  from registerPinnedAgent_result [OF _ this] show ?thesis
    using assms(1,3,5) by (fastforce simp: panel_of_def)
next
  case True
  let ?g = "g\<lparr>rg_conn := (\<lambda>i. hub_Connected i h)\<rparr>" and ?s = "ah_session h n"
  have run: "registerAgent ?g req (ss_remoteIP ?s) (ss_token ?s) None (panel_of h) = (r, p)"
    using True assms(6,8) by (simp add: hub_register_def Let_def)
  have "\<not> claims_by_address ?g ip e0" for ip
    using assms(2,4) store_wf_lookup [OF assms(1)] assms(3) by (simp add: claims_by_address_def GetVPS_def)
  moreover have "store_wf (pn_store (panel_of h))" "\<not> rg_loopback ?g (ss_remoteIP ?s)" "pn_store (panel_of h) = hub_store h"
    using assms(1,7) by (simp_all add: panel_of_def)
  ultimately show ?thesis
    using registerAgent_remote [of "panel_of h" ?g, OF _ _ run] assms(3) by (metis Inl_Inr_False option.inject prod.inject sum.inject(2))
qed

text \<open>What registering and ending a session do to the others.\<close>

lemma done_simps [simp]:
  "m \<noteq> n \<Longrightarrow> ah_session (shutdown n h) m = ah_session h m" "m \<noteq> n \<Longrightarrow> ah_session (hub_send n f h) m = ah_session h m"
  "ah_session (hub_broadcast b h) = ah_session h" "ah_session (put_panel p h) = ah_session h" "ah_session (hub_update u h) = ah_session h"
  "ah_session (shutdown n h) n = (ah_session h n)\<lparr>ss_done := True\<rparr>"
  by (simp_all add: shutdown_def hub_send_def hub_broadcast_def put_panel_def hub_update_def)

lemma session_attach:
  "m \<noteq> n \<Longrightarrow> map_of (ah_agents h) (ss_vpsID (ah_session h n)) \<noteq> Some m \<Longrightarrow> ah_session (attachSession n h) m = ah_session h m"
  "ah_session (attachSession n h) n = ah_session h n"
  by (auto simp: attachSession_def Let_def split: option.split)

lemma session_registered:
  assumes "m \<noteq> n" and "map_of (ah_agents h) (vps_ID (en_VPS e)) \<noteq> Some m"
  shows "ah_session (registered_as n e ack h) m = ah_session h m"
  using assms by (simp add: registered_as_def Let_def session_attach)


definition demo_forger :: agent_hub where
  "demo_forger = serveAgentWS ''100.64.0.9'' ''stolen'' [] demo_joined"

lemma demo_forger_facts:
  "store_wf (hub_store demo_forger)" "hub_Connected ''a'' demo_forger" "ah_agents demo_forger = [(''a'', 0)]"
  "GetVPS ''a'' (hub_store demo_forger) \<noteq> None" "en_AgentToken (the (GetVPS ''a'' (hub_store demo_forger))) \<noteq> []"
  "ss_pinnedID (ah_session demo_forger 1) = []" "isl (the (fst (hub_register demo_reg 1 (demo_request ''a'') demo_forger)))"
  "fst (hub_register demo_reg 1 (demo_request ''a'') demo_forger) \<noteq> None"
  "Option.is_none (ss_tokenEntry (ah_session demo_forger 1))" "\<not> rg_loopback demo_reg (ss_remoteIP (ah_session demo_forger 1))"
  by code_simp+



definition demo_second :: agent_hub where
  "demo_second = serveAgentWS ''10.9.0.2'' [] ''a'' demo_joined"

lemma demo_second_facts:
  "vps_ID (en_VPS (the (GetVPS ''a'' (hub_store demo_second)))) = ''a''" "\<not> ss_done (ah_session demo_second 1)"
  "ss_send (ah_session demo_second 1) = []" "ss_vpsID (ah_session demo_second 0) = ''a''"
  by code_simp+


section \<open>Terminals\<close>

text \<open>
  The shell's output waits in a buffer of 1024 frames. When that is full the session is dropped from
  the table, and the message that says so is put into the same full buffer: nothing is delivered,
  so the app is left with a terminal that no frame will ever reach again.
\<close>

lemma overflow_is_silent:
  assumes "length (ts_out (ah_term h t)) = termOutBuffer" and "\<not> ts_ended (ah_term h t)"
  shows "ah_term (deliverTerminal pick t f h) = ah_term h \<and> map_of (ah_terms (deliverTerminal pick t f h)) (ts_id (ah_term h t)) = None"
  using assms by (simp add: deliverTerminal_def term_put_def Let_def)

end
