(* ===== verification/Temp_Logins.thy ===== *)
theory Temp_Logins
  imports Go_Strings
begin

text \<open>
  Temporary SSH accounts on a server (\<^verbatim>\<open>src/agent/templogin_linux.go\<close>): creating one, deleting one,
  the reaper, and the rule in sshd's configuration that lets them in with a password.

  The record \<open>login_host\<close> is what of the host the code changes: the text of \<^verbatim>\<open>/etc/passwd\<close> (\<open>None\<close> when
  it cannot be read), the names of the files under \<^verbatim>\<open>/etc/sudoers.d\<close>, the decoded state file, sshd's
  drop-in file and the processes killed, accounts deleted and reloads asked for. What the programs do is the record \<open>login_env\<close>:
  \<open>useradd\<close> and \<open>userdel\<close> as functions on the text of the account file, the others as their verdicts
  (\<open>Some\<close> an error's text where the code repeats it); \<open>le_hexes\<close> are the random names drawn. The state
  file is its decoded content, and logins expiring in the same second keep their order.
\<close>

section \<open>Definitions\<close>

abbreviation tempLoginMarker :: string where "tempLoginMarker \<equiv> ''Beacle temporary login''"
abbreviation tempLoginDropIn :: string where "tempLoginDropIn \<equiv> ''/etc/ssh/sshd_config.d/90-beacle-temp-logins.conf''"
abbreviation tempLoginMinMins :: int where "tempLoginMinMins \<equiv> 5"
abbreviation tempLoginMaxMins :: int where "tempLoginMaxMins \<equiv> 24 * 60"

record temp_login =
  tl_User :: string
  tl_Password :: string
  tl_Sudo :: bool
  tl_Port :: int
  tl_ExpiresAt :: time
  tl_Warning :: string

record login_host =
  lh_passwd :: "string option"
  lh_sudoers :: "string list"
  lh_logins :: "temp_login list"
  lh_dropin :: "string option"
  lh_cmds :: "string list list"

record login_env =
  le_root :: bool
  le_LookPath :: "string \<Rightarrow> bool"
  le_Stat :: "string \<Rightarrow> bool"
  le_hexes :: "string list"
  le_taken :: "string \<Rightarrow> bool"
  le_password :: string
  le_useradd :: "string \<Rightarrow> string option \<Rightarrow> bool \<times> string option"
  le_chpasswd :: bool
  le_visudo :: "string \<Rightarrow> string option"
  le_WriteFile :: "string \<Rightarrow> string option"
  le_save :: bool
  le_userdel :: "string \<Rightarrow> string \<Rightarrow> string"
  le_MkdirAll :: bool
  le_sshd_t :: "string \<Rightarrow> bool"
  le_sshd_T :: "string \<Rightarrow> string option"

datatype login_error =
    NotRoot | NoUseradd | NoFreeName | UseraddFailed | ChpasswdFailed | SaveFailed
  | NoSSHServer | DropInFailed | ConfigRefused | NotTemporary

text \<open>The regular expression \<open>^beacle-[0-9a-f]{6}$\<close>.\<close>

definition hex_char :: "char \<Rightarrow> bool" where
  "hex_char c \<longleftrightarrow> c \<in> set ''0123456789abcdef''"

definition tempLoginName :: "string \<Rightarrow> bool" where
  "tempLoginName n \<longleftrightarrow> HasPrefix n ''beacle-'' \<and> length n = 13 \<and> list_all hex_char (drop 7 n)"

text \<open>The columns of an account line, and whether the agent made the account.\<close>

definition passwd_fields :: "string \<Rightarrow> string list" where
  "passwd_fields line = Split (TrimSpace line) (CHR '':'')"

definition own_account :: "string \<Rightarrow> bool" where
  "own_account line = (let f = passwd_fields line in
     length f = 7 \<and> tempLoginName (f ! 0) \<and> f ! 4 = tempLoginMarker)"

definition tempAccountsIn :: "string \<Rightarrow> string list" where
  "tempAccountsIn passwd = map (\<lambda>l. passwd_fields l ! 0) (filter own_account (Split passwd (CHR 0x0A)))"

definition loadTempLogins :: "login_host \<Rightarrow> temp_login list" where
  "loadTempLogins h = sort_key tl_ExpiresAt (map (\<lambda>l. l\<lparr>tl_Password := []\<rparr>) (lh_logins h))"

definition saveTempLogins :: "login_env \<Rightarrow> temp_login list \<Rightarrow> login_host \<Rightarrow> bool \<times> login_host" where
  "saveTempLogins env logins h =
     (if le_save env then (True, h\<lparr>lh_logins := map (\<lambda>l. l\<lparr>tl_Password := []\<rparr>) logins\<rparr>) else (False, h))"

definition tempLoginUsers :: "temp_login list \<Rightarrow> string list" where
  "tempLoginUsers logins = map tl_User logins"

definition run_cmd :: "string list \<Rightarrow> login_host \<Rightarrow> login_host" where
  "run_cmd argv h = h\<lparr>lh_cmds := lh_cmds h @ [argv]\<rparr>"

definition removeTempAccount :: "login_env \<Rightarrow> string \<Rightarrow> login_host \<Rightarrow> login_host" where
  "removeTempAccount env name h =
     (if \<not> tempLoginName name then h
      else
        let h1 = h\<lparr>lh_sudoers := filter (\<lambda>f. f \<noteq> name) (lh_sudoers h)\<rparr>
        in case lh_passwd h1 of
             None \<Rightarrow> h1
           | Some t \<Rightarrow>
               if name \<notin> set (tempAccountsIn t) then h1
               else run_cmd [''userdel'', ''-f'', ''-r'', name]
                      ((run_cmd [''pkill'', ''-KILL'', ''-u'', name] h1)\<lparr>lh_passwd := Some (le_userdel env name t)\<rparr>))"

text \<open>sshd's drop-in file.\<close>

definition sshdDropIn :: "string list \<Rightarrow> string" where
  "sshdDropIn users =
     ''# Written by the Beacle agent while temporary SSH logins exist, and'' @ [CHR 0x0A] @
     ''# removed with the last of them. Lets only those accounts in with a password.'' @ [CHR 0x0A] @
     ''Match User '' @ Join users '','' @ [CHR 0x0A] @
     [CHR 0x09] @ ''PasswordAuthentication yes'' @ [CHR 0x0A] @ ''Match all'' @ [CHR 0x0A]"

definition reloadSshd :: "login_host \<Rightarrow> login_host" where
  "reloadSshd h = run_cmd [''systemctl'', ''try-reload-or-restart'', ''sshd.service'']
     (run_cmd [''systemctl'', ''try-reload-or-restart'', ''ssh.service''] h)"

text \<open>One line of \<open>sshd -T\<close>: a port, a warning, or neither.\<close>

definition effective_port :: "string list \<Rightarrow> int option" where
  "effective_port f =
     (if length f \<ge> 2 \<and> ToLower (f ! 0) = ''port'' \<and> snd (Atoi (f ! 1)) then Some (fst (Atoi (f ! 1))) else None)"

definition effective_warning :: "string list \<Rightarrow> string list" where
  "effective_warning f =
     (if length f < 2 then []
      else if ToLower (f ! 0) = ''passwordauthentication''
      then if f ! 1 \<noteq> ''yes''
           then [''sshd still refuses passwords for this account (its config may not include /etc/ssh/sshd_config.d).'']
           else []
      else if ToLower (f ! 0) = ''allowusers''
      then [''sshd only lets in the users listed in AllowUsers, and this account is not one of them.'']
      else if ToLower (f ! 0) = ''allowgroups'' then [''sshd only lets in the groups listed in AllowGroups.'']
      else if ToLower (f ! 0) = ''authenticationmethods''
      then if f ! 1 \<noteq> ''any'' \<and> \<not> Contains (f ! 1) ''password''
           then [''sshd requires '' @ f ! 1 @ '' logins, so a password alone will not do.''] else []
      else [])"

definition sshdEffective :: "string \<Rightarrow> int \<times> string" where
  "sshdEffective out =
     (let fs = map Fields (Split out (CHR 0x0A));
          ports = concat (map (\<lambda>f. case effective_port f of Some p \<Rightarrow> [p] | None \<Rightarrow> []) fs)
      in (if ports = [] then 22 else hd ports, Join (concat (map effective_warning fs)) '' ''))"

definition configureSshd ::
  "login_env \<Rightarrow> string list \<Rightarrow> login_host \<Rightarrow> (login_error + int \<times> string) \<times> login_host" where
  "configureSshd env users h =
     (if users = []
      then (Inr (0, []), if lh_dropin h \<noteq> None then reloadSshd (h\<lparr>lh_dropin := None\<rparr>) else h)
      else if \<not> (le_LookPath env ''sshd'' \<or> le_Stat env ''/usr/sbin/sshd'' \<or> le_Stat env ''/usr/local/sbin/sshd'') then (Inl NoSSHServer, h)
      else if \<not> le_MkdirAll env then (Inl DropInFailed, h)
      else
        let want = sshdDropIn users;
            effective = (case le_sshd_T env (last users) of None \<Rightarrow> (22, []) | Some out \<Rightarrow> sshdEffective out)
        in if lh_dropin h = Some want then (Inr effective, h)
           else if le_WriteFile env tempLoginDropIn \<noteq> None then (Inl DropInFailed, h)
           else if \<not> le_sshd_t env want then (Inl ConfigRefused, h\<lparr>lh_dropin := None\<rparr>)
           else (Inr effective, reloadSshd (h\<lparr>lh_dropin := Some want\<rparr>)))"

definition deleteTempLoginLocked :: "login_env \<Rightarrow> string \<Rightarrow> login_host \<Rightarrow> login_host" where
  "deleteTempLoginLocked env name h =
     (let h1 = removeTempAccount env name h;
          keep = filter (\<lambda>l. tl_User l \<noteq> name) (loadTempLogins h1);
          h2 = snd (saveTempLogins env keep h1)
      in snd (configureSshd env (tempLoginUsers keep) h2))"

definition deleteTempLogin :: "login_env \<Rightarrow> string \<Rightarrow> login_host \<Rightarrow> login_error option \<times> login_host" where
  "deleteTempLogin env name h =
     (if \<not> tempLoginName name then (Some NotTemporary, h) else (None, deleteTempLoginLocked env name h))"

definition writeTempSudoers :: "login_env \<Rightarrow> string \<Rightarrow> login_host \<Rightarrow> string option \<times> login_host" where
  "writeTempSudoers env name h =
     (if \<not> le_LookPath env ''sudo'' then (Some ''sudo is not installed'', h)
      else if \<not> le_Stat env ''/etc/sudoers.d'' then (Some ''there is no /etc/sudoers.d'', h)
      else case (if le_LookPath env ''visudo'' then le_visudo env (name @ '' ALL=(ALL:ALL) ALL'' @ [CHR 0x0A]) else None) of
             Some e \<Rightarrow> (Some e, h)
           | None \<Rightarrow>
               (case le_WriteFile env (''/etc/sudoers.d/'' @ name) of
                  Some e \<Rightarrow> (Some e, h)
                | None \<Rightarrow> (None, h\<lparr>lh_sudoers := name # lh_sudoers h\<rparr>)))"

definition login_minutes :: "int \<Rightarrow> int" where
  "login_minutes m = (let mins = (if m \<le> 0 then 60 else m) in max tempLoginMinMins (min mins tempLoginMaxMins))"

definition login_expiry :: "time \<Rightarrow> int \<Rightarrow> time" where
  "login_expiry now m = (let t = now + login_minutes m * minute in t - t mod second)"

text \<open>The account exists; what is left to do before it can be handed out.\<close>

definition finish_login :: "login_env \<Rightarrow> time \<Rightarrow> int \<Rightarrow> bool \<Rightarrow> string \<Rightarrow> login_host \<Rightarrow> (login_error + temp_login) \<times> login_host" where
  "finish_login env now mins sudo name h =
     (if \<not> le_chpasswd env then (Inl ChpasswdFailed, deleteTempLoginLocked env name h)
      else
        let (sudo_err, h1) = (if sudo then writeTempSudoers env name h else (None, h));
            login = \<lparr> tl_User = name, tl_Password = [], tl_Sudo = sudo \<and> sudo_err = None, tl_Port = 0,
                      tl_ExpiresAt = login_expiry now mins, tl_Warning = [] \<rparr>;
            logins = loadTempLogins h1 @ [login];
            (saved, h2) = saveTempLogins env logins h1
        in if \<not> saved then (Inl SaveFailed, deleteTempLoginLocked env name h2)
           else
             let (r, h3) = configureSshd env (tempLoginUsers logins) h2
             in case r of
                  Inl e \<Rightarrow> (Inl e, deleteTempLoginLocked env name h3)
                | Inr (port, warning) \<Rightarrow>
                    (Inr (login\<lparr>tl_Port := port,
                                tl_Warning := Join ((case sudo_err of None \<Rightarrow> [] | Some e \<Rightarrow> [''no sudo for this account: '' @ e])
                                                    @ (if warning = [] then [] else [warning])) '' '',
                                tl_Password := le_password env\<rparr>), h3))"

definition createTempLogin :: "login_env \<Rightarrow> time \<Rightarrow> int \<Rightarrow> bool \<Rightarrow> login_host \<Rightarrow> (login_error + temp_login) \<times> login_host" where
  "createTempLogin env now mins sudo h =
     (if \<not> le_root env then (Inl NotRoot, h)
      else if \<not> le_LookPath env ''useradd'' then (Inl NoUseradd, h)
      else case find (\<lambda>n. \<not> le_taken env n) (map (\<lambda>r. ''beacle-'' @ r) (take 10 (le_hexes env))) of
             None \<Rightarrow> (Inl NoFreeName, h)
           | Some name \<Rightarrow>
               let (ok, t) = le_useradd env name (lh_passwd h)
               in if \<not> ok then (Inl UseraddFailed, h\<lparr>lh_passwd := t\<rparr>)
                  else finish_login env now mins sudo name (h\<lparr>lh_passwd := t\<rparr>))"

text \<open>The reaper.\<close>

definition remove_all :: "login_env \<Rightarrow> string list \<Rightarrow> login_host \<Rightarrow> login_host" where
  "remove_all env names h = fold (removeTempAccount env) names h"

definition expired :: "time \<Rightarrow> temp_login \<Rightarrow> bool" where
  "expired now l \<longleftrightarrow> now > tl_ExpiresAt l"

definition reapTempLogins :: "login_env \<Rightarrow> time \<Rightarrow> login_host \<Rightarrow> login_host" where
  "reapTempLogins env now h =
     (let logins = loadTempLogins h;
          keep = filter (\<lambda>l. \<not> expired now l) logins;
          h1 = remove_all env (tempLoginUsers (filter (expired now) logins)) h;
          orphans = (case lh_passwd h1 of
                       None \<Rightarrow> []
                     | Some t \<Rightarrow> filter (\<lambda>n. n \<notin> set (tempLoginUsers keep)) (tempAccountsIn t));
          h2 = remove_all env orphans h1
      in if length keep = length logins \<and> orphans = []
         then if keep = [] \<and> lh_dropin h2 \<noteq> None then snd (configureSshd env [] h2) else h2
         else snd (configureSshd env (tempLoginUsers keep) (snd (saveTempLogins env keep h2))))"

end
