(* ===== verification/Temp_Logins_Laws.thy ===== *)
theory Temp_Logins_Laws
  imports Temp_Logins
begin

text \<open>
  What the temporary logins promise: an account the agent did not create survives every sequence of
  their operations; a creation that fails leaves the account file as it was; after a reaper run no
  account of the agent's is left but those with a running time; and a login's time is bounded.
  What \<open>useradd\<close> and \<open>userdel\<close> do to the account file is stated as \<open>useradd_law\<close>, \<open>userdel_law\<close>.
\<close>

section \<open>The account file\<close>

definition acct_lines :: "string \<Rightarrow> string list" where
  "acct_lines t = filter (\<lambda>l. l \<noteq> []) (Split t (CHR 0x0A))"

definition acct_name :: "string \<Rightarrow> string" where
  "acct_name l = passwd_fields l ! 0"

definition names_unique :: "string \<Rightarrow> bool" where
  "names_unique t \<longleftrightarrow> distinct (map acct_name (acct_lines t))"

text \<open>
  \<open>useradd\<close> either appends one line, marked as the agent's, for a name the file does not have, or
  leaves the file as it was; \<open>userdel\<close> removes the named account's line or nothing.
\<close>

definition useradd_law :: "login_env \<Rightarrow> bool" where
  "useradd_law env \<longleftrightarrow> (\<forall>n t. tempLoginName n \<longrightarrow>
     (\<exists>ok t'. le_useradd env n (Some t) = (ok, Some t') \<and>
        (if ok then n \<notin> set (map acct_name (acct_lines t)) \<and>
                    (\<exists>l. acct_lines t' = acct_lines t @ [l] \<and> own_account l \<and> acct_name l = n)
         else acct_lines t' = acct_lines t)))"

definition userdel_law :: "login_env \<Rightarrow> bool" where
  "userdel_law env \<longleftrightarrow> (\<forall>n t. acct_lines (le_userdel env n t) = acct_lines t \<or>
     acct_lines (le_userdel env n t) = filter (\<lambda>l. acct_name l \<noteq> n) (acct_lines t))"

text \<open>A \<open>userdel\<close> that never fails.\<close>

definition userdel_works :: "login_env \<Rightarrow> bool" where
  "userdel_works env \<longleftrightarrow> (\<forall>n t. acct_lines (le_userdel env n t) = filter (\<lambda>l. acct_name l \<noteq> n) (acct_lines t))"

lemma userdel_works_law: "userdel_works env \<Longrightarrow> userdel_law env"
  by (simp add: userdel_law_def userdel_works_def)

lemma own_account_Nil [simp]: "\<not> own_account []"
  by (simp add: own_account_def passwd_fields_def)

lemma tempAccountsIn_lines: "tempAccountsIn t = map acct_name (filter own_account (acct_lines t))"
proof -
  have "filter own_account (Split t (CHR 0x0A)) = filter own_account (acct_lines t)"
    unfolding acct_lines_def filter_filter by (rule filter_cong) auto
  then show ?thesis by (simp add: tempAccountsIn_def acct_name_def)
qed

lemma tempAccountsIn_cong: "acct_lines t = acct_lines t' \<Longrightarrow> tempAccountsIn t = tempAccountsIn t'"
  by (simp add: tempAccountsIn_lines)

lemma tempAccountsIn_userdel:
  "acct_lines t' = filter (\<lambda>l. acct_name l \<noteq> n) (acct_lines t) \<Longrightarrow>
   tempAccountsIn t' = filter (\<lambda>m. m \<noteq> n) (tempAccountsIn t)"
  by (simp add: tempAccountsIn_lines filter_map o_def conj_commute)

lemma tempAccountsIn_names: "n \<in> set (tempAccountsIn t) \<Longrightarrow> tempLoginName n"
  by (auto simp: tempAccountsIn_lines own_account_def acct_name_def Let_def)

section \<open>What the operations leave alone\<close>

lemma configureSshd_frame [simp]:
  "lh_passwd (snd (configureSshd env us h)) = lh_passwd h"
  "lh_sudoers (snd (configureSshd env us h)) = lh_sudoers h"
  "lh_logins (snd (configureSshd env us h)) = lh_logins h"
  by (simp_all add: configureSshd_def reloadSshd_def run_cmd_def Let_def)

lemma saveTempLogins_frame [simp]:
  "lh_passwd (snd (saveTempLogins env ls h)) = lh_passwd h"
  "lh_sudoers (snd (saveTempLogins env ls h)) = lh_sudoers h"
  "lh_dropin (snd (saveTempLogins env ls h)) = lh_dropin h"
  by (simp_all add: saveTempLogins_def)

lemma writeTempSudoers_frame [simp]: "lh_passwd (snd (writeTempSudoers env n h)) = lh_passwd h"
  by (simp add: writeTempSudoers_def split: option.split)

lemma removeTempAccount_frame [simp]:
  "lh_logins (removeTempAccount env n h) = lh_logins h"
  "lh_dropin (removeTempAccount env n h) = lh_dropin h"
  by (simp_all add: removeTempAccount_def run_cmd_def Let_def split: option.split)

lemma remove_all_frame [simp]:
  "lh_logins (remove_all env ns h) = lh_logins h" "lh_dropin (remove_all env ns h) = lh_dropin h"
  by (induction ns arbitrary: h) (simp_all add: remove_all_def)

lemma deleteTempLoginLocked_passwd [simp]:
  "lh_passwd (deleteTempLoginLocked env n h) = lh_passwd (removeTempAccount env n h)"
  by (simp add: deleteTempLoginLocked_def Let_def)

text \<open>Removal touches the account file only for an account of the agent's own.\<close>

lemma removeTempAccount_passwd:
  "lh_passwd (removeTempAccount env n h) =
     (case lh_passwd h of None \<Rightarrow> None
      | Some t \<Rightarrow> Some (if n \<in> set (tempAccountsIn t) then le_userdel env n t else t))"
  by (auto simp: removeTempAccount_def run_cmd_def Let_def dest: tempAccountsIn_names split: option.split)

section \<open>Foreign accounts\<close>

text \<open>The invariant: the file is readable, names are unique, and the foreign account's line is there.\<close>

definition keeps_account :: "string \<Rightarrow> login_host \<Rightarrow> bool" where
  "keeps_account l h \<longleftrightarrow> (\<exists>t. lh_passwd h = Some t \<and> names_unique t \<and> l \<in> set (acct_lines t))"

lemma keeps_account_cong: "lh_passwd h' = lh_passwd h \<Longrightarrow> keeps_account l h' = keeps_account l h"
  by (simp add: keeps_account_def)

lemma foreign_not_named:
  "names_unique t \<Longrightarrow> l \<in> set (acct_lines t) \<Longrightarrow> \<not> own_account l \<Longrightarrow> acct_name l \<notin> set (tempAccountsIn t)"
  by (auto simp: names_unique_def tempAccountsIn_lines dest: distinct_map [THEN iffD1] inj_onD)

lemma names_unique_filter:
  "names_unique t \<Longrightarrow> acct_lines t' = filter P (acct_lines t) \<Longrightarrow> names_unique t'"
  by (simp add: names_unique_def distinct_map_filter)

lemma remove_keeps:
  assumes env: "userdel_law env" and l: "\<not> own_account l" and k: "keeps_account l h"
  shows "keeps_account l (removeTempAccount env n h)"
proof -
  obtain t where t: "lh_passwd h = Some t" "names_unique t" "l \<in> set (acct_lines t)"
    using k by (auto simp: keeps_account_def)
  show ?thesis
  proof (cases "n \<in> set (tempAccountsIn t)")
    case True
    have "acct_name l \<noteq> n" using foreign_not_named [OF t(2,3) l] True by auto
    moreover have "acct_lines (le_userdel env n t) = acct_lines t \<or>
        acct_lines (le_userdel env n t) = filter (\<lambda>l. acct_name l \<noteq> n) (acct_lines t)"
      using env unfolding userdel_law_def by metis
    ultimately have "names_unique (le_userdel env n t) \<and> l \<in> set (acct_lines (le_userdel env n t))"
      using t names_unique_filter [of t] by (auto simp: names_unique_def)
    then show ?thesis using True t by (simp add: keeps_account_def removeTempAccount_passwd)
  qed (use t in \<open>simp add: keeps_account_def removeTempAccount_passwd\<close>)
qed

lemma remove_all_keeps:
  "userdel_law env \<Longrightarrow> \<not> own_account l \<Longrightarrow> keeps_account l h \<Longrightarrow> keeps_account l (remove_all env ns h)"
  by (induction ns arbitrary: h) (simp_all add: remove_all_def remove_keeps)

lemma deleteLocked_keeps:
  "userdel_law env \<Longrightarrow> \<not> own_account l \<Longrightarrow> keeps_account l h \<Longrightarrow> keeps_account l (deleteTempLoginLocked env n h)"
  using remove_keeps keeps_account_cong [OF deleteTempLoginLocked_passwd] by blast

text \<open>The names a run keeps, and the orphans it finds after the expired ones are gone.\<close>

definition kept_users :: "time \<Rightarrow> login_host \<Rightarrow> string list" where
  "kept_users now h = tempLoginUsers (filter (\<lambda>l. \<not> expired now l) (loadTempLogins h))"

definition reap_removed :: "login_env \<Rightarrow> time \<Rightarrow> login_host \<Rightarrow> login_host" where
  "reap_removed env now h =
     (let h1 = remove_all env (tempLoginUsers (filter (expired now) (loadTempLogins h))) h
      in remove_all env (case lh_passwd h1 of None \<Rightarrow> []
                         | Some t \<Rightarrow> filter (\<lambda>n. n \<notin> set (kept_users now h)) (tempAccountsIn t)) h1)"

lemma reap_finish:
  "lh_passwd (if b then if c then snd (configureSshd env us h2) else h2
              else snd (configureSshd env vs (snd (saveTempLogins env k h2)))) = lh_passwd h2"
  "lh_sudoers (if b then if c then snd (configureSshd env us h2) else h2
               else snd (configureSshd env vs (snd (saveTempLogins env k h2)))) = lh_sudoers h2"
  by simp_all

lemma reap_frame:
  "lh_passwd (reapTempLogins env now h) = lh_passwd (reap_removed env now h)"
  "lh_sudoers (reapTempLogins env now h) = lh_sudoers (reap_removed env now h)"
  unfolding reapTempLogins_def reap_removed_def kept_users_def Let_def by (rule reap_finish)+

lemma reap_passwd: "\<exists>ns. lh_passwd (reapTempLogins env now h) = lh_passwd (remove_all env ns h)"
  unfolding reap_frame reap_removed_def Let_def remove_all_def by (metis comp_apply fold_append)

lemma reap_keeps:
  "userdel_law env \<Longrightarrow> \<not> own_account l \<Longrightarrow> keeps_account l h \<Longrightarrow> keeps_account l (reapTempLogins env now h)"
  using reap_passwd remove_all_keeps keeps_account_cong by metis

text \<open>
  Finishing a login changes the account file only when it fails, and then it only removes the account.
\<close>

lemma finish_login_passwd:
  "lh_passwd (snd (finish_login env now mins sudo n h)) =
     (if isl (fst (finish_login env now mins sudo n h)) then lh_passwd (removeTempAccount env n h) else lh_passwd h)"
proof -
  show ?thesis
    unfolding finish_login_def Let_def case_prod_beta
    by (cases "le_chpasswd env"; cases sudo; cases "le_save env")
      (simp_all add: saveTempLogins_def removeTempAccount_passwd split: sum.split)
qed

lemma finish_login_keeps:
  assumes "userdel_law env" "\<not> own_account l" "keeps_account l h"
  shows "keeps_account l (snd (finish_login env now mins sudo n h))"
proof -
  have "keeps_account l (removeTempAccount env n h)" using assms by (rule remove_keeps)
  with assms(3) show ?thesis by (simp add: keeps_account_def finish_login_passwd)
qed

lemma fresh_name:
  "find (\<lambda>n. \<not> le_taken env n) (map (\<lambda>r. ''beacle-'' @ r) (take 10 (le_hexes env))) = Some n \<Longrightarrow>
   list_all (\<lambda>r. length r = 6 \<and> list_all hex_char r) (le_hexes env) \<Longrightarrow> tempLoginName n"
  by (auto simp: find_Some_iff tempLoginName_def HasPrefix_def list_all_iff dest: in_set_takeD nth_mem)

text \<open>\<open>randomHex(3)\<close> draws six hexadecimal digits.\<close>

definition hexes_ok :: "login_env \<Rightarrow> bool" where
  "hexes_ok env \<longleftrightarrow> list_all (\<lambda>r. length r = 6 \<and> list_all hex_char r) (le_hexes env)"

lemma createTempLogin_cases:
  assumes "hexes_ok env" "useradd_law env" "lh_passwd h = Some t"
  obtains (early) e where "createTempLogin env now m sudo h = (Inl e, h)"
  | (refused) t' where "createTempLogin env now m sudo h = (Inl UseraddFailed, h\<lparr>lh_passwd := Some t'\<rparr>)"
      "acct_lines t' = acct_lines t"
  | (added) n t' l where "createTempLogin env now m sudo h = finish_login env now m sudo n (h\<lparr>lh_passwd := Some t'\<rparr>)"
      "n \<notin> set (map acct_name (acct_lines t))" "acct_lines t' = acct_lines t @ [l]" "own_account l" "acct_name l = n"
proof (cases "find (\<lambda>n. \<not> le_taken env n) (map (\<lambda>r. ''beacle-'' @ r) (take 10 (le_hexes env)))")
  case None
  then have "createTempLogin env now m sudo h =
      (Inl (if \<not> le_root env then NotRoot else if \<not> le_LookPath env ''useradd'' then NoUseradd else NoFreeName), h)"
    unfolding createTempLogin_def None by simp
  then show ?thesis by (rule early)
next
  case (Some n)
  have n: "tempLoginName n" using fresh_name [OF Some] assms(1) by (simp add: hexes_ok_def)
  obtain ok t' where u: "le_useradd env n (Some t) = (ok, Some t')"
    and law: "if ok then n \<notin> set (map acct_name (acct_lines t)) \<and>
                    (\<exists>l. acct_lines t' = acct_lines t @ [l] \<and> own_account l \<and> acct_name l = n)
              else acct_lines t' = acct_lines t"
    using assms(2) n unfolding useradd_law_def by blast
  have c: "createTempLogin env now m sudo h =
      (if \<not> le_root env then (Inl NotRoot, h) else if \<not> le_LookPath env ''useradd'' then (Inl NoUseradd, h)
       else if ok then finish_login env now m sudo n (h\<lparr>lh_passwd := Some t'\<rparr>)
       else (Inl UseraddFailed, h\<lparr>lh_passwd := Some t'\<rparr>))"
    unfolding createTempLogin_def Some assms(3) by (simp add: u)
  show ?thesis
  proof (cases "le_root env \<and> le_LookPath env ''useradd''")
    case True
    then show ?thesis using c law added refused by (cases ok) auto
  next
    case False
    then have "createTempLogin env now m sudo h = (Inl (if \<not> le_root env then NotRoot else NoUseradd), h)"
      using c by auto
    then show ?thesis by (rule early)
  qed
qed

lemma create_keeps:
  assumes env: "hexes_ok env" "useradd_law env" "userdel_law env" and l: "\<not> own_account l" and k: "keeps_account l h"
  shows "keeps_account l (snd (createTempLogin env now m sudo h))"
proof -
  obtain t where t: "lh_passwd h = Some t" "names_unique t" "l \<in> set (acct_lines t)"
    using k by (auto simp: keeps_account_def)
  from env(1,2) t(1) show ?thesis
  proof (cases rule: createTempLogin_cases [where now = now and m = m and sudo = sudo])
    case (added n t' x)
    have "keeps_account l (h\<lparr>lh_passwd := Some t'\<rparr>)"
      using added t by (auto simp: keeps_account_def names_unique_def)
    then show ?thesis using finish_login_keeps [OF env(3) l] added(1) by simp
  qed (use k t in \<open>auto simp: keeps_account_def names_unique_def\<close>)
qed

section \<open>Sequences of operations\<close>

datatype login_op = CreateLogin time int bool | DeleteLogin string | ReapLogins time

fun login_step :: "login_env \<Rightarrow> login_op \<Rightarrow> login_host \<Rightarrow> login_host" where
  "login_step env (CreateLogin now m sudo) h = snd (createTempLogin env now m sudo h)"
| "login_step env (DeleteLogin n) h = snd (deleteTempLogin env n h)"
| "login_step env (ReapLogins now) h = reapTempLogins env now h"

definition login_run :: "(login_env \<times> login_op) list \<Rightarrow> login_host \<Rightarrow> login_host" where
  "login_run ops h = fold (\<lambda>(env, op). login_step env op) ops h"

definition lawful :: "login_env \<Rightarrow> bool" where
  "lawful env \<longleftrightarrow> hexes_ok env \<and> useradd_law env \<and> userdel_law env"

lemma step_keeps: "lawful env \<Longrightarrow> \<not> own_account l \<Longrightarrow> keeps_account l h \<Longrightarrow> keeps_account l (login_step env op h)"
  by (cases op) (simp_all add: lawful_def create_keeps reap_keeps deleteTempLogin_def deleteLocked_keeps)

lemma run_keeps:
  "list_all (\<lambda>(env, op). lawful env) ops \<Longrightarrow> \<not> own_account l \<Longrightarrow> keeps_account l h \<Longrightarrow> keeps_account l (login_run ops h)"
  by (induction ops arbitrary: h) (auto simp: login_run_def step_keeps)

text \<open>A host whose \<open>useradd\<close> appends and whose \<open>userdel\<close> removes the named line.\<close>

definition sample_useradd :: "string \<Rightarrow> string option \<Rightarrow> bool \<times> string option" where
  "sample_useradd n p = (case p of None \<Rightarrow> (False, None)
     | Some t \<Rightarrow> if n \<in> set (map acct_name (acct_lines t)) then (False, Some t)
                 else (True, Some (Join (acct_lines t @ [n @ '':x:1001:1001:Beacle temporary login:/home/t:/bin/bash'']) [CHR 0x0A])))"

definition sample_userdel :: "string \<Rightarrow> string \<Rightarrow> string" where
  "sample_userdel n t = Join (filter (\<lambda>l. acct_name l \<noteq> n) (acct_lines t)) [CHR 0x0A]"

definition sample_env :: login_env where
  "sample_env = \<lparr> le_root = True, le_LookPath = (\<lambda>_. True), le_Stat = (\<lambda>_. True), le_hexes = [''0a1b2c''],
     le_taken = (\<lambda>_. False), le_password = ''pw'', le_useradd = sample_useradd, le_chpasswd = True,
     le_visudo = (\<lambda>_. None), le_WriteFile = (\<lambda>_. None), le_save = True, le_userdel = sample_userdel,
     le_MkdirAll = True, le_sshd_t = (\<lambda>_. True), le_sshd_T = (\<lambda>_. Some ''port 2222'') \<rparr>"

lemma acct_lines_Join:
  "\<forall>w \<in> set ws. CHR 0x0A \<notin> set w \<Longrightarrow> acct_lines (Join ws [CHR 0x0A]) = filter (\<lambda>l. l \<noteq> []) ws"
  by (cases "ws = []") (simp_all add: acct_lines_def Split_Join)

lemma acct_lines_plain: "w \<in> set (acct_lines t) \<Longrightarrow> w \<noteq> [] \<and> CHR 0x0A \<notin> set w"
  by (auto simp: acct_lines_def dest: split_by_pieces)

lemma sample_userdel_works: "acct_lines (sample_userdel n t) = filter (\<lambda>l. acct_name l \<noteq> n) (acct_lines t)"
  unfolding sample_userdel_def
  by (subst acct_lines_Join) (auto dest: acct_lines_plain intro!: filter_cong)

lemma tempLoginName_decomp: "tempLoginName n \<Longrightarrow> n = ''beacle-'' @ drop 7 n"
proof -
  assume n: "tempLoginName n"
  have l: "length ''beacle-'' = 7" by simp
  have "take 7 n = ''beacle-''" using n unfolding tempLoginName_def HasPrefix_def l by blast
  then show ?thesis using append_take_drop_id [of 7 n] by argo
qed

lemma hex_char_plain: "hex_char c \<Longrightarrow> c \<noteq> CHR '':'' \<and> c \<noteq> CHR 0x0A"
  by (auto simp: hex_char_def)

lemma tempLoginName_chars: "tempLoginName n \<Longrightarrow> c \<in> set n \<Longrightarrow> c \<noteq> CHR '':'' \<and> c \<noteq> CHR 0x0A"
proof -
  assume n: "tempLoginName n" and c: "c \<in> set n"
  have "set n = set ''beacle-'' \<union> set (drop 7 n)"
    using arg_cong [OF tempLoginName_decomp [OF n], of set] unfolding set_append .
  then have "c \<in> set ''beacle-'' \<or> hex_char c" using c n by (auto simp: tempLoginName_def list_all_iff)
  then show ?thesis using hex_char_plain by auto
qed

lemma sample_line:
  assumes "tempLoginName n"
  defines "l \<equiv> n @ '':x:1001:1001:Beacle temporary login:/home/t:/bin/bash''"
  shows "own_account l" "acct_name l = n" "l \<noteq> []" "CHR 0x0A \<notin> set l"
proof -
  obtain r where r: "n = ''beacle-'' @ r" using tempLoginName_decomp [OF assms(1)] by blast
  have hd: "\<not> is_space (hd n)" "n \<noteq> []" by (simp_all add: r is_space_def)
  then have "\<not> is_space (hd l) \<and> \<not> is_space (last l)" by (simp add: l_def is_space_def)
  then have "TrimSpace l = l" by (intro TrimSpace_id) auto
  moreover have "Split l (CHR '':'') = n # Split ''x:1001:1001:Beacle temporary login:/home/t:/bin/bash'' (CHR '':'')"
    unfolding l_def using split_by_append [of n "\<lambda>x. x = CHR '':''" "CHR '':''"] tempLoginName_chars [OF assms(1)] by simp
  ultimately have "passwd_fields l = [n, ''x'', ''1001'', ''1001'', ''Beacle temporary login'', ''/home/t'', ''/bin/bash'']"
    by (simp add: passwd_fields_def)
  then show "own_account l" "acct_name l = n" using assms(1) by (simp_all add: own_account_def acct_name_def)
  show "l \<noteq> []" "CHR 0x0A \<notin> set l" using tempLoginName_chars [OF assms(1)] by (auto simp: l_def)
qed

lemma sample_join:
  assumes "l \<noteq> []" "CHR 0x0A \<notin> set l"
  shows "acct_lines (Join (acct_lines t @ [l]) [CHR 0x0A]) = acct_lines t @ [l]"
proof -
  have "\<forall>w \<in> set (acct_lines t @ [l]). CHR 0x0A \<notin> set w" using assms(2) acct_lines_plain [of _ t] by auto
  moreover have "filter (\<lambda>l. l \<noteq> []) (acct_lines t) = acct_lines t" by (simp add: acct_lines_def)
  ultimately show ?thesis using assms(1) by (simp add: acct_lines_Join)
qed

lemma sample_lawful: "lawful sample_env"
proof -
  have "useradd_law sample_env"
    unfolding useradd_law_def
  proof (intro allI impI)
    fix n t assume n: "tempLoginName n"
    let ?l = "n @ '':x:1001:1001:Beacle temporary login:/home/t:/bin/bash''"
    have "acct_lines (Join (acct_lines t @ [?l]) [CHR 0x0A]) = acct_lines t @ [?l]"
      by (rule sample_join [OF sample_line(3,4) [OF n]])
    then show "\<exists>ok t'. le_useradd sample_env n (Some t) = (ok, Some t') \<and>
        (if ok then n \<notin> set (map acct_name (acct_lines t)) \<and>
                    (\<exists>l. acct_lines t' = acct_lines t @ [l] \<and> own_account l \<and> acct_name l = n)
         else acct_lines t' = acct_lines t)"
      using sample_line(1,2) [OF n] by (simp add: sample_env_def sample_useradd_def) blast
  qed
  moreover have "hexes_ok sample_env" by code_simp
  moreover have "userdel_law sample_env"
    unfolding userdel_law_def by (simp add: sample_env_def sample_userdel_works)
  ultimately show ?thesis by (simp add: lawful_def)
qed

section \<open>A creation that fails\<close>

abbreviation login_users :: "login_host \<Rightarrow> string set" where
  "login_users h \<equiv> set (tempLoginUsers (lh_logins h))"

lemma users_loaded: "set (tempLoginUsers (filter P (loadTempLogins h))) \<subseteq> login_users h"
  by (auto simp: tempLoginUsers_def loadTempLogins_def)

lemma users_saved:
  "login_users (snd (saveTempLogins env ls h)) = (if le_save env then set (tempLoginUsers ls) else login_users h)"
  by (simp add: saveTempLogins_def tempLoginUsers_def image_image)

lemma users_load: "tl_User ` set (loadTempLogins h) = login_users h"
  by (simp add: loadTempLogins_def tempLoginUsers_def image_image)

lemma users_without: "set (tempLoginUsers (filter (\<lambda>l. tl_User l \<noteq> n) (loadTempLogins h))) = login_users h - {n}"
  unfolding users_load [symmetric] by (auto simp: tempLoginUsers_def)

lemma deleteLocked_forgets:
  assumes "tempLoginName n"
  shows "set (lh_sudoers (deleteTempLoginLocked env n h)) = set (lh_sudoers h) - {n}"
    and "login_users (deleteTempLoginLocked env n h) = (if le_save env then login_users h - {n} else login_users h)"
proof -
  show "set (lh_sudoers (deleteTempLoginLocked env n h)) = set (lh_sudoers h) - {n}"
    using assms by (auto simp: deleteTempLoginLocked_def removeTempAccount_def run_cmd_def Let_def split: option.split)
  show "login_users (deleteTempLoginLocked env n h) = (if le_save env then login_users h - {n} else login_users h)"
    unfolding deleteTempLoginLocked_def Let_def configureSshd_frame users_saved users_without removeTempAccount_frame ..
qed

lemma finish_login_error:
  assumes "isl (fst (finish_login env now m sudo n h))"
  obtains h3 where "snd (finish_login env now m sudo n h) = deleteTempLoginLocked env n h3"
    "set (lh_sudoers h3) \<subseteq> insert n (set (lh_sudoers h))"
    "login_users h3 \<subseteq> (if le_save env then insert n (login_users h) else login_users h)"
proof -
  have w: "set (lh_sudoers (snd (writeTempSudoers env n h))) \<subseteq> insert n (set (lh_sudoers h))"
    "lh_logins (snd (writeTempSudoers env n h)) = lh_logins h"
    by (auto simp: writeTempSudoers_def split: option.split)
  have l: "tl_User x \<in> tl_User ` set (lh_logins h1)" if "x \<in> set (loadTempLogins h1)" for x h1
    using that by (auto simp: loadTempLogins_def)
  have "\<exists>h3. snd (finish_login env now m sudo n h) = deleteTempLoginLocked env n h3 \<and>
      set (lh_sudoers h3) \<subseteq> insert n (set (lh_sudoers h)) \<and>
      login_users h3 \<subseteq> (if le_save env then insert n (login_users h) else login_users h)"
    using assms w
    unfolding finish_login_def Let_def case_prod_beta
    by (cases "le_chpasswd env"; cases sudo; cases "le_save env")
      (auto simp: saveTempLogins_def tempLoginUsers_def image_image split: sum.splits intro!: exI dest!: l)
  then show ?thesis using that by blast
qed

section \<open>The reaper\<close>

lemma removeTempAccount_works:
  assumes "userdel_works env" "lh_passwd h = Some t"
  obtains t' where "lh_passwd (removeTempAccount env n h) = Some t'"
    "set (tempAccountsIn t') = set (tempAccountsIn t) - {n}"
proof (cases "n \<in> set (tempAccountsIn t)")
  case True
  have "tempAccountsIn (le_userdel env n t) = filter (\<lambda>m. m \<noteq> n) (tempAccountsIn t)"
    using assms(1) by (intro tempAccountsIn_userdel) (simp add: userdel_works_def)
  then show ?thesis using True assms(2) that by (simp add: removeTempAccount_passwd) blast
qed (use assms(2) that in \<open>simp add: removeTempAccount_passwd\<close>)

lemma remove_all_works:
  assumes "userdel_works env"
  shows "lh_passwd h = Some t \<Longrightarrow> \<exists>t'. lh_passwd (remove_all env ns h) = Some t' \<and>
    set (tempAccountsIn t') = set (tempAccountsIn t) - set ns"
proof (induction ns arbitrary: h t)
  case (Cons n ns)
  obtain t1 where t1: "lh_passwd (removeTempAccount env n h) = Some t1" "set (tempAccountsIn t1) = set (tempAccountsIn t) - {n}"
    using removeTempAccount_works [OF assms Cons.prems] .
  from Cons.IH [OF t1(1)] t1(2) show ?case by (auto simp: remove_all_def)
qed (simp add: remove_all_def)

lemma remove_all_sudoers:
  "set (lh_sudoers (remove_all env ns h)) = set (lh_sudoers h) - {n \<in> set ns. tempLoginName n}"
proof (induction ns arbitrary: h)
  case (Cons n ns)
  have "set (lh_sudoers (removeTempAccount env n h)) = set (lh_sudoers h) - {m \<in> {n}. tempLoginName m}"
    by (auto simp: removeTempAccount_def run_cmd_def Let_def split: option.split)
  with Cons [of "removeTempAccount env n h"] show ?case by (auto simp: remove_all_def)
qed (simp add: remove_all_def)

lemma reap_accounts:
  assumes "userdel_works env" "lh_passwd h = Some t"
  shows "\<exists>t'. lh_passwd (reapTempLogins env now h) = Some t' \<and> set (tempAccountsIn t') \<subseteq> set (kept_users now h)"
proof -
  let ?h1 = "remove_all env (tempLoginUsers (filter (expired now) (loadTempLogins h))) h"
  obtain t1 where t1: "lh_passwd ?h1 = Some t1" using remove_all_works [OF assms] by blast
  let ?os = "filter (\<lambda>n. n \<notin> set (kept_users now h)) (tempAccountsIn t1)"
  obtain t2 where t2: "lh_passwd (remove_all env ?os ?h1) = Some t2" "set (tempAccountsIn t2) = set (tempAccountsIn t1) - set ?os"
    using remove_all_works [OF assms(1) t1] by blast
  have "lh_passwd (reapTempLogins env now h) = lh_passwd (remove_all env ?os ?h1)"
    by (simp add: reap_frame reap_removed_def t1)
  with t2 show ?thesis by auto
qed

lemma filter_all_kept: "length (filter P xs) = length xs \<Longrightarrow> filter P xs = xs"
  by (metis filter_True length_filter_less less_irrefl)

lemma reap_records:
  assumes "le_save env" "l \<in> set (lh_logins (reapTempLogins env now h))"
  shows "\<not> expired now l"
proof -
  let ?keep = "filter (\<lambda>l. \<not> expired now l) (loadTempLogins h)"
  have e: "expired now (l\<lparr>tl_Password := p\<rparr>) = expired now l" for l p by (simp add: expired_def)
  have "lh_logins (reapTempLogins env now h) = map (\<lambda>l. l\<lparr>tl_Password := []\<rparr>) ?keep \<or>
      lh_logins (reapTempLogins env now h) = lh_logins h \<and> length ?keep = length (loadTempLogins h)"
    using assms(1) by (auto simp: reapTempLogins_def Let_def saveTempLogins_def)
  then show ?thesis
  proof
    assume a: "lh_logins (reapTempLogins env now h) = lh_logins h \<and> length ?keep = length (loadTempLogins h)"
    then have "\<forall>x \<in> set (loadTempLogins h). \<not> expired now x"
      using filter_all_kept [of "\<lambda>l. \<not> expired now l" "loadTempLogins h"] by (metis filter_id_conv)
    then show ?thesis using a assms(2) e by (auto simp: loadTempLogins_def)
  qed (use assms(2) e in auto)
qed

lemma reap_dropin:
  "kept_users now h = [] \<Longrightarrow> lh_dropin (reapTempLogins env now h) = None"
  by (simp add: reapTempLogins_def Let_def kept_users_def tempLoginUsers_def configureSshd_def reloadSshd_def run_cmd_def)

lemma reap_sudoers:
  assumes "l \<in> set (lh_logins h)" "expired now l" "tempLoginName (tl_User l)"
  shows "tl_User l \<notin> set (lh_sudoers (reapTempLogins env now h))"
proof -
  have "l\<lparr>tl_Password := []\<rparr> \<in> set (filter (expired now) (loadTempLogins h))"
    using assms by (simp add: loadTempLogins_def expired_def)
  then have "tl_User l \<in> set (tempLoginUsers (filter (expired now) (loadTempLogins h)))"
    unfolding tempLoginUsers_def set_map by (rule image_eqI [rotated]) simp
  then show ?thesis using assms(3) by (simp add: reap_frame reap_removed_def Let_def remove_all_sudoers)
qed

section \<open>The properties\<close>

text \<open>
  C1. An account the agent did not create is never touched: whatever logins are created, deleted and
  reaped, in any order and with whatever failures, a line of the account file that is not marked as
  the agent's is still there at the end, even one whose name looks like a temporary login's.
\<close>

theorem foreign_accounts_survive:
  assumes "list_all (\<lambda>(env, op). lawful env) ops"
    and "lh_passwd h = Some t" "names_unique t" "l \<in> set (acct_lines t)" "\<not> own_account l"
  shows "\<exists>t'. lh_passwd (login_run ops h) = Some t' \<and> l \<in> set (acct_lines t')"
  using run_keeps [OF assms(1,5), of h] assms(2-4) by (auto simp: keeps_account_def)

definition sample_host :: login_host where
  "sample_host = \<lparr> lh_passwd = Some (''root:x:0:0:root:/root:/bin/bash'' @ [CHR 0x0A]
       @ ''beacle-123456:x:1000:1000:Somebody:/home/s:/bin/sh'' @ [CHR 0x0A]),
     lh_sudoers = [], lh_logins = [], lh_dropin = None, lh_cmds = [] \<rparr>"

theorem foreign_accounts_survive_witness:
  "\<exists>t'. lh_passwd (login_run [(sample_env, CreateLogin 0 60 True), (sample_env, DeleteLogin ''beacle-123456''),
       (sample_env, ReapLogins (90 * minute))] sample_host) = Some t' \<and>
     ''beacle-123456:x:1000:1000:Somebody:/home/s:/bin/sh'' \<in> set (acct_lines t')"
proof (rule foreign_accounts_survive)
  show "list_all (\<lambda>(env, op). lawful env) [(sample_env, CreateLogin 0 60 True),
      (sample_env, DeleteLogin ''beacle-123456''), (sample_env, ReapLogins (90 * minute))]"
    by (simp add: sample_lawful)
  show "lh_passwd sample_host = Some (the (lh_passwd sample_host))" by (simp add: sample_host_def)
  show "names_unique (the (lh_passwd sample_host))" by code_simp
  show "''beacle-123456:x:1000:1000:Somebody:/home/s:/bin/sh'' \<in> set (acct_lines (the (lh_passwd sample_host)))"
    by code_simp
  show "\<not> own_account ''beacle-123456:x:1000:1000:Somebody:/home/s:/bin/sh''" by code_simp
qed

text \<open>
  C2. A creation that fails leaves nothing behind: on a host whose \<open>userdel\<close> works, an error at any
  step (the password, the state file, sshd refusing the configuration) leaves the account file with
  the lines it had, no rule for sudo that was not there, and no record of a login.
\<close>

theorem failed_creation_leaves_nothing:
  assumes env: "hexes_ok env" "useradd_law env" "userdel_works env"
    and t: "lh_passwd h = Some t" and e: "createTempLogin env now m sudo h = (Inl e, h')"
  shows "(\<exists>t'. lh_passwd h' = Some t' \<and> acct_lines t' = acct_lines t) \<and>
    set (lh_sudoers h') \<subseteq> set (lh_sudoers h) \<and>
    set (tempLoginUsers (lh_logins h')) \<subseteq> set (tempLoginUsers (lh_logins h))"
  using env(1,2) t
proof (cases rule: createTempLogin_cases [where now = now and m = m and sudo = sudo])
  case (added n t' l)
  have isl: "isl (fst (finish_login env now m sudo n (h\<lparr>lh_passwd := Some t'\<rparr>)))"
    and h': "h' = snd (finish_login env now m sudo n (h\<lparr>lh_passwd := Some t'\<rparr>))"
    using e added(1) by simp_all
  have n: "n \<in> set (tempAccountsIn t')" using added by (simp add: tempAccountsIn_lines)
  obtain h3 where "snd (finish_login env now m sudo n (h\<lparr>lh_passwd := Some t'\<rparr>)) = deleteTempLoginLocked env n h3"
      "set (lh_sudoers h3) \<subseteq> insert n (set (lh_sudoers (h\<lparr>lh_passwd := Some t'\<rparr>)))"
      "login_users h3 \<subseteq> (if le_save env then insert n (login_users (h\<lparr>lh_passwd := Some t'\<rparr>))
                     else login_users (h\<lparr>lh_passwd := Some t'\<rparr>))"
    by (rule finish_login_error [OF isl])
  then have h3: "h' = deleteTempLoginLocked env n h3"
      "set (lh_sudoers h3) \<subseteq> insert n (set (lh_sudoers h))"
      "login_users h3 \<subseteq> (if le_save env then insert n (login_users h) else login_users h)"
    by (simp_all add: h' split: if_splits)
  have "acct_lines (le_userdel env n t') = filter (\<lambda>l. acct_name l \<noteq> n) (acct_lines t @ [l])"
    using env(3) added(3) by (simp add: userdel_works_def)
  also have "\<dots> = filter (\<lambda>l. acct_name l \<noteq> n) (acct_lines t)" using added(5) by simp
  also have "\<dots> = acct_lines t" by (rule filter_True) (use added(2) in force)
  finally have "\<exists>t'. lh_passwd h' = Some t' \<and> acct_lines t' = acct_lines t"
    using n isl h' by (simp add: finish_login_passwd removeTempAccount_passwd)
  moreover note deleteLocked_forgets [OF tempAccountsIn_names [OF n], of env h3]
  ultimately show ?thesis using h3 by (auto split: if_splits)
qed (use t e in auto)

theorem failed_creation_leaves_nothing_witness:
  "\<exists>e h'. createTempLogin (sample_env\<lparr>le_sshd_t := (\<lambda>_. False)\<rparr>) 0 60 True sample_host = (Inl e, h') \<and>
     (\<exists>t'. lh_passwd h' = Some t' \<and> acct_lines t' = acct_lines (the (lh_passwd sample_host))) \<and>
     set (lh_sudoers h') \<subseteq> set (lh_sudoers sample_host) \<and>
     set (tempLoginUsers (lh_logins h')) \<subseteq> set (tempLoginUsers (lh_logins sample_host))"
proof -
  let ?env = "sample_env\<lparr>le_sshd_t := (\<lambda>_. False)\<rparr>"
  have laws: "hexes_ok ?env" "useradd_law ?env" "userdel_works ?env"
    using sample_lawful by (simp_all add: lawful_def hexes_ok_def useradd_law_def userdel_works_def)
      (simp add: sample_env_def sample_userdel_works)
  have "isl (fst (createTempLogin ?env 0 60 True sample_host))" by code_simp
  then obtain e h' where c: "createTempLogin ?env 0 60 True sample_host = (Inl e, h')"
    by (metis isl_def prod.collapse)
  show ?thesis
    using failed_creation_leaves_nothing [OF laws _ c, of "the (lh_passwd sample_host)"] c
    by (auto simp: sample_host_def)
qed

text \<open>
  C3. The time limit is kept: on a host whose \<open>userdel\<close> works and whose state file can be written, after
  a run of the reaper every account of the agent's belongs to a login whose time has not run out,
  every record left is of such a login, the sudo rule of each expired one is gone, and with no login
  left the password rule of sshd is gone too. This covers accounts whose record was lost.
\<close>

theorem reaper_enforces_the_time_limit:
  assumes "userdel_works env" "le_save env" "lh_passwd h = Some t"
  shows "(\<exists>t'. lh_passwd (reapTempLogins env now h) = Some t' \<and>
       (\<forall>n \<in> set (tempAccountsIn t'). \<exists>l \<in> set (lh_logins h). tl_User l = n \<and> now \<le> tl_ExpiresAt l)) \<and>
    (\<forall>l \<in> set (lh_logins (reapTempLogins env now h)). now \<le> tl_ExpiresAt l) \<and>
    (\<forall>l \<in> set (lh_logins h). tl_ExpiresAt l < now \<and> tempLoginName (tl_User l) \<longrightarrow>
       tl_User l \<notin> set (lh_sudoers (reapTempLogins env now h))) \<and>
    ((\<forall>l \<in> set (lh_logins h). tl_ExpiresAt l < now) \<longrightarrow> lh_dropin (reapTempLogins env now h) = None)"
proof (intro conjI)
  obtain t' where t': "lh_passwd (reapTempLogins env now h) = Some t'" "set (tempAccountsIn t') \<subseteq> set (kept_users now h)"
    using reap_accounts [OF assms(1,3)] by blast
  have "\<exists>l \<in> set (lh_logins h). tl_User l = n \<and> now \<le> tl_ExpiresAt l" if "n \<in> set (kept_users now h)" for n
    using that by (auto simp: kept_users_def tempLoginUsers_def loadTempLogins_def expired_def)
  with t' show "\<exists>t'. lh_passwd (reapTempLogins env now h) = Some t' \<and>
       (\<forall>n \<in> set (tempAccountsIn t'). \<exists>l \<in> set (lh_logins h). tl_User l = n \<and> now \<le> tl_ExpiresAt l)" by blast
  show "\<forall>l \<in> set (lh_logins (reapTempLogins env now h)). now \<le> tl_ExpiresAt l"
    using reap_records [OF assms(2)] by (auto simp: expired_def not_less)
  show "\<forall>l \<in> set (lh_logins h). tl_ExpiresAt l < now \<and> tempLoginName (tl_User l) \<longrightarrow>
       tl_User l \<notin> set (lh_sudoers (reapTempLogins env now h))"
    using reap_sudoers by (auto simp: expired_def)
  show "(\<forall>l \<in> set (lh_logins h). tl_ExpiresAt l < now) \<longrightarrow> lh_dropin (reapTempLogins env now h) = None"
  proof
    assume "\<forall>l \<in> set (lh_logins h). tl_ExpiresAt l < now"
    then have "kept_users now h = []"
      by (auto simp: kept_users_def tempLoginUsers_def loadTempLogins_def expired_def filter_empty_conv)
    then show "lh_dropin (reapTempLogins env now h) = None" by (rule reap_dropin)
  qed
qed

theorem reaper_enforces_the_time_limit_witness:
  "lh_dropin (snd (createTempLogin sample_env 0 60 True sample_host)) \<noteq> None \<and>
   lh_dropin (reapTempLogins sample_env (90 * minute) (snd (createTempLogin sample_env 0 60 True sample_host))) = None"
proof -
  let ?h = "snd (createTempLogin sample_env 0 60 True sample_host)"
  have env: "userdel_works sample_env" "le_save sample_env"
    by (simp_all add: userdel_works_def sample_env_def sample_userdel_works)
  have p: "lh_passwd ?h = Some (the (lh_passwd ?h))" by code_simp
  have "list_all (\<lambda>l. tl_ExpiresAt l < 90 * minute) (lh_logins ?h)" by code_simp
  then have "\<forall>l \<in> set (lh_logins ?h). tl_ExpiresAt l < 90 * minute" by (simp only: list_all_iff)
  moreover have "lh_dropin ?h \<noteq> None" by code_simp
  ultimately show ?thesis using reaper_enforces_the_time_limit [OF env p, of "90 * minute"] by blast
qed

text \<open>
  C4. A login's time is bounded whatever was asked for: it runs at least five minutes (less the
  fraction of a second cut off) and at most a day, and the answer carries the password while the
  state file never does.
\<close>

theorem login_time_is_bounded:
  assumes "createTempLogin env now m sudo h = (Inr l, h')"
  shows "now + 5 * minute - second < tl_ExpiresAt l \<and> tl_ExpiresAt l \<le> now + 24 * hour \<and>
    tl_Password l = le_password env \<and> (\<forall>x \<in> set (lh_logins h'). tl_Password x = [])"
proof -
  obtain n p where f: "finish_login env now m sudo n (h\<lparr>lh_passwd := p\<rparr>) = (Inr l, h')"
    using assms unfolding createTempLogin_def by (auto split: if_splits option.splits prod.splits)
  have "tl_ExpiresAt l = login_expiry now m \<and> tl_Password l = le_password env \<and>
      (\<forall>x \<in> set (lh_logins h'). tl_Password x = [])"
    using f unfolding finish_login_def
    by (auto simp: Let_def case_prod_beta saveTempLogins_def split: if_splits sum.splits)
  moreover have "now + 5 * minute - second < login_expiry now m" "login_expiry now m \<le> now + 24 * hour"
    by (auto simp: login_expiry_def login_minutes_def Let_def max_def min_def)
  ultimately show ?thesis by simp
qed

theorem login_time_is_bounded_witness:
  "tl_ExpiresAt (projr (fst (createTempLogin sample_env 7 100000 True sample_host))) \<le> 7 + 24 * hour"
proof -
  have "isl (fst (createTempLogin sample_env 7 100000 True sample_host)) = False" by code_simp
  then have "createTempLogin sample_env 7 100000 True sample_host =
      (Inr (projr (fst (createTempLogin sample_env 7 100000 True sample_host))),
       snd (createTempLogin sample_env 7 100000 True sample_host))"
    by (metis prod.collapse sum.collapse(2))
  from login_time_is_bounded [OF this] show ?thesis by blast
qed

end
