(* ===== verification/WireGuard_Service.thy ===== *)
theory WireGuard_Service
  imports WireGuard_Keys
begin

text \<open>
  The panel's end of the built-in tunnel (\<^verbatim>\<open>src/backend/wireguard.go\<close>), the requests that drive it
  (\<^verbatim>\<open>src/backend/wireguard_api.go\<close>), the checks on a server's address (\<^verbatim>\<open>src/backend/probe.go\<close>) and the
  texts handed to the WireGuard device (\<^verbatim>\<open>src/shared/wgnet/wgnet.go\<close>).

  The device is not part of the program: the state keeps the configuration calls it accepted, in
  order (\<open>ws_tun\<close>, \<open>None\<close> while the tunnel is down), and the record \<open>wg_net\<close> says how the device, the
  resolver, \<open>netip\<close> and X25519 answer. The random bytes a key is made of are arguments.
\<close>

section \<open>State\<close>

record wg_peer =
  tp_PublicKey :: wg_key
  tp_PresharedKey :: wg_key
  tp_Endpoint :: string
  tp_AllowedIP :: ip_addr
  tp_Keepalive :: nat

datatype wg_call = SetPeerCall wg_peer | RemovePeerCall wg_key

record wg_service =
  ws_store :: store
  ws_priv :: wg_key
  ws_pub :: wg_key
  ws_tun :: "wg_call list option"
  ws_err :: string
  ws_serving :: bool

record wg_net =
  wn_PublicKey :: "wg_key \<Rightarrow> wg_key option"
  wn_Up :: "string option"
  wn_Listen :: "string option"
  wn_IpcSet :: "string \<Rightarrow> string option"
  wn_ParseAddr :: "string \<Rightarrow> ip_addr option"
  wn_ParseAddrPort :: "string \<Rightarrow> (ip_addr \<times> nat) option"
  wn_String :: "ip_addr \<Rightarrow> string"
  wn_host :: "string \<Rightarrow> string option"
  wn_Lookup :: "string \<Rightarrow> ip_addr list option"
  wn_own :: "ip_addr option"

abbreviation wg_default_port :: nat where "wg_default_port \<equiv> 51931"
abbreviation WGBackendTunnelIP :: string where "WGBackendTunnelIP \<equiv> ''10.87.0.1''"
abbreviation WGKeepaliveSec :: nat where "WGKeepaliveSec \<equiv> 25"

datatype wg_failure =
    VPSNotFound | SubnetExhausted | NoKeys | TunnelDown string | BadPublicKey | BadTunnelIP | IpcRefused string

section \<open>The device\<close>

abbreviation line :: "string \<Rightarrow> string" where "line s \<equiv> s @ [CHR 0x0A]"

definition SetPeer_text :: "wg_net \<Rightarrow> wg_peer \<Rightarrow> string" where
  "SetPeer_text net p =
     line (''public_key='' @ WGKey_Hex (tp_PublicKey p)) @
     (if WGKey_IsZero (tp_PresharedKey p) then [] else line (''preshared_key='' @ WGKey_Hex (tp_PresharedKey p))) @
     (if tp_Endpoint p = [] then [] else line (''endpoint='' @ tp_Endpoint p)) @
     line (''persistent_keepalive_interval='' @ Itoa (tp_Keepalive p)) @
     line ''replace_allowed_ips=true'' @
     line (''allowed_ip='' @ wn_String net (tp_AllowedIP p) @ ''/32'')"

definition RemovePeer_text :: "wg_key \<Rightarrow> string" where
  "RemovePeer_text k = line (''public_key='' @ WGKey_Hex k) @ line ''remove=true''"

definition device_call :: "wg_net \<Rightarrow> wg_call \<Rightarrow> string" where
  "device_call net c = (case c of SetPeerCall p \<Rightarrow> SetPeer_text net p | RemovePeerCall k \<Rightarrow> RemovePeer_text k)"

definition ipc :: "wg_net \<Rightarrow> wg_call \<Rightarrow> wg_service \<Rightarrow> string option \<times> wg_service" where
  "ipc net c w =
     (case ws_tun w of
        None \<Rightarrow> (None, w)
      | Some calls \<Rightarrow>
          (case wn_IpcSet net (device_call net c) of
             Some e \<Rightarrow> (Some e, w)
           | None \<Rightarrow> (None, w\<lparr>ws_tun := Some (calls @ [c])\<rparr>)))"

section \<open>Peers\<close>

definition zero_key :: wg_key where "zero_key = replicate 32 0"

definition setPeerLocked :: "wg_net \<Rightarrow> vps_entry \<Rightarrow> wg_service \<Rightarrow> wg_failure option \<times> wg_service" where
  "setPeerLocked net e w =
     (case ParseWGKey (vps_WGPublicKey (en_VPS e)) of
        Inl _ \<Rightarrow> (Some BadPublicKey, w)
      | Inr pub \<Rightarrow>
          (let psk = (case ParseWGKey (en_WGPresharedKey e) of Inl _ \<Rightarrow> zero_key | Inr k \<Rightarrow> k)
           in case wn_ParseAddr net (vps_WGTunnelIP (en_VPS e)) of
                None \<Rightarrow> (Some BadTunnelIP, w)
              | Some tip \<Rightarrow>
                  (let (err, w') = ipc net (SetPeerCall \<lparr> tp_PublicKey = pub, tp_PresharedKey = psk,
                         tp_Endpoint = vps_WGEndpoint (en_VPS e), tp_AllowedIP = tip, tp_Keepalive = WGKeepaliveSec \<rparr>) w
                   in (map_option IpcRefused err, w'))))"

text \<open>Bringing the tunnel up installs every server that holds tunnel keys; a peer that fails is logged.\<close>

definition install_peers :: "wg_net \<Rightarrow> vps_entry list \<Rightarrow> wg_service \<Rightarrow> wg_service" where
  "install_peers net es w = fold (\<lambda>e w. if HasWireGuardPeer e then snd (setPeerLocked net e w) else w) es w"

definition ensureUpLocked :: "wg_net \<Rightarrow> wg_service \<Rightarrow> wg_failure option \<times> wg_service" where
  "ensureUpLocked net w =
     (if ws_tun w \<noteq> None then (None, w)
      else case wn_Up net of
             Some e \<Rightarrow> (Some (TunnelDown e), w\<lparr>ws_err := e\<rparr>)
           | None \<Rightarrow>
               (case wn_Listen net of
                  Some e \<Rightarrow> (Some (TunnelDown (''listen in tunnel: '' @ e)), w\<lparr>ws_err := e\<rparr>)
                | None \<Rightarrow> (None, install_peers net (ListEntries (ws_store w)) (w\<lparr>ws_tun := Some [], ws_err := []\<rparr>))))"

definition wg_Start :: "wg_net \<Rightarrow> wg_service \<Rightarrow> wg_service" where
  "wg_Start net w =
     (let w1 = w\<lparr>ws_serving := True\<rparr>
      in if list_ex HasWireGuardPeer (ListEntries (ws_store w1)) then snd (ensureUpLocked net w1) else w1)"

definition SyncPeer :: "wg_net \<Rightarrow> vps_entry \<Rightarrow> wg_service \<Rightarrow> wg_failure option \<times> wg_service" where
  "SyncPeer net e w =
     (if \<not> HasWireGuardPeer e then (None, w)
      else case ensureUpLocked net w of
             (Some err, w') \<Rightarrow> (Some err, w')
           | (None, w') \<Rightarrow> setPeerLocked net e w')"

definition wg_RemovePeer :: "wg_net \<Rightarrow> string \<Rightarrow> wg_service \<Rightarrow> wg_service" where
  "wg_RemovePeer net publicKey w =
     (case ParseWGKey publicKey of
        Inl _ \<Rightarrow> w
      | Inr pub \<Rightarrow> if ws_tun w \<noteq> None then snd (ipc net (RemovePeerCall pub) w) else w)"

definition wg_Close :: "wg_service \<Rightarrow> wg_service" where
  "wg_Close w = w\<lparr>ws_tun := None\<rparr>"

section \<open>Tunnel addresses\<close>

definition ipv4_String :: "32 word \<Rightarrow> string" where
  "ipv4_String a = Join (map (\<lambda>i. Itoa (unat (drop_bit i a AND 0xFF))) [24, 16, 8, 0]) ''.''"

definition WGTunnelPrefix :: "32 word" where "WGTunnelPrefix = 0x0A570000"

definition in_tunnel :: "32 word \<Rightarrow> bool" where
  "in_tunnel a \<longleftrightarrow> in4 WGTunnelPrefix 16 a"

definition host_octet_ok :: "32 word \<Rightarrow> bool" where
  "host_octet_ok a \<longleftrightarrow> \<not> (a AND 0xFF = 0 \<or> a AND 0xFF = 255)"

lemma in_tunnel_div: "in_tunnel a \<longleftrightarrow> unat a div 65536 = 2647"
proof -
  have "in_tunnel a \<longleftrightarrow> unat (drop_bit 16 a) = unat (drop_bit 16 WGTunnelPrefix)"
    by (simp add: in_tunnel_def in4_def word_unat_eq_iff)
  then show ?thesis by (simp add: drop_bit_eq_div WGTunnelPrefix_def unat_div)
qed

lemma in_tunnel_range: "in_tunnel a \<longleftrightarrow> 173473792 \<le> unat a \<and> unat a < 173539328"
  unfolding in_tunnel_div by linarith

text \<open>The search walks \<open>ip.Next()\<close> until the address leaves the prefix.\<close>

function alloc_from :: "string list \<Rightarrow> 32 word \<Rightarrow> string option" where
  "alloc_from used ip =
     (if \<not> in_tunnel ip then None
      else if \<not> host_octet_ok ip then alloc_from used (ip + 1)
      else if ipv4_String ip \<notin> set used then Some (ipv4_String ip)
      else alloc_from used (ip + 1))"
  by pat_completeness auto
termination
proof (relation "measure (\<lambda>(used, ip). 173539328 - unat ip)")
  have "173539328 - unat (ip + 1) < 173539328 - unat ip" if "\<not> \<not> in_tunnel ip" for ip :: "32 word"
  proof -
    have "unat ip < 173539328" using that by (simp add: in_tunnel_range)
    moreover from this have "unat (ip + 1) = unat ip + 1"
      by (simp add: unat_word_ariths)
    ultimately show ?thesis by simp
  qed
  then show "\<And>used ip. \<not> \<not> in_tunnel ip \<Longrightarrow> \<not> host_octet_ok ip \<Longrightarrow>
      ((used, ip + 1), (used, ip)) \<in> measure (\<lambda>(used, ip). 173539328 - unat ip)"
    and "\<And>used ip. \<not> \<not> in_tunnel ip \<Longrightarrow> \<not> \<not> host_octet_ok ip \<Longrightarrow> \<not> ipv4_String ip \<notin> set used \<Longrightarrow>
      ((used, ip + 1), (used, ip)) \<in> measure (\<lambda>(used, ip). 173539328 - unat ip)"
    by simp_all
qed simp

declare alloc_from.simps [simp del]

definition used_ips :: "store \<Rightarrow> string list" where
  "used_ips s = WGBackendTunnelIP # filter (\<lambda>ip. ip \<noteq> []) (map (\<lambda>e. vps_WGTunnelIP (en_VPS e)) (ListEntries s))"

definition allocateTunnelIP :: "store \<Rightarrow> wg_failure + string" where
  "allocateTunnelIP s =
     (case alloc_from (used_ips s) (WGTunnelPrefix + 1 + 1) of
        Some ip \<Rightarrow> Inr ip
      | None \<Rightarrow> Inl SubnetExhausted)"

section \<open>Issuing and withdrawing keys\<close>

definition newAgentKeys :: "wg_net \<Rightarrow> wg_key option \<times> wg_key option \<Rightarrow> (wg_key \<times> wg_key \<times> wg_key) option" where
  "newAgentKeys net r =
     (case GenerateWGPrivateKey (fst r) of
        None \<Rightarrow> None
      | Some priv \<Rightarrow>
          (case wn_PublicKey net priv of
             None \<Rightarrow> None
           | Some pub \<Rightarrow>
               (case GenerateWGPresharedKey (snd r) of
                  None \<Rightarrow> None
                | Some psk \<Rightarrow> Some (priv, pub, psk))))"

definition CreateServer ::
  "wg_net \<Rightarrow> wg_key option \<times> wg_key option \<Rightarrow> time \<Rightarrow> string \<Rightarrow> string \<Rightarrow> wg_service \<Rightarrow> (wg_failure + vps_entry) \<times> wg_service" where
  "CreateServer net r now name endpoint w =
     (case allocateTunnelIP (ws_store w) of
        Inl e \<Rightarrow> (Inl e, w)
      | Inr tip \<Rightarrow>
          (case newAgentKeys net r of
             None \<Rightarrow> (Inl NoKeys, w)
           | Some (priv, pub, psk) \<Rightarrow>
               (let (entry, s) = CreateWireGuardVPS (wn_host net) now name endpoint tip (WGKey_String pub)
                                   (WGKey_String priv) (WGKey_String psk) (ws_store w)
                in (Inr entry, snd (SyncPeer net entry (w\<lparr>ws_store := s\<rparr>))))))"

definition rekey_entry :: "string \<Rightarrow> string \<Rightarrow> wg_key \<times> wg_key \<times> wg_key \<Rightarrow> vps_entry \<Rightarrow> vps_entry" where
  "rekey_entry tip endpoint ks e = (case ks of (priv, pub, psk) \<Rightarrow>
     e\<lparr>en_VPS := (en_VPS e)\<lparr>vps_WGTunnelIP := tip, vps_WGPublicKey := WGKey_String pub,
         vps_WGEndpoint := (if endpoint \<noteq> [] then endpoint else vps_WGEndpoint (en_VPS e))\<rparr>,
       en_WGPresharedKey := WGKey_String psk, en_WGAgentKey := WGKey_String priv\<rparr>)"

definition Rekey ::
  "wg_net \<Rightarrow> wg_key option \<times> wg_key option \<Rightarrow> string \<Rightarrow> string \<Rightarrow> wg_service \<Rightarrow> (wg_failure + vps_entry) \<times> wg_service" where
  "Rekey net r i endpoint w =
     (case GetVPS i (ws_store w) of
        None \<Rightarrow> (Inl VPSNotFound, w)
      | Some cur \<Rightarrow>
          (case (if vps_WGTunnelIP (en_VPS cur) = [] then allocateTunnelIP (ws_store w) else Inr (vps_WGTunnelIP (en_VPS cur))) of
             Inl e \<Rightarrow> (Inl e, w)
           | Inr tip \<Rightarrow>
               (case newAgentKeys net r of
                  None \<Rightarrow> (Inl NoKeys, w)
                | Some ks \<Rightarrow>
                    (let oldPub = vps_WGPublicKey (en_VPS cur);
                         (upd, s) = UpdateVPSNow i (rekey_entry tip endpoint ks) (ws_store w)
                     in case upd of
                          None \<Rightarrow> (Inl VPSNotFound, w\<lparr>ws_store := s\<rparr>)
                        | Some entry \<Rightarrow>
                            (let w1 = w\<lparr>ws_store := s\<rparr>;
                                 w2 = (if oldPub \<noteq> [] then wg_RemovePeer net oldPub w1 else w1)
                             in case SyncPeer net entry w2 of
                                  (Some e, w3) \<Rightarrow> (Inl e, w3)
                                | (None, w3) \<Rightarrow> (Inr entry, w3))))))"

definition forget_entry :: "vps_entry \<Rightarrow> vps_entry" where
  "forget_entry e = e\<lparr>en_VPS := (en_VPS e)\<lparr>vps_WGPublicKey := [], vps_WGTunnelIP := [], vps_WGEndpoint := [],
       vps_Transport := (if IsWireGuard (en_VPS e) then TransportTailscale else vps_Transport (en_VPS e))\<rparr>,
     en_WGPresharedKey := [], en_WGAgentKey := []\<rparr>"

definition wg_Forget :: "wg_net \<Rightarrow> string \<Rightarrow> wg_service \<Rightarrow> vps_entry option \<times> wg_service" where
  "wg_Forget net i w =
     (case GetVPS i (ws_store w) of
        None \<Rightarrow> (None, w)
      | Some cur \<Rightarrow>
          (let w1 = wg_RemovePeer net (vps_WGPublicKey (en_VPS cur)) w;
               (upd, s) = UpdateVPSNow i forget_entry (ws_store w1)
           in (upd, w1\<lparr>ws_store := s\<rparr>)))"

text \<open>Deleting a server (\<^verbatim>\<open>handleVPSByID\<close>): the registry first, then its key.\<close>

definition delete_server :: "wg_net \<Rightarrow> string \<Rightarrow> wg_service \<Rightarrow> bool \<times> wg_service" where
  "delete_server net i w =
     (case GetVPS i (ws_store w) of
        None \<Rightarrow> (False, w)
      | Some cur \<Rightarrow> (True, wg_RemovePeer net (vps_WGPublicKey (en_VPS cur)) (w\<lparr>ws_store := snd (DeleteVPS i (ws_store w))\<rparr>)))"

definition JoinFor :: "wg_net \<Rightarrow> wg_service \<Rightarrow> vps_entry \<Rightarrow> join_error option + wg_join" where
  "JoinFor net w e =
     (if en_WGAgentKey e = [] then Inl None
      else
        let port = (case wn_ParseAddrPort net (vps_WGEndpoint (en_VPS e)) of Some (_, p) \<Rightarrow> p | None \<Rightarrow> wg_default_port);
            j = \<lparr> wj_PrivateKey = en_WGAgentKey e, wj_PeerPublicKey = WGKey_String (ws_pub w),
                  wj_PresharedKey = en_WGPresharedKey e, wj_Address = vps_WGTunnelIP (en_VPS e),
                  wj_PeerAddress = WGBackendTunnelIP, wj_ListenPort = int port, wj_VPSID = vps_ID (en_VPS e) \<rparr>
        in case WGJoin_Validate (wn_ParseAddr net) j of Some err \<Rightarrow> Inl (Some err) | None \<Rightarrow> Inr j)"

section \<open>A socket inside the tunnel\<close>

datatype ws_answer = BadPeer | UnknownPeer | NotReady | ServeAs vps_entry

definition handleAgentWS :: "wg_service \<Rightarrow> string \<Rightarrow> ws_answer" where
  "handleAgentWS w remoteAddr =
     (case SplitHost remoteAddr of
        None \<Rightarrow> BadPeer
      | Some host \<Rightarrow>
          (case FindByTunnelIP host (ws_store w) of
             None \<Rightarrow> UnknownPeer
           | Some e \<Rightarrow> if \<not> ws_serving w then NotReady else ServeAs e))"

section \<open>Reading the device's state\<close>

record peer_stats =
  px_PublicKey :: wg_key
  px_Endpoint :: string
  px_LastHandshake :: "(int \<times> int) option"
  px_RxBytes :: int
  px_TxBytes :: int

record stats_state =
  sx_out :: "peer_stats list"
  sx_cur :: "peer_stats option"
  sx_sec :: int
  sx_nsec :: int

definition stats_flush :: "stats_state \<Rightarrow> stats_state" where
  "stats_flush s =
     (case sx_cur s of
        None \<Rightarrow> s
      | Some c \<Rightarrow>
          let c' = (if sx_sec s > 0 then c\<lparr>px_LastHandshake := Some (sx_sec s, sx_nsec s)\<rparr> else c)
          in s\<lparr>sx_cur := Some c', sx_out := sx_out s @ [c']\<rparr>)"

definition cut_eq :: "string \<Rightarrow> (string \<times> string) option" where
  "cut_eq l = (case index_of (CHR ''='') l of None \<Rightarrow> None | Some i \<Rightarrow> Some (take i l, drop (Suc i) l))"

definition stats_line :: "stats_state \<Rightarrow> string \<Rightarrow> stats_state" where
  "stats_line s l =
     (case cut_eq l of
        None \<Rightarrow> s
      | Some (k, v) \<Rightarrow>
          if k = ''public_key''
          then (let s1 = stats_flush s
                in case ParseWGKeyHex v of
                     Inl _ \<Rightarrow> s1\<lparr>sx_cur := None\<rparr>
                   | Inr key \<Rightarrow> s1\<lparr>sx_cur := Some \<lparr> px_PublicKey = key, px_Endpoint = [], px_LastHandshake = None,
                                      px_RxBytes = 0, px_TxBytes = 0 \<rparr>, sx_sec := 0, sx_nsec := 0\<rparr>)
          else if k = ''endpoint'' then s\<lparr>sx_cur := map_option (\<lambda>c. c\<lparr>px_Endpoint := v\<rparr>) (sx_cur s)\<rparr>
          else if k = ''last_handshake_time_sec'' then s\<lparr>sx_sec := fst (Atoi v)\<rparr>
          else if k = ''last_handshake_time_nsec'' then s\<lparr>sx_nsec := fst (Atoi v)\<rparr>
          else if k = ''rx_bytes'' then s\<lparr>sx_cur := map_option (\<lambda>c. c\<lparr>px_RxBytes := fst (Atoi v)\<rparr>) (sx_cur s)\<rparr>
          else if k = ''tx_bytes'' then s\<lparr>sx_cur := map_option (\<lambda>c. c\<lparr>px_TxBytes := fst (Atoi v)\<rparr>) (sx_cur s)\<rparr>
          else s)"

definition tunnel_Stats :: "string list \<Rightarrow> peer_stats list" where
  "tunnel_Stats ls = sx_out (stats_flush (foldl stats_line \<lparr> sx_out = [], sx_cur = None, sx_sec = 0, sx_nsec = 0 \<rparr> ls))"

definition LastHandshake :: "peer_stats list \<Rightarrow> string \<Rightarrow> (int \<times> int) option" where
  "LastHandshake st publicKey =
     (case find (\<lambda>p. WGKey_String (px_PublicKey p) = publicKey) st of None \<Rightarrow> None | Some p \<Rightarrow> px_LastHandshake p)"

record peer_status =
  pt_VPSID :: string
  pt_Name :: string
  pt_Endpoint :: string
  pt_TunnelIP :: string
  pt_LastHandshake :: int
  pt_RxBytes :: int
  pt_TxBytes :: int

text \<open>Of two peers with the same key the later one counts, as in the map the code builds.\<close>

definition peer_status_of :: "peer_stats list \<Rightarrow> vps_entry \<Rightarrow> peer_status" where
  "peer_status_of st e =
     (let v = en_VPS e;
          ps = \<lparr> pt_VPSID = vps_ID v, pt_Name = vps_Name v, pt_Endpoint = vps_WGEndpoint v, pt_TunnelIP = vps_WGTunnelIP v,
                 pt_LastHandshake = 0, pt_RxBytes = 0, pt_TxBytes = 0 \<rparr>
      in case find (\<lambda>p. WGKey_String (px_PublicKey p) = vps_WGPublicKey v) (rev st) of
           None \<Rightarrow> ps
         | Some p \<Rightarrow> ps\<lparr>pt_Endpoint := (if px_Endpoint p \<noteq> [] then px_Endpoint p else pt_Endpoint ps),
                        pt_LastHandshake := (case px_LastHandshake p of None \<Rightarrow> 0 | Some (sec, _) \<Rightarrow> sec),
                        pt_RxBytes := px_RxBytes p, pt_TxBytes := px_TxBytes p\<rparr>)"

definition wg_Status :: "peer_stats list \<Rightarrow> wg_service \<Rightarrow> bool \<times> string \<times> string \<times> peer_status list" where
  "wg_Status st w = (ws_tun w \<noteq> None, WGKey_String (ws_pub w), ws_err w,
     map (peer_status_of (if ws_tun w = None then [] else st)) (filter HasWireGuardPeer (ListEntries (ws_store w))))"

section \<open>Addresses of servers\<close>

datatype addr_failure =
  EnterAddress | CannotResolve string | NotServerAddress | BehindCGNAT | OwnAddress | PortOutOfRange int

definition trim_brackets :: "string \<Rightarrow> string" where
  "trim_brackets s = rev (dropWhile (\<lambda>c. c \<in> set ''[]'') (rev (dropWhile (\<lambda>c. c \<in> set ''[]'') s)))"

definition is_v4 :: "ip_addr \<Rightarrow> bool" where
  "is_v4 a = (case a of V4 _ \<Rightarrow> True | V6 _ _ \<Rightarrow> False)"

definition resolveServerIP :: "wg_net \<Rightarrow> string \<Rightarrow> addr_failure + ip_addr" where
  "resolveServerIP net typed =
     (let h0 = TrimSpace typed;
          h1 = (case SplitHost h0 of Some h \<Rightarrow> h | None \<Rightarrow> h0);
          host = trim_brackets h1
      in case wn_ParseAddr net host of
           Some ip \<Rightarrow> Inr (Unmap ip)
         | None \<Rightarrow>
             if host = [] \<or> ContainsAny host [CHR '' '', CHR ''/'', CHR 0x5C] then Inl EnterAddress
             else case wn_Lookup net host of
                    None \<Rightarrow> Inl (CannotResolve host)
                  | Some ips \<Rightarrow>
                      if ips = [] then Inl (CannotResolve host)
                      else (case find (\<lambda>ip. is_v4 (Unmap ip)) ips of Some ip \<Rightarrow> Inr (Unmap ip) | None \<Rightarrow> Inr (hd ips)))"

definition AddrPort_String :: "wg_net \<Rightarrow> ip_addr \<Rightarrow> int \<Rightarrow> string" where
  "AddrPort_String net ip port =
     (case ip of V4 _ \<Rightarrow> wn_String net ip | V6 _ _ \<Rightarrow> ''['' @ wn_String net ip @ '']'') @ '':'' @ Itoa (nat port)"

definition wireGuardEndpoint :: "wg_net \<Rightarrow> string \<Rightarrow> int \<Rightarrow> addr_failure + string" where
  "wireGuardEndpoint net host port =
     (case resolveServerIP net host of
        Inl e \<Rightarrow> Inl e
      | Inr ip \<Rightarrow>
          if IsUnspecified ip \<or> IsMulticast ip then Inl NotServerAddress
          else let class = ClassifyIP (wn_ParseAddr net) (wn_String net ip)
               in if class = IPCGNAT then Inl BehindCGNAT
                  else if class = IPLoopback \<or> class = IPInvalid then Inl NotServerAddress
                  else if wn_own net = Some ip then Inl OwnAddress
                  else let p = (if port = 0 then int wg_default_port else port)
                       in if p < 1 \<or> p > 65535 then Inl (PortOutOfRange p)
                          else Inr (AddrPort_String net ip p))"

record probe_result =
  po_Host :: string
  po_IP :: string
  po_Class :: ip_class
  po_PingOK :: bool
  po_WireGuardOK :: bool
  po_Recommended :: string
  po_Reason :: string

text \<open>\<open>ping\<close> is the verdict of the system's ping.\<close>

definition probeServer :: "wg_net \<Rightarrow> (string \<Rightarrow> bool) \<Rightarrow> string \<Rightarrow> addr_failure + probe_result" where
  "probeServer net ping host =
     (case resolveServerIP net host of
        Inl e \<Rightarrow> Inl e
      | Inr ip \<Rightarrow>
          if IsUnspecified ip \<or> IsMulticast ip then Inl NotServerAddress
          else
            let class = ClassifyIP (wn_ParseAddr net) (wn_String net ip);
                p = \<lparr> po_Host = TrimSpace host, po_IP = wn_String net ip, po_Class = class, po_PingOK = False,
                      po_WireGuardOK = False, po_Recommended = [], po_Reason = [] \<rparr>
            in if class = IPInvalid \<or> class = IPLoopback then Inl NotServerAddress
               else if class = IPCGNAT then Inr (p\<lparr>po_Recommended := TransportTailscale, po_Reason := ''cgnat''\<rparr>)
               else if wn_own net = Some ip then Inr (p\<lparr>po_Recommended := TransportTailscale, po_Reason := ''same_nat''\<rparr>)
               else
                 let ok = ping (wn_String net ip); p1 = p\<lparr>po_PingOK := ok\<rparr>
                 in if class = IPPrivate \<and> \<not> ok
                    then Inr (p1\<lparr>po_Recommended := TransportTailscale, po_Reason := ''private_unreachable''\<rparr>)
                    else if class = IPPrivate
                    then Inr (p1\<lparr>po_WireGuardOK := True, po_Recommended := TransportWireGuard, po_Reason := ''private''\<rparr>)
                    else Inr (p1\<lparr>po_WireGuardOK := True, po_Recommended := TransportWireGuard,
                                po_Reason := (if ok then [] else ''ping_blocked'')\<rparr>))"

section \<open>The requests\<close>

text \<open>
  A handler's answer is the HTTP status of its refusal or what it writes. Broadcasts and the action
  log are left out.
\<close>

definition createWireGuardVPS ::
  "wg_net \<Rightarrow> wg_key option \<times> wg_key option \<Rightarrow> time \<Rightarrow> string \<Rightarrow> string \<Rightarrow> int \<Rightarrow> wg_service \<Rightarrow> (nat + vps_entry) \<times> wg_service" where
  "createWireGuardVPS net r now reqName publicIP port w =
     (case wireGuardEndpoint net publicIP port of
        Inl _ \<Rightarrow> (Inl 400, w)
      | Inr endpoint \<Rightarrow>
          (let name = (if reqName = [] then publicIP else reqName)
           in case find (\<lambda>e. vps_WGEndpoint (en_VPS e) = endpoint) (ListEntries (ws_store w)) of
                None \<Rightarrow>
                  (case CreateServer net r now name endpoint w of
                     (Inl _, w') \<Rightarrow> (Inl 500, w')
                   | (Inr e, w') \<Rightarrow> (Inr e, w'))
              | Some e \<Rightarrow>
                  if vps_Status (en_VPS e) \<noteq> VPSPending then (Inl 409, w)
                  else
                    (let (upd, s) = UpdateVPSNow (vps_ID (en_VPS e)) (\<lambda>x. x\<lparr>en_VPS := (en_VPS x)\<lparr>vps_Name := name\<rparr>\<rparr>) (ws_store w);
                         entry = (case upd of Some x \<Rightarrow> x | None \<Rightarrow> e);
                         w1 = w\<lparr>ws_store := s\<rparr>
                     in if en_WGAgentKey entry \<noteq> [] then (Inr entry, w1)
                        else (case Rekey net r (vps_ID (en_VPS entry)) [] w1 of
                                (Inl _, w2) \<Rightarrow> (Inl 500, w2)
                              | (Inr e2, w2) \<Rightarrow> (Inr e2, w2)))))"

definition writeWireGuardInstall :: "wg_net \<Rightarrow> wg_service \<Rightarrow> vps_entry \<Rightarrow> nat + wg_join" where
  "writeWireGuardInstall net w e = (case JoinFor net w e of Inl _ \<Rightarrow> Inl 410 | Inr j \<Rightarrow> Inr j)"

definition handleWireGuardInstall :: "wg_net \<Rightarrow> wg_service \<Rightarrow> string \<Rightarrow> nat + wg_join" where
  "handleWireGuardInstall net w i =
     (case GetVPS i (ws_store w) of
        None \<Rightarrow> Inl 404
      | Some e \<Rightarrow> if \<not> HasWireGuardPeer e then Inl 404 else writeWireGuardInstall net w e)"

definition handleWireGuardRegenerate ::
  "wg_net \<Rightarrow> wg_key option \<times> wg_key option \<Rightarrow> string \<Rightarrow> wg_service \<Rightarrow> (nat + wg_join) \<times> wg_service" where
  "handleWireGuardRegenerate net r i w =
     (case GetVPS i (ws_store w) of
        None \<Rightarrow> (Inl 404, w)
      | Some e \<Rightarrow>
          if \<not> HasWireGuardPeer e then (Inl 404, w)
          else case Rekey net r (vps_ID (en_VPS e)) [] w of
                 (Inl _, w') \<Rightarrow> (Inl 500, w')
               | (Inr e', w') \<Rightarrow> (writeWireGuardInstall net w' e', w'))"

text \<open>Moving a server to the tunnel; \<open>push\<close> is whether the agent took the token (its answer was a 2xx).\<close>

definition handleWireGuardMigrate ::
  "wg_net \<Rightarrow> (wg_join \<Rightarrow> bool) \<Rightarrow> wg_key option \<times> wg_key option \<Rightarrow> string \<Rightarrow> string \<Rightarrow> int \<Rightarrow> wg_service \<Rightarrow>
     (nat + wg_join \<times> bool) \<times> wg_service" where
  "handleWireGuardMigrate net push r i publicIP port w =
     (case GetVPS i (ws_store w) of
        None \<Rightarrow> (Inl 404, w)
      | Some e \<Rightarrow>
          if IsWireGuard (en_VPS e) then (Inl 400, w)
          else
            let ip = (if publicIP = [] then vps_PublicIP (en_VPS e) else publicIP)
            in if ip = [] then (Inl 400, w)
               else case wireGuardEndpoint net ip port of
                      Inl _ \<Rightarrow> (Inl 400, w)
                    | Inr endpoint \<Rightarrow>
                        (case Rekey net r i endpoint w of
                           (Inl _, w') \<Rightarrow> (Inl 500, w')
                         | (Inr e', w') \<Rightarrow>
                             (case JoinFor net w' e' of
                                Inl _ \<Rightarrow> (Inl 500, w')
                              | Inr j \<Rightarrow> (Inr (j, push j), w'))))"

text \<open>Moving it back; \<open>ask\<close> is the connected agent's status code, \<open>None\<close> when it did not answer.\<close>

definition handleWireGuardSwitchTailscale ::
  "wg_net \<Rightarrow> bool \<Rightarrow> nat option \<Rightarrow> string \<Rightarrow> wg_service \<Rightarrow> (nat + vps_entry) \<times> wg_service" where
  "handleWireGuardSwitchTailscale net conn ask i w =
     (case GetVPS i (ws_store w) of
        None \<Rightarrow> (Inl 404, w)
      | Some e \<Rightarrow>
          if \<not> HasWireGuardPeer e \<and> \<not> IsWireGuard (en_VPS e) then (Inl 400, w)
          else if conn \<and> ask = None then (Inl 502, w)
          else if conn \<and> (the ask < 200 \<or> the ask \<ge> 300) then (Inl (the ask), w)
          else case wg_Forget net i w of
                 (None, w') \<Rightarrow> (Inl 404, w')
               | (Some e', w') \<Rightarrow> (Inr e', w'))"

end
