(* ===== verification/Tunnel_Addresses.thy ===== *)
theory Tunnel_Addresses
  imports WireGuard_Service
begin

text \<open>
  Addresses inside the tunnel: printing one as a dotted quad loses nothing, and the search for a free
  one visits the hosts of the tunnel's network in order until it finds one.
\<close>

section \<open>Printed addresses\<close>

lemma octet: "unat (drop_bit i (a :: 32 word) AND 0xFF) = unat a div 2 ^ i mod 256"
proof -
  have "drop_bit i a AND 0xFF = take_bit 8 (drop_bit i a)"
    by (simp add: take_bit_eq_mask mask_numeral)
  also have "unat \<dots> = take_bit 8 (drop_bit i (unat a))"
    using unsigned_less [of a, where 'a = nat] by (simp add: unsigned_take_bit_eq unsigned_drop_bit_eq take_bit_nat_eq_self)
  finally have "unat (drop_bit i a AND 0xFF) = take_bit 8 (drop_bit i (unat a))" .
  then show ?thesis by (simp add: take_bit_eq_mod drop_bit_eq_div)
qed

lemma octets:
  "(n :: nat) = ((n div 16777216 * 256 + n div 65536 mod 256) * 256 + n div 256 mod 256) * 256 + n mod 256"
proof -
  have "n div 65536 = n div 256 div 256" "n div 16777216 = n div 256 div 256 div 256"
    by (simp_all flip: div_mult2_eq)
  then show ?thesis by simp
qed

lemma split_ipv4:
  "Split (ipv4_String c) (CHR ''.'') = map (\<lambda>i. Itoa (unat (drop_bit i c AND 0xFF))) [24, 16, 8, 0]"
proof -
  have dots: "\<forall>w \<in> set (map (\<lambda>i. Itoa (unat (drop_bit i c AND 0xFF))) [24, 16, 8, 0]). CHR ''.'' \<notin> set w"
    by (auto dest!: Itoa_char simp: is_digit_def)
  show ?thesis unfolding ipv4_String_def by (rule Split_Join [OF _ dots]) simp
qed

lemma high_octet: "unat (c :: 32 word) div 16777216 mod 256 = unat c div 16777216"
proof -
  have "unat c < 2 ^ 32" using unsigned_less [of c] by simp
  then show ?thesis by simp
qed

lemma ipv4_inj: "ipv4_String a = ipv4_String b \<longleftrightarrow> a = b"
proof
  assume eq: "ipv4_String a = ipv4_String b"
  have "map (\<lambda>i. Itoa (unat (drop_bit i a AND 0xFF))) [24, 16, 8, 0] = map (\<lambda>i. Itoa (unat (drop_bit i b AND 0xFF))) [24, 16, 8, 0]"
    using split_ipv4 [of a] split_ipv4 [of b] eq by simp
  then have o: "unat a div 16777216 mod 256 = unat b div 16777216 mod 256" "unat a div 65536 mod 256 = unat b div 65536 mod 256"
    "unat a div 256 mod 256 = unat b div 256 mod 256" "unat a mod 256 = unat b mod 256"
    unfolding list.map list.inject Itoa_inj octet by simp_all
  have "unat a = unat b" using octets [of "unat a"] octets [of "unat b"] o unfolding high_octet by simp
  then show "a = b" by (simp add: word_unat_eq_iff)
qed simp

lemma ipv4_ne [simp]: "ipv4_String a \<noteq> []"
  by (simp add: ipv4_String_def)

lemma panel_addr: "ipv4_String 0x0A570001 = WGBackendTunnelIP"
  by code_simp

section \<open>The search for an address\<close>

definition tunnel_host :: "32 word \<Rightarrow> bool" where
  "tunnel_host a \<longleftrightarrow> in_tunnel a \<and> host_octet_ok a"

lemma unat_next: "in_tunnel a \<Longrightarrow> unat (a + 1) = unat a + 1"
  by (simp add: in_tunnel_range unat_word_ariths)

lemma in_tunnel_up: "in_tunnel b \<Longrightarrow> 173473792 \<le> unat a \<Longrightarrow> unat a \<le> unat b \<Longrightarrow> in_tunnel a"
  by (simp add: in_tunnel_range)

lemma alloc_from_spec:
  assumes "173473792 \<le> unat ip"
  shows "case alloc_from used ip of
      Some s \<Rightarrow> \<exists>a. tunnel_host a \<and> unat ip \<le> unat a \<and> s = ipv4_String a \<and> s \<notin> set used \<and>
          (\<forall>b. tunnel_host b \<and> unat ip \<le> unat b \<and> unat b < unat a \<longrightarrow> ipv4_String b \<in> set used)
    | None \<Rightarrow> \<forall>b. tunnel_host b \<and> unat ip \<le> unat b \<longrightarrow> ipv4_String b \<in> set used"
  using assms
proof (induction used ip rule: alloc_from.induct)
  case (1 used ip)
  show ?case
  proof (cases "in_tunnel ip")
    case False
    then show ?thesis
      using "1.prems" in_tunnel_up by (subst alloc_from.simps) (auto simp: tunnel_host_def)
  next
    case True
    show ?thesis
    proof (cases "host_octet_ok ip \<and> ipv4_String ip \<notin> set used")
      case here: True
      then show ?thesis using True by (subst alloc_from.simps) (auto simp: tunnel_host_def)
    next
      case skip: False
      have step: "alloc_from used ip = alloc_from used (ip + 1)"
        using True skip by (subst alloc_from.simps) auto
      have covered: "ipv4_String b \<in> set used" if "tunnel_host b" "unat b = unat ip" for b
      proof -
        have "b = ip" using that(2) by (simp add: word_unat_eq_iff)
        then show ?thesis using that(1) skip by (simp add: tunnel_host_def)
      qed
      have split: "unat ip \<le> n \<longleftrightarrow> n = unat ip \<or> unat (ip + 1) \<le> n" for n
        using unat_next [OF True] by auto
      have IH: "case alloc_from used (ip + 1) of
          Some s \<Rightarrow> \<exists>a. tunnel_host a \<and> unat (ip + 1) \<le> unat a \<and> s = ipv4_String a \<and> s \<notin> set used \<and>
            (\<forall>b. tunnel_host b \<and> unat (ip + 1) \<le> unat b \<and> unat b < unat a \<longrightarrow> ipv4_String b \<in> set used)
        | None \<Rightarrow> \<forall>b. tunnel_host b \<and> unat (ip + 1) \<le> unat b \<longrightarrow> ipv4_String b \<in> set used"
        using "1.IH"(1) "1.IH"(2) True skip "1.prems" unat_next [OF True] by (cases "host_octet_ok ip") auto
      show ?thesis
        unfolding step using IH covered split by (cases "alloc_from used (ip + 1)") (simp; metis)+
    qed
  qed
qed

text \<open>There are 65,023 host addresses besides the panel's own.\<close>

lemma host_of_number:
  assumes "n < 65536" "n mod 256 \<noteq> 0" "n mod 256 \<noteq> 255"
  shows "tunnel_host (of_nat (173473792 + n))" "unat (of_nat (173473792 + n) :: 32 word) = 173473792 + n"
proof -
  show u: "unat (of_nat (173473792 + n) :: 32 word) = 173473792 + n"
    using assms(1) by (simp only: unat_of_nat) simp
  have "unat (of_nat (173473792 + n) AND (0xFF :: 32 word)) = n mod 256"
    using octet [of 0 "of_nat (173473792 + n)"] unfolding u by (simp add: mod_add_eq [symmetric])
  then show "tunnel_host (of_nat (173473792 + n))"
    using assms u unfolding tunnel_host_def in_tunnel_range host_octet_ok_def by (auto simp del: of_nat_add)
qed

lemma card_hosts: "card {n \<in> {2..<65536}. n mod 256 \<noteq> 0 \<and> n mod 256 \<noteq> (255 :: nat)} = 65023"
proof -
  let ?f = "\<lambda>(q, r). q * 256 + r :: nat"
  have inj: "inj_on ?f ({0..<256} \<times> {1..<255})"
    by (rule inj_on_inverseI [where g = "\<lambda>n. (n div 256, n mod 256)"]) auto
  have "{n \<in> {2..<65536}. n mod 256 \<noteq> 0 \<and> n mod 256 \<noteq> (255 :: nat)} = ?f ` ({0..<256} \<times> {1..<255}) - {1}"
  proof (intro set_eqI iffI)
    fix n :: nat
    assume "n \<in> {n \<in> {2..<65536}. n mod 256 \<noteq> 0 \<and> n mod 256 \<noteq> 255}"
    then have "n = ?f (n div 256, n mod 256)" "(n div 256, n mod 256) \<in> {0..<256} \<times> {1..<255}" "n \<noteq> 1"
      using mod_less_divisor [of 256 n] by (auto simp: less_mult_imp_div_less)
    then show "n \<in> ?f ` ({0..<256} \<times> {1..<255}) - {1}" by blast
  qed auto
  moreover have "1 \<in> ?f ` ({0..<256} \<times> {1..<255})" by (rule image_eqI [of _ _ "(0, 1)"]) simp_all
  ultimately show ?thesis using card_image [OF inj] by (simp add: card_Diff_singleton)
qed

lemma used_count: "set (used_ips s) \<subseteq> insert WGBackendTunnelIP ((\<lambda>e. vps_WGTunnelIP (en_VPS e)) ` set (ListEntries s))"
  by (auto simp: used_ips_def)

lemma exhausted_needs_hosts:
  assumes "\<forall>b. tunnel_host b \<and> 173473794 \<le> unat b \<longrightarrow> ipv4_String b \<in> set (used_ips s)"
  shows "65023 \<le> length (ListEntries s)"
proof -
  let ?N = "{n \<in> {2..<65536}. n mod 256 \<noteq> 0 \<and> n mod 256 \<noteq> (255 :: nat)}"
  let ?h = "\<lambda>n. ipv4_String (of_nat (173473792 + n))"
  have h: "tunnel_host (of_nat (173473792 + n))" "unat (of_nat (173473792 + n) :: 32 word) = 173473792 + n" if "n \<in> ?N" for n
    using that host_of_number [of n] by auto
  have inj: "inj_on ?h ?N"
  proof (rule inj_onI)
    fix m n assume mn: "m \<in> ?N" "n \<in> ?N" and "?h m = ?h n"
    then have "(of_nat (173473792 + m) :: 32 word) = of_nat (173473792 + n)" unfolding ipv4_inj by blast
    then have "unat (of_nat (173473792 + m) :: 32 word) = unat (of_nat (173473792 + n) :: 32 word)" by (rule arg_cong)
    then show "m = n" unfolding h(2) [OF mn(1)] h(2) [OF mn(2)] by simp
  qed
  have panel: "WGBackendTunnelIP = ipv4_String (of_nat (173473792 + 1))" by (simp flip: panel_addr)
  have "?h ` ?N \<subseteq> (\<lambda>e. vps_WGTunnelIP (en_VPS e)) ` set (ListEntries s)"
  proof
    fix x assume "x \<in> ?h ` ?N"
    then obtain n where n: "n \<in> ?N" "x = ?h n" by blast
    then have "x \<in> set (used_ips s)" using assms h [OF n(1)] by simp
    moreover have "x \<noteq> WGBackendTunnelIP"
    proof
      assume "x = WGBackendTunnelIP"
      then have "(of_nat (173473792 + n) :: 32 word) = of_nat (173473792 + 1)" unfolding n(2) panel ipv4_inj .
      then have "unat (of_nat (173473792 + n) :: 32 word) = unat (of_nat (173473792 + 1) :: 32 word)" by (rule arg_cong)
      then show False using h(2) [OF n(1)] n(1) by simp
    qed
    ultimately show "x \<in> (\<lambda>e. vps_WGTunnelIP (en_VPS e)) ` set (ListEntries s)" using used_count by blast
  qed
  then have "card (?h ` ?N) \<le> card ((\<lambda>e. vps_WGTunnelIP (en_VPS e)) ` set (ListEntries s))" by (intro card_mono) simp_all
  also have "\<dots> \<le> length (ListEntries s)" by (meson List.finite_set card_image_le card_length order_trans)
  finally show ?thesis using card_image [OF inj] card_hosts by simp
qed

lemma allocate_spec:
  assumes "allocateTunnelIP s = Inr tip"
  obtains a where "tunnel_host a" "tip = ipv4_String a" "tip \<notin> set (used_ips s)"
    "\<forall>b. tunnel_host b \<and> 173473794 \<le> unat b \<and> unat b < unat a \<longrightarrow> ipv4_String b \<in> set (used_ips s)"
proof -
  have u: "unat (WGTunnelPrefix + 1 + 1) = 173473794" by (simp add: WGTunnelPrefix_def)
  have "alloc_from (used_ips s) (WGTunnelPrefix + 1 + 1) = Some tip"
    using assms by (auto simp: allocateTunnelIP_def split: option.splits)
  then show ?thesis using alloc_from_spec [of "WGTunnelPrefix + 1 + 1" "used_ips s"] that unfolding u by auto
qed

end
