(* ===== verification/WireGuard_Service_Laws.thy ===== *)
theory WireGuard_Service_Laws
  imports Tunnel_Addresses
begin

text \<open>
  What the tunnel service guarantees: the search for a tunnel address ends and finds the lowest free
  one, a source address inside the tunnel stands for one server, and the peers the device holds are
  exactly the servers of the registry that have keys, so a withdrawn key is cut off at once.
\<close>

section \<open>The device as a table of peers\<close>

text \<open>What a sequence of accepted calls leaves in the device: \<open>SetPeer\<close> replaces, \<open>RemovePeer\<close> removes.\<close>

definition table_call :: "wg_call \<Rightarrow> (wg_key \<rightharpoonup> wg_peer) \<Rightarrow> (wg_key \<rightharpoonup> wg_peer)" where
  "table_call c m = (case c of SetPeerCall p \<Rightarrow> m(tp_PublicKey p \<mapsto> p) | RemovePeerCall k \<Rightarrow> m(k := None))"

definition device_table :: "wg_call list \<Rightarrow> (wg_key \<rightharpoonup> wg_peer)" where
  "device_table calls = fold table_call calls Map.empty"

definition peer_of :: "wg_net \<Rightarrow> vps_entry \<Rightarrow> wg_peer option" where
  "peer_of net e =
     (if \<not> HasWireGuardPeer e then None
      else case (ParseWGKey (vps_WGPublicKey (en_VPS e)), wn_ParseAddr net (vps_WGTunnelIP (en_VPS e))) of
        (Inr pub, Some tip) \<Rightarrow> Some \<lparr> tp_PublicKey = pub,
           tp_PresharedKey = (case ParseWGKey (en_WGPresharedKey e) of Inl _ \<Rightarrow> zero_key | Inr k \<Rightarrow> k),
           tp_Endpoint = vps_WGEndpoint (en_VPS e), tp_AllowedIP = tip, tp_Keepalive = WGKeepaliveSec \<rparr>
      | _ \<Rightarrow> None)"

definition ipc_accepts :: "wg_net \<Rightarrow> bool" where
  "ipc_accepts net \<longleftrightarrow> (\<forall>t. wn_IpcSet net t = None)"

lemma device_table_snoc: "device_table (calls @ [c]) = table_call c (device_table calls)"
  by (simp add: device_table_def)

lemma ipc_frame [simp]:
  "ws_store (snd (ipc net c w)) = ws_store w" "ws_pub (snd (ipc net c w)) = ws_pub w"
  "ws_serving (snd (ipc net c w)) = ws_serving w" "(ws_tun (snd (ipc net c w)) = None) = (ws_tun w = None)"
  by (simp_all add: ipc_def split: option.splits)

lemma setPeer_frame [simp]:
  "ws_store (snd (setPeerLocked net e w)) = ws_store w" "ws_serving (snd (setPeerLocked net e w)) = ws_serving w"
  "(ws_tun (snd (setPeerLocked net e w)) = None) = (ws_tun w = None)"
  by (simp_all add: setPeerLocked_def Let_def case_prod_beta split: sum.splits option.splits)

lemma install_frame [simp]:
  "ws_store (install_peers net es w) = ws_store w" "ws_serving (install_peers net es w) = ws_serving w"
  "(ws_tun (install_peers net es w) = None) = (ws_tun w = None)"
  by (induction es arbitrary: w) (simp_all add: install_peers_def)

lemma ensureUp_frame [simp]:
  "ws_store (snd (ensureUpLocked net w)) = ws_store w" "ws_serving (snd (ensureUpLocked net w)) = ws_serving w"
  by (simp_all add: ensureUpLocked_def split: option.splits)

lemma SyncPeer_frame [simp]:
  "ws_store (snd (SyncPeer net e w)) = ws_store w" "ws_serving (snd (SyncPeer net e w)) = ws_serving w"
  using ensureUp_frame [of net w]
  by (cases "ensureUpLocked net w"; simp add: SyncPeer_def split: option.split)+

lemma RemovePeer_frame [simp]:
  "ws_store (wg_RemovePeer net k w) = ws_store w" "ws_serving (wg_RemovePeer net k w) = ws_serving w"
  "(ws_tun (wg_RemovePeer net k w) = None) = (ws_tun w = None)"
  by (simp_all add: wg_RemovePeer_def split: sum.splits)

text \<open>The table after each call, on a device that accepts its configuration.\<close>

definition table :: "wg_service \<Rightarrow> (wg_key \<rightharpoonup> wg_peer) option" where
  "table w = map_option device_table (ws_tun w)"

lemma table_None: "(table w = None) = (ws_tun w = None)"
  by (simp add: table_def)

lemma table_ipc: "ipc_accepts net \<Longrightarrow> table (snd (ipc net c w)) = map_option (table_call c) (table w)"
  by (simp add: ipc_def ipc_accepts_def table_def device_table_snoc split: option.split)

definition put_peer :: "wg_peer option \<Rightarrow> (wg_key \<rightharpoonup> wg_peer) \<Rightarrow> (wg_key \<rightharpoonup> wg_peer)" where
  "put_peer p m = (case p of None \<Rightarrow> m | Some p \<Rightarrow> m(tp_PublicKey p \<mapsto> p))"

lemma put_peer_None [simp]: "put_peer None = (\<lambda>m. m)"
  by (simp add: put_peer_def fun_eq_iff)

lemma table_call_simps [simp]:
  "table_call (SetPeerCall p) = (\<lambda>m. m(tp_PublicKey p \<mapsto> p))" "table_call (RemovePeerCall k) = (\<lambda>m. m(k := None))"
  by (simp_all add: table_call_def fun_eq_iff)

lemma table_setPeer:
  "ipc_accepts net \<Longrightarrow> HasWireGuardPeer e \<Longrightarrow> table (snd (setPeerLocked net e w)) = map_option (put_peer (peer_of net e)) (table w)"
  by (auto simp: setPeerLocked_def peer_of_def Let_def case_prod_beta table_ipc table_call_def put_peer_def
      option.map_ident fun_eq_iff split: sum.splits option.splits intro!: option.map_cong0)

lemma table_install:
  assumes "ipc_accepts net"
  shows "table (install_peers net es w) = map_option (fold (\<lambda>e. put_peer (peer_of net e)) es) (table w)"
proof (induction es arbitrary: w)
  case (Cons e es)
  have "table (if HasWireGuardPeer e then snd (setPeerLocked net e w) else w) = map_option (put_peer (peer_of net e)) (table w)"
    by (simp add: table_setPeer [OF assms] peer_of_def option.map_ident)
  with Cons show ?case by (simp add: install_peers_def option.map_comp o_def)
qed (simp add: install_peers_def option.map_id)

lemma table_RemovePeer:
  "ipc_accepts net \<Longrightarrow> table (wg_RemovePeer net k w) =
     (case ParseWGKey k of Inl _ \<Rightarrow> table w | Inr pub \<Rightarrow> map_option (\<lambda>m. m(pub := None)) (table w))"
  using table_None [of w] by (cases "table w") (auto simp: wg_RemovePeer_def table_ipc split: sum.split)

lemma table_SyncPeer:
  assumes "ipc_accepts net"
  shows "table (snd (SyncPeer net e w)) =
    (case table w of
       Some t \<Rightarrow> Some (put_peer (peer_of net e) t)
     | None \<Rightarrow>
         if HasWireGuardPeer e \<and> wn_Up net = None \<and> wn_Listen net = None
         then Some (put_peer (peer_of net e) (fold (\<lambda>e. put_peer (peer_of net e)) (ListEntries (ws_store w)) Map.empty))
         else None)"
proof (cases "HasWireGuardPeer e")
  case False
  then show ?thesis by (simp add: SyncPeer_def peer_of_def split: option.split)
next
  case True
  show ?thesis
  proof (cases "ws_tun w")
    case None
    have "table (install_peers net es (w\<lparr>ws_tun := Some [], ws_err := []\<rparr>)) =
        Some (fold (\<lambda>e. put_peer (peer_of net e)) es Map.empty)" for es
      by (simp add: table_install [OF assms]) (simp add: table_def device_table_def)
    moreover have "table w = None" using None by (simp add: table_None)
    ultimately show ?thesis
      using None True by (auto simp: SyncPeer_def ensureUpLocked_def table_setPeer [OF assms] split: option.splits)
        (simp_all add: table_def)
  next
    case (Some calls)
    with True show ?thesis
      using table_setPeer [OF assms True, of w] by (simp add: SyncPeer_def ensureUpLocked_def table_def)
  qed
qed

section \<open>The registry's side\<close>

abbreviation en_tip :: "vps_entry \<Rightarrow> string" where "en_tip e \<equiv> vps_WGTunnelIP (en_VPS e)"
abbreviation en_pub :: "vps_entry \<Rightarrow> string" where "en_pub e \<equiv> vps_WGPublicKey (en_VPS e)"

definition tunnel_typed :: "vps_entry \<Rightarrow> bool" where
  "tunnel_typed e \<longleftrightarrow> (en_tip e = [] \<or> (\<exists>a. tunnel_host a \<and> en_tip e = ipv4_String a)) \<and>
     (en_pub e = [] \<or> (\<exists>k. length k = 32 \<and> en_pub e = WGKey_String k))"

definition apart :: "vps_entry \<Rightarrow> vps_entry \<Rightarrow> bool" where
  "apart e f \<longleftrightarrow> (en_tip e \<noteq> [] \<longrightarrow> en_tip e \<noteq> en_tip f) \<and> (en_pub e \<noteq> [] \<longrightarrow> en_pub e \<noteq> en_pub f)"

definition tunnels_ok :: "store \<Rightarrow> bool" where
  "tunnels_ok s \<longleftrightarrow> store_wf s \<and>
     (\<forall>(i, e) \<in> set (st_VPS s). tunnel_typed e \<and> (\<forall>(j, f) \<in> set (st_VPS s). i \<noteq> j \<longrightarrow> apart e f))"

definition registry_has :: "wg_net \<Rightarrow> store \<Rightarrow> wg_key \<Rightarrow> wg_peer \<Rightarrow> bool" where
  "registry_has net s k p \<longleftrightarrow> (\<exists>(i, e) \<in> set (st_VPS s). peer_of net e = Some p \<and> tp_PublicKey p = k)"

definition mirrors :: "wg_net \<Rightarrow> wg_service \<Rightarrow> bool" where
  "mirrors net w \<longleftrightarrow> (\<forall>t. table w = Some t \<longrightarrow> (\<forall>k p. t k = Some p \<longleftrightarrow> registry_has net (ws_store w) k p))"

definition parse_law :: "wg_net \<Rightarrow> bool" where
  "parse_law net \<longleftrightarrow> (\<forall>a. wn_ParseAddr net (ipv4_String a) = Some (V4 a))"

lemma key_roundtrip: "length k = 32 \<Longrightarrow> ParseWGKey (WGKey_String k) = Inr k"
  by (simp add: ParseWGKey_def WGKey_String_def base64_roundtrip)

lemma key_inj: "length k = 32 \<Longrightarrow> length k' = 32 \<Longrightarrow> WGKey_String k = WGKey_String k' \<longleftrightarrow> k = k'"
  by (metis key_roundtrip sum.inject(2))

lemma key_ne [simp]: "length k = 32 \<Longrightarrow> WGKey_String k \<noteq> []"
  using length_encode [of k] by (auto simp: WGKey_String_def)

lemma peer_key:
  assumes "tunnel_typed e" "peer_of net e = Some p"
  shows "en_pub e = WGKey_String (tp_PublicKey p)" "length (tp_PublicKey p) = 32" "HasWireGuardPeer e"
proof -
  show h: "HasWireGuardPeer e" using assms(2) by (auto simp: peer_of_def split: if_splits)
  then obtain k where k: "length k = 32" "en_pub e = WGKey_String k"
    using assms(1) by (auto simp: tunnel_typed_def HasWireGuardPeer_def)
  then have "tp_PublicKey p = k"
    using assms(2) h by (auto simp: peer_of_def key_roundtrip split: option.splits if_splits)
  with k show "en_pub e = WGKey_String (tp_PublicKey p)" "length (tp_PublicKey p) = 32" by simp_all
qed

lemma peer_of_typed:
  assumes "tunnel_typed e" "parse_law net" "HasWireGuardPeer e"
  shows "\<exists>p a. peer_of net e = Some p \<and> tp_AllowedIP p = V4 a \<and> en_tip e = ipv4_String a"
  using assms by (auto simp: tunnel_typed_def parse_law_def peer_of_def HasWireGuardPeer_def key_roundtrip)

lemma tunnels_okD:
  assumes "tunnels_ok s" "(i, e) \<in> set (st_VPS s)"
  shows "tunnel_typed e" "(j, f) \<in> set (st_VPS s) \<Longrightarrow> i \<noteq> j \<Longrightarrow> apart e f"
  using assms unfolding tunnels_ok_def by blast+

text \<open>Two entries with the same key are one entry.\<close>

lemma same_key:
  assumes "tunnels_ok s" "(i, e) \<in> set (st_VPS s)" "(j, f) \<in> set (st_VPS s)"
    and "peer_of net e = Some p" "peer_of net f = Some q" "tp_PublicKey p = tp_PublicKey q"
  shows "i = j"
proof (rule ccontr)
  assume "i \<noteq> j"
  then have "apart e f" "tunnel_typed e" "tunnel_typed f" using tunnels_okD [OF assms(1)] assms(2,3) by blast+
  then show False
    using peer_key [OF _ assms(4)] peer_key [OF _ assms(5)] assms(6) by (simp add: apart_def HasWireGuardPeer_def)
qed

lemma same_peer:
  assumes "tunnels_ok s" "(i, e) \<in> set (st_VPS s)" "(j, f) \<in> set (st_VPS s)"
    and "peer_of net e = Some p" "peer_of net f = Some q" "tp_PublicKey p = tp_PublicKey q"
  shows "p = q"
proof -
  have "gomap_ok (st_VPS s)" using assms(1) by (simp add: tunnels_ok_def)
  then have "e = f" using same_key [OF assms] assms(2,3) by (metis gomap_lookup_iff option.inject)
  then show ?thesis using assms(4,5) by simp
qed

lemma fold_put:
  assumes "\<And>e f p q. e \<in> set es \<Longrightarrow> f \<in> set es \<Longrightarrow> g e = Some p \<Longrightarrow> g f = Some q \<Longrightarrow> tp_PublicKey p = tp_PublicKey q \<Longrightarrow> p = q"
  shows "fold (\<lambda>e. put_peer (g e)) es t k = Some p \<longleftrightarrow>
    (\<exists>e \<in> set es. g e = Some p \<and> tp_PublicKey p = k) \<or>
    (\<forall>e \<in> set es. \<forall>q. g e = Some q \<longrightarrow> tp_PublicKey q \<noteq> k) \<and> t k = Some p"
  using assms
proof (induction es arbitrary: t)
  case (Cons e es)
  have IH: "fold (\<lambda>e. put_peer (g e)) es (put_peer (g e) t) k = Some p \<longleftrightarrow>
      (\<exists>e \<in> set es. g e = Some p \<and> tp_PublicKey p = k) \<or>
      (\<forall>e \<in> set es. \<forall>q. g e = Some q \<longrightarrow> tp_PublicKey q \<noteq> k) \<and> put_peer (g e) t k = Some p"
    by (rule Cons.IH) (use Cons.prems in auto)
  have u: "q = r" if "f \<in> set es" "g f = Some q" "g e = Some r" "tp_PublicKey q = tp_PublicKey r" for f q r
    using that Cons.prems [of f e q r] by simp
  show ?case
    unfolding fold_simps comp_apply IH by (cases "g e") (auto simp: put_peer_def split: if_splits dest: u)
qed simp

section \<open>Putting one entry\<close>

text \<open>
  A change of one entry, followed by the withdrawal of the key it had and the installation of the one
  it has now, keeps the device and the registry the same.
\<close>

definition drop_key :: "vps_entry option \<Rightarrow> (wg_key \<rightharpoonup> wg_peer) \<Rightarrow> (wg_key \<rightharpoonup> wg_peer)" where
  "drop_key old t = (case old of None \<Rightarrow> t
     | Some e \<Rightarrow> (case ParseWGKey (en_pub e) of Inl _ \<Rightarrow> t | Inr k \<Rightarrow> t(k := None)))"

lemma empty_key: "ParseWGKey [] = Inl InvalidKey"
  by code_simp

lemma drop_key_simps:
  "drop_key None = (\<lambda>t. t)"
  "ParseWGKey (en_pub e) = Inl x \<Longrightarrow> drop_key (Some e) = (\<lambda>t. t)"
  "ParseWGKey (en_pub e) = Inr k \<Longrightarrow> drop_key (Some e) = (\<lambda>t. t(k := None))"
  by (simp_all add: drop_key_def fun_eq_iff)

lemma drop_key_pub: "tunnel_typed e \<Longrightarrow> length k = 32 \<Longrightarrow> ParseWGKey (en_pub e) = Inr k \<longleftrightarrow> en_pub e = WGKey_String k"
  using empty_key by (auto simp: tunnel_typed_def key_roundtrip key_inj)

lemma mirror_put:
  assumes ok: "tunnels_ok s" and ok': "tunnels_ok s'" and put: "st_VPS s' = map_put i e (st_VPS s)"
    and t: "\<And>k p. t k = Some p \<longleftrightarrow> registry_has net s k p"
  shows "put_peer (peer_of net e) (drop_key (map_of (st_VPS s) i) t) k = Some p \<longleftrightarrow> registry_has net s' k p"
proof -
  have g: "gomap_ok (st_VPS s)" "gomap_ok (st_VPS s')" using ok ok' by (simp_all add: tunnels_ok_def)
  have e: "(i, e) \<in> set (st_VPS s')" using put g(1) by (simp add: in_map_put)
  have has': "registry_has net s' k p \<longleftrightarrow> (peer_of net e = Some p \<and> tp_PublicKey p = k) \<or>
      (\<exists>(j, f) \<in> set (st_VPS s). j \<noteq> i \<and> peer_of net f = Some p \<and> tp_PublicKey p = k)" for k p
  proof -
    have "registry_has net s' k p \<longleftrightarrow>
        (\<exists>j f. (if j = i then f = e else (j, f) \<in> set (st_VPS s)) \<and> peer_of net f = Some p \<and> tp_PublicKey p = k)"
      unfolding registry_has_def put Bex_def case_prod_beta split_paired_Ex in_map_put [OF g(1)] fst_conv snd_conv ..
    then show ?thesis unfolding Bex_def case_prod_beta split_paired_Ex fst_conv snd_conv by metis
  qed
  have others: "(j, f) \<in> set (st_VPS s')" if "(j, f) \<in> set (st_VPS s)" "j \<noteq> i" for j f
    using that put g(1) by (simp add: in_map_put)
  show ?thesis
  proof (cases "\<exists>q. peer_of net e = Some q \<and> tp_PublicKey q = k")
    case True
    then obtain q where q: "peer_of net e = Some q" "tp_PublicKey q = k" by blast
    have "registry_has net s' k p \<longleftrightarrow> p = q"
      unfolding has' using q same_peer [OF ok' e others] by (auto; metis)
    then show ?thesis using q by (auto simp: put_peer_def)
  next
    case False
    then have "put_peer (peer_of net e) m k = m k" for m by (auto simp: put_peer_def split: option.splits)
    moreover have "drop_key (map_of (st_VPS s) i) t k = Some p \<longleftrightarrow>
        (\<exists>(j, f) \<in> set (st_VPS s). j \<noteq> i \<and> peer_of net f = Some p \<and> tp_PublicKey p = k)"
    proof (cases "map_of (st_VPS s) i")
      case None
      then have "\<forall>(j, f) \<in> set (st_VPS s). j \<noteq> i" by (force simp: map_of_eq_None_iff)
      with None t show ?thesis by (fastforce simp: drop_key_def registry_has_def)
    next
      case (Some prev)
      then have prev: "(i, prev) \<in> set (st_VPS s)" by (rule map_of_SomeD)
      note typed = tunnels_okD(1) [OF ok prev]
      have same_i: "f = prev" if "(i, f) \<in> set (st_VPS s)" for f using that prev g(1) by (metis gomap_lookup_iff option.inject)
      show ?thesis
      proof (cases "ParseWGKey (en_pub prev) = Inr k")
        case True
        have "False" if f: "(j, f) \<in> set (st_VPS s)" "j \<noteq> i" "peer_of net f = Some p" "tp_PublicKey p = k" for j f
        proof -
          note pk = peer_key [OF tunnels_okD(1) [OF ok f(1)] f(3)]
          have "en_pub prev = en_pub f" using drop_key_pub [OF typed pk(2)] True f(4) pk(1) by simp
          then show False using tunnels_okD(2) [OF ok f(1) prev f(2)] pk by (simp add: apart_def HasWireGuardPeer_def)
        qed
        with True Some show ?thesis by (auto simp: drop_key_def)
      next
        case False
        then have "drop_key (Some prev) t k = t k" by (auto simp: drop_key_def split: sum.splits)
        moreover have "\<not> (peer_of net prev = Some p \<and> tp_PublicKey p = k)"
          using peer_key [OF typed] key_roundtrip False by metis
        ultimately show ?thesis using Some t same_i by (fastforce simp: registry_has_def)
      qed
    qed
    ultimately show ?thesis using False has' by auto
  qed
qed

section \<open>The steps\<close>

definition service_ok :: "wg_net \<Rightarrow> wg_service \<Rightarrow> bool" where
  "service_ok net w \<longleftrightarrow> tunnels_ok (ws_store w) \<and> mirrors net w"

text \<open>What the registry's other users may not touch: who has which tunnel.\<close>

definition tunnels :: "store \<Rightarrow> (string \<times> string \<times> string \<times> string \<times> string) set" where
  "tunnels s = (\<lambda>(i, e). (i, en_tip e, en_pub e, vps_WGEndpoint (en_VPS e), en_WGPresharedKey e)) `
     {(i, e) \<in> set (st_VPS s). en_tip e \<noteq> [] \<or> en_pub e \<noteq> []}"

text \<open>Keys drawn at random are 32 bytes and no server has the new public key yet.\<close>

definition fresh_keys :: "wg_net \<Rightarrow> wg_key option \<times> wg_key option \<Rightarrow> store \<Rightarrow> bool" where
  "fresh_keys net r s = (case newAgentKeys net r of None \<Rightarrow> True
     | Some (priv, pub, psk) \<Rightarrow> length pub = 32 \<and> list_all (\<lambda>e. en_pub e \<noteq> WGKey_String pub) (ListEntries s))"

definition fresh_id :: "store \<Rightarrow> bool" where
  "fresh_id s \<longleftrightarrow> map_of (st_VPS s) (fst (newID s)) = None"

inductive wg_step :: "wg_net \<Rightarrow> wg_service \<Rightarrow> wg_service \<Rightarrow> bool" for net where
  start: "wg_step net w (wg_Start net w)"
| create: "fresh_keys net r (ws_store w) \<Longrightarrow> fresh_id (ws_store w) \<Longrightarrow> wg_step net w (snd (CreateServer net r now name endpoint w))"
| rekey: "fresh_keys net r (ws_store w) \<Longrightarrow> wg_step net w (snd (Rekey net r i endpoint w))"
| forget: "wg_step net w (snd (wg_Forget net i w))"
| delete: "wg_step net w (snd (delete_server net i w))"
| close: "wg_step net w (wg_Close w)"
| registry: "store_run (ws_store w) s \<Longrightarrow> tunnels s = tunnels (ws_store w) \<Longrightarrow> wg_step net w (w\<lparr>ws_store := s\<rparr>)"

abbreviation wg_run :: "wg_net \<Rightarrow> wg_service \<Rightarrow> wg_service \<Rightarrow> bool" where
  "wg_run net \<equiv> (wg_step net)\<^sup>*\<^sup>*"

text \<open>Coming up installs the registry's peers.\<close>

lemma registry_fold:
  assumes "tunnels_ok s"
  shows "fold (\<lambda>e. put_peer (peer_of net e)) (ListEntries s) Map.empty k = Some p \<longleftrightarrow> registry_has net s k p"
proof -
  have "fold (\<lambda>e. put_peer (peer_of net e)) (ListEntries s) Map.empty k = Some p \<longleftrightarrow>
      (\<exists>e \<in> set (ListEntries s). peer_of net e = Some p \<and> tp_PublicKey p = k) \<or>
      (\<forall>e \<in> set (ListEntries s). \<forall>q. peer_of net e = Some q \<longrightarrow> tp_PublicKey q \<noteq> k) \<and> Map.empty k = Some p"
    by (rule fold_put) (use same_peer [OF assms] in \<open>fastforce simp: ListEntries_def\<close>)
  then show ?thesis by (force simp: registry_has_def ListEntries_def)
qed

lemma mirrors_empty: "ws_tun w = None \<Longrightarrow> mirrors net w"
  by (simp add: mirrors_def table_def)

lemma put_present: "t k = Some p \<Longrightarrow> tp_PublicKey p = k \<Longrightarrow> put_peer (Some p) t = t"
  by (auto simp: put_peer_def)

text \<open>One entry changes, its old key is withdrawn and its new one installed.\<close>

lemma sync_mirrors:
  assumes ipc: "ipc_accepts net" and ok: "tunnels_ok s" and ok': "tunnels_ok (ws_store w')"
    and put: "st_VPS (ws_store w') = map_put i e (st_VPS s)"
    and tab: "table w' = map_option (drop_key (map_of (st_VPS s) i)) tb"
    and m: "\<And>t k p. tb = Some t \<Longrightarrow> t k = Some p \<longleftrightarrow> registry_has net s k p"
  shows "mirrors net (snd (SyncPeer net e w'))"
proof (cases tb)
  case (Some t)
  then have "table (snd (SyncPeer net e w')) = Some (put_peer (peer_of net e) (drop_key (map_of (st_VPS s) i) t))"
    using tab by (simp add: table_SyncPeer [OF ipc])
  then show ?thesis
    unfolding mirrors_def SyncPeer_frame using mirror_put [OF ok ok' put m [OF Some]] by simp
next
  case None
  let ?f = "fold (\<lambda>e. put_peer (peer_of net e)) (ListEntries (ws_store w')) Map.empty"
  have e: "(i, e) \<in> set (st_VPS (ws_store w'))" using put ok by (simp add: in_map_put tunnels_ok_def)
  have "put_peer (peer_of net e) ?f = ?f"
  proof (cases "peer_of net e")
    case (Some p)
    have "registry_has net (ws_store w') (tp_PublicKey p) p" using e Some by (auto simp: registry_has_def)
    then show ?thesis unfolding Some by (intro put_present) (simp_all add: registry_fold [OF ok'])
  qed simp
  then have "table (snd (SyncPeer net e w')) \<in> {None, Some ?f}"
  proof -
    have tn: "table w' = None" using None tab by simp
    show ?thesis unfolding table_SyncPeer [OF ipc] tn using \<open>put_peer (peer_of net e) ?f = ?f\<close> by simp
  qed
  then show ?thesis unfolding mirrors_def SyncPeer_frame using registry_fold [OF ok'] by auto
qed

section \<open>Every step keeps them the same\<close>

lemma apart_sym: "apart e f \<longleftrightarrow> apart f e"
  by (auto simp: apart_def)

lemma tunnels_ok_put:
  assumes ok: "tunnels_ok s" and wf: "store_wf s'" and put: "st_VPS s' = map_put i e (st_VPS s)"
    and e: "tunnel_typed e" "\<And>j f. (j, f) \<in> set (st_VPS s) \<Longrightarrow> j \<noteq> i \<Longrightarrow> apart e f"
  shows "tunnels_ok s'"
proof -
  have g: "gomap_ok (st_VPS s)" using ok by (simp add: tunnels_ok_def)
  have typed: "tunnel_typed f" if "(j, f) \<in> set (st_VPS s')" for j f
    using that tunnels_okD(1) [OF ok] e(1) by (cases "j = i") (auto simp: put in_map_put [OF g])
  have e': "\<And>j f. (j, f) \<in> set (st_VPS s) \<Longrightarrow> j \<noteq> i \<Longrightarrow> apart f e" using e(2) apart_sym by blast
  have "apart f h" if "(j, f) \<in> set (st_VPS s')" "(k, h) \<in> set (st_VPS s')" "j \<noteq> k" for j f k h
    using that tunnels_okD(2) [OF ok, of j f k h] e(2) [of k h] e' [of j f]
    by (cases "j = i"; cases "k = i") (auto simp: put in_map_put [OF g])
  then show ?thesis using wf typed unfolding tunnels_ok_def by blast
qed

lemma fresh_apart:
  assumes "\<And>f. f \<in> set (ListEntries s) \<Longrightarrow> en_tip f \<noteq> en_tip e" "list_all (\<lambda>f. en_pub f \<noteq> en_pub e) (ListEntries s)"
    and "(j, f) \<in> set (st_VPS s)"
  shows "apart e f"
proof -
  have "f \<in> set (ListEntries s)" using assms(3) by (force simp: ListEntries_def)
  then show ?thesis using assms(1,2) by (fastforce simp: apart_def list_all_iff)
qed

lemma unused_tip:
  "allocateTunnelIP s = Inr tip \<Longrightarrow> (\<exists>a. tunnel_host a \<and> tip = ipv4_String a) \<and> (\<forall>f \<in> set (ListEntries s). en_tip f \<noteq> tip)"
  by (erule allocate_spec) (auto simp: used_ips_def image_iff)

text \<open>The entry \<open>CreateWireGuardVPS\<close> inserts.\<close>

lemma CreateWireGuardVPS_put:
  assumes "CreateWireGuardVPS pa now name ep tip pub priv psk s = (e, s')"
  shows "st_VPS s' = map_put (fst (newID s)) e (st_VPS s)" "en_tip e = tip" "en_pub e = pub" "vps_ID (en_VPS e) = fst (newID s)"
  using assms by (auto simp: CreateWireGuardVPS_def Let_def case_prod_beta insert_entry_def newID_def plain_entry_def fresh_vps_def)

lemma create_ok:
  assumes ipc: "ipc_accepts net" and ok: "service_ok net w" and f: "fresh_keys net r (ws_store w)" "fresh_id (ws_store w)"
  shows "service_ok net (snd (CreateServer net r now name endpoint w))"
proof (cases "allocateTunnelIP (ws_store w)")
  case (Inr tip)
  show ?thesis
  proof (cases "newAgentKeys net r")
    case (Some ks)
    obtain priv pub psk where ks: "ks = (priv, pub, psk)" by (cases ks)
    obtain e s' where c: "CreateWireGuardVPS (wn_host net) now name endpoint tip (WGKey_String pub)
        (WGKey_String priv) (WGKey_String psk) (ws_store w) = (e, s')" by fastforce
    note put = CreateWireGuardVPS_put [OF c]
    have t: "tunnels_ok (ws_store w)" using ok by (simp add: service_ok_def)
    have wf: "store_wf s'" using CreateWireGuardVPS_wf [of "ws_store w"] t c by (metis snd_conv tunnels_ok_def)
    have p: "length pub = 32" "list_all (\<lambda>f. en_pub f \<noteq> en_pub e) (ListEntries (ws_store w))"
      using f(1) Some put(3) by (simp_all add: fresh_keys_def ks)
    have t': "tunnels_ok s'"
      by (rule tunnels_ok_put [OF t wf put(1)])
        (use unused_tip [OF Inr] p put fresh_apart [of "ws_store w" e] in \<open>auto simp: tunnel_typed_def\<close>)
    have "mirrors net (snd (SyncPeer net e (w\<lparr>ws_store := s'\<rparr>)))"
      by (rule sync_mirrors [OF ipc t, where i = "fst (newID (ws_store w))" and tb = "table w"])
        (use t' put f(2) ok in \<open>auto simp: fresh_id_def drop_key_simps table_def option.map_ident service_ok_def mirrors_def\<close>)
    then show ?thesis using t' by (simp add: CreateServer_def Inr Some ks c service_ok_def)
  qed (use Inr ok in \<open>simp add: CreateServer_def\<close>)
qed (use ok in \<open>simp add: CreateServer_def\<close>)

lemma UpdateVPSNow_put:
  "map_of (st_VPS s) i = Some e \<Longrightarrow>
   fst (UpdateVPSNow i fn s) = Some (fn e) \<and> st_VPS (snd (UpdateVPSNow i fn s)) = map_put i (fn e) (st_VPS s)"
  by (simp add: UpdateVPSNow_def)

lemma table_store [simp]: "table (w\<lparr>ws_store := s\<rparr>) = table w"
  by (simp add: table_def)

text \<open>Withdrawing the key an entry has.\<close>

lemma table_drop:
  assumes "ipc_accepts net"
  shows "table (wg_RemovePeer net (en_pub e) w) = map_option (drop_key (Some e)) (table w)"
    and "table (if en_pub e \<noteq> [] then wg_RemovePeer net (en_pub e) w else w) = map_option (drop_key (Some e)) (table w)"
proof -
  show d: "table (wg_RemovePeer net (en_pub e) w) = map_option (drop_key (Some e)) (table w)"
    by (cases "ParseWGKey (en_pub e)") (simp_all add: table_RemovePeer [OF assms] drop_key_simps option.map_ident)
  show "table (if en_pub e \<noteq> [] then wg_RemovePeer net (en_pub e) w else w) = map_option (drop_key (Some e)) (table w)"
    using d by (cases "en_pub e = []") (simp_all add: drop_key_simps empty_key option.map_ident)
qed

lemma mirrorsD: "mirrors net w \<Longrightarrow> table w = Some t \<Longrightarrow> t k = Some p \<longleftrightarrow> registry_has net (ws_store w) k p"
  by (simp add: mirrors_def)

lemma rekey_fields [simp]:
  "en_tip (rekey_entry tip ep ks e) = tip" "en_pub (rekey_entry tip ep ks e) = WGKey_String (fst (snd ks))"
  "vps_ID (en_VPS (rekey_entry tip ep ks e)) = vps_ID (en_VPS e)"
  by (cases ks; simp add: rekey_entry_def)+

lemma rekey_ok:
  assumes ipc: "ipc_accepts net" and ok: "service_ok net w" and f: "fresh_keys net r (ws_store w)"
  shows "service_ok net (snd (Rekey net r i endpoint w))"
proof (cases "GetVPS i (ws_store w)")
  case (Some cur)
  then have cur: "map_of (st_VPS (ws_store w)) i = Some cur" by (simp add: GetVPS_def)
  let ?tip = "if en_tip cur = [] then allocateTunnelIP (ws_store w) else Inr (en_tip cur)"
  show ?thesis
  proof (cases ?tip)
    case (Inr tip)
    show ?thesis
    proof (cases "newAgentKeys net r")
      case keys: (Some ks)
      let ?e = "rekey_entry tip endpoint ks cur"
      let ?s = "snd (UpdateVPSNow i (rekey_entry tip endpoint ks) (ws_store w))"
      let ?w2 = "if en_pub cur \<noteq> [] then wg_RemovePeer net (en_pub cur) (w\<lparr>ws_store := ?s\<rparr>) else w\<lparr>ws_store := ?s\<rparr>"
      have t: "tunnels_ok (ws_store w)" and m: "mirrors net w" using ok by (simp_all add: service_ok_def)
      note put = UpdateVPSNow_put [OF cur, of "rekey_entry tip endpoint ks"]
      have wf: "store_wf ?s" using t by (intro UpdateVPSNow_wf) (simp_all add: tunnels_ok_def)
      have p: "length (fst (snd ks)) = 32" "list_all (\<lambda>f. en_pub f \<noteq> en_pub ?e) (ListEntries (ws_store w))"
        using f keys by (auto simp: fresh_keys_def split: prod.splits)
      have typed: "tunnel_typed ?e"
        using Inr p(1) unused_tip [of "ws_store w" tip] tunnels_okD(1) [OF t map_of_SomeD [OF cur]]
        by (auto simp: tunnel_typed_def split: if_splits)
      have apart: "apart ?e h" if h: "(j, h) \<in> set (st_VPS (ws_store w))" "j \<noteq> i" for j h
      proof -
        have in_s: "h \<in> set (ListEntries (ws_store w))" using h by (force simp: ListEntries_def)
        then have "tip \<noteq> en_tip h \<or> tip = []"
          using Inr unused_tip [of "ws_store w" tip] tunnels_okD(2) [OF t map_of_SomeD [OF cur] h(1)] h(2)
          by (auto simp: apart_def split: if_splits)
        then show ?thesis using p(2) in_s by (auto simp: apart_def list_all_iff)
      qed
      have t': "tunnels_ok ?s" by (rule tunnels_ok_put [OF t wf _ typed apart]) (use put in simp)
      have st: "ws_store ?w2 = ?s" by simp
      have "mirrors net (snd (SyncPeer net ?e ?w2))"
      proof (rule sync_mirrors [OF ipc t, where i = i and tb = "table w"])
        show "table ?w2 = map_option (drop_key (map_of (st_VPS (ws_store w)) i)) (table w)"
          unfolding cur table_drop(2) [OF ipc] table_store ..
      qed (use t' put st mirrorsD [OF m] in auto)
      moreover have "snd (Rekey net r i endpoint w) = snd (SyncPeer net ?e ?w2)"
        using put unfolding Rekey_def Some
        by (simp add: Inr keys Let_def case_prod_beta split: option.split)
      ultimately show ?thesis using t' by (simp add: service_ok_def)
    qed (use Some Inr ok in \<open>auto simp: Rekey_def split: if_splits sum.splits\<close>)
  qed (use Some ok in \<open>auto simp: Rekey_def split: if_splits sum.splits\<close>)
qed (use ok in \<open>simp add: Rekey_def\<close>)

lemma forget_fields [simp]:
  "en_tip (forget_entry e) = []" "en_pub (forget_entry e) = []" "vps_ID (en_VPS (forget_entry e)) = vps_ID (en_VPS e)"
  "peer_of net (forget_entry e) = None" "tunnel_typed (forget_entry e)" "apart (forget_entry e) f"
  by (simp_all add: forget_entry_def peer_of_def HasWireGuardPeer_def tunnel_typed_def apart_def)

text \<open>A server without a tunnel: its key is withdrawn and its entry forgotten.\<close>

lemma drop_mirrors:
  assumes ok: "service_ok net w" and cur: "map_of (st_VPS (ws_store w)) i = Some cur"
    and t': "tunnels_ok s'" and put: "st_VPS s' = map_put i (forget_entry cur) (st_VPS (ws_store w))"
    and tab: "table w' = map_option (drop_key (Some cur)) (table w)"
    and same: "\<And>k p. registry_has net (ws_store w') k p \<longleftrightarrow> registry_has net s' k p"
  shows "mirrors net w'"
proof -
  have t: "tunnels_ok (ws_store w)" and m: "mirrors net w" using ok by (simp_all add: service_ok_def)
  show ?thesis
    unfolding mirrors_def same
  proof (intro allI impI)
    fix tb k p assume "table w' = Some tb"
    then obtain u where u: "table w = Some u" "tb = drop_key (Some cur) u" using tab by auto
    show "tb k = Some p \<longleftrightarrow> registry_has net s' k p"
      using mirror_put [OF t t' put mirrorsD [OF m u(1)], of k p] u(2) cur by simp
  qed
qed

lemma forgotten_ok:
  assumes ok: "service_ok net w" and cur: "map_of (st_VPS (ws_store w)) i = Some cur"
  shows "tunnels_ok (snd (UpdateVPSNow i forget_entry (ws_store w)))"
proof -
  have t: "tunnels_ok (ws_store w)" using ok by (simp add: service_ok_def)
  show ?thesis
  proof (rule tunnels_ok_put [OF t])
    show "store_wf (snd (UpdateVPSNow i forget_entry (ws_store w)))"
      using t by (intro UpdateVPSNow_wf) (simp_all add: tunnels_ok_def)
  qed (use UpdateVPSNow_put [OF cur] in auto)
qed

lemma forget_ok:
  assumes ipc: "ipc_accepts net" and ok: "service_ok net w"
  shows "service_ok net (snd (wg_Forget net i w))"
proof (cases "GetVPS i (ws_store w)")
  case (Some cur)
  then have cur: "map_of (st_VPS (ws_store w)) i = Some cur" by (simp add: GetVPS_def)
  let ?s = "snd (UpdateVPSNow i forget_entry (ws_store w))"
  have f: "snd (wg_Forget net i w) = (wg_RemovePeer net (en_pub cur) w)\<lparr>ws_store := ?s\<rparr>"
    by (simp add: wg_Forget_def Some Let_def case_prod_beta)
  have "mirrors net (snd (wg_Forget net i w))"
    by (rule drop_mirrors [OF ok cur forgotten_ok [OF ok cur]])
      (use UpdateVPSNow_put [OF cur] table_drop(1) [OF ipc] in \<open>auto simp: f\<close>)
  then show ?thesis using forgotten_ok [OF ok cur] by (simp add: service_ok_def f)
qed (use ok in \<open>simp add: wg_Forget_def\<close>)

lemma delete_ok:
  assumes ipc: "ipc_accepts net" and ok: "service_ok net w"
  shows "service_ok net (snd (delete_server net i w))"
proof (cases "GetVPS i (ws_store w)")
  case (Some cur)
  then have cur: "map_of (st_VPS (ws_store w)) i = Some cur" by (simp add: GetVPS_def)
  let ?s = "snd (DeleteVPS i (ws_store w))"
  have t: "tunnels_ok (ws_store w)" using ok by (simp add: service_ok_def)
  have st: "st_VPS ?s = map_del i (st_VPS (ws_store w))" by (simp add: DeleteVPS_def cur Let_def)
  have f: "snd (delete_server net i w) = wg_RemovePeer net (en_pub cur) (w\<lparr>ws_store := ?s\<rparr>)"
    by (simp add: delete_server_def Some)
  have g: "gomap_ok (st_VPS (ws_store w))" using t by (simp add: tunnels_ok_def)
  have t': "tunnels_ok ?s"
    using t DeleteVPS_wf [of "ws_store w" i] unfolding tunnels_ok_def st by (fastforce simp: in_map_del)
  have "mirrors net (snd (delete_server net i w))"
  proof (rule drop_mirrors [OF ok cur forgotten_ok [OF ok cur]])
    show "table (snd (delete_server net i w)) = map_option (drop_key (Some cur)) (table w)"
      unfolding f table_drop(1) [OF ipc] table_store ..
    show "registry_has net (ws_store (snd (delete_server net i w))) k p \<longleftrightarrow>
        registry_has net (snd (UpdateVPSNow i forget_entry (ws_store w))) k p" for k p
      unfolding registry_has_def f RemovePeer_frame
      using UpdateVPSNow_put [OF cur, of forget_entry] by (auto simp: st in_map_put [OF g] in_map_del split: if_splits)
  qed (use UpdateVPSNow_put [OF cur] in auto)
  then show ?thesis using t' by (simp add: service_ok_def f)
qed (use ok in \<open>simp add: delete_server_def\<close>)

lemma start_ok:
  assumes ipc: "ipc_accepts net" and ok: "service_ok net w"
  shows "service_ok net (wg_Start net w)"
proof (cases "ws_tun w")
  case (Some calls)
  then show ?thesis
    using ok by (simp add: wg_Start_def Let_def ensureUpLocked_def service_ok_def mirrors_def table_def)
next
  case None
  have t: "tunnels_ok (ws_store w)" using ok by (simp add: service_ok_def)
  let ?w = "w\<lparr>ws_serving := True\<rparr>"
  let ?f = "fold (\<lambda>e. put_peer (peer_of net e)) (ListEntries (ws_store w)) Map.empty"
  have "table (snd (ensureUpLocked net ?w)) \<in> {None, Some ?f}"
    using None by (simp add: ensureUpLocked_def table_install [OF ipc] split: option.split)
      (simp add: table_def device_table_def)
  moreover have "table ?w = None" using None by (simp add: table_def)
  ultimately have "table (wg_Start net w) \<in> {None, Some ?f}" by (simp add: wg_Start_def Let_def)
  moreover have "ws_store (wg_Start net w) = ws_store w" by (simp add: wg_Start_def Let_def)
  ultimately show ?thesis using registry_fold [OF t] t by (auto simp: service_ok_def mirrors_def)
qed

lemma tunnels_in: "(i, e) \<in> set (st_VPS s) \<Longrightarrow> en_tip e \<noteq> [] \<or> en_pub e \<noteq> [] \<Longrightarrow>
    (i, en_tip e, en_pub e, vps_WGEndpoint (en_VPS e), en_WGPresharedKey e) \<in> tunnels s"
  by (force simp: tunnels_def)

lemma tunnels_out:
  assumes "(i, a, b, c, d) \<in> tunnels s"
  obtains e where "(i, e) \<in> set (st_VPS s)" "en_tip e = a" "en_pub e = b" "vps_WGEndpoint (en_VPS e) = c" "en_WGPresharedKey e = d"
  using assms by (auto simp: tunnels_def)

lemma same_tunnels:
  assumes "tunnels s = tunnels s'" "(i, e) \<in> set (st_VPS s)" "en_tip e \<noteq> [] \<or> en_pub e \<noteq> []"
  obtains f where "(i, f) \<in> set (st_VPS s')" "en_tip f = en_tip e" "en_pub f = en_pub e" "\<And>net. peer_of net f = peer_of net e"
proof -
  have "(i, en_tip e, en_pub e, vps_WGEndpoint (en_VPS e), en_WGPresharedKey e) \<in> tunnels s'"
    using tunnels_in [OF assms(2,3)] assms(1) by simp
  then obtain f where f: "(i, f) \<in> set (st_VPS s')" "en_tip f = en_tip e" "en_pub f = en_pub e"
      "vps_WGEndpoint (en_VPS f) = vps_WGEndpoint (en_VPS e)" "en_WGPresharedKey f = en_WGPresharedKey e"
    by (rule tunnels_out)
  have "peer_of net f = peer_of net e" for net by (simp only: peer_of_def HasWireGuardPeer_def f)
  then show ?thesis using that f by blast
qed

lemma registry_has_tunnels:
  assumes "tunnels s = tunnels s'" "registry_has net s k p"
  shows "registry_has net s' k p"
proof -
  obtain i e where e: "(i, e) \<in> set (st_VPS s)" and p: "peer_of net e = Some p" "tp_PublicKey p = k"
    using assms(2) by (auto simp: registry_has_def)
  then have "en_tip e \<noteq> []" by (auto simp: peer_of_def HasWireGuardPeer_def split: if_splits)
  then obtain f where "(i, f) \<in> set (st_VPS s')" "\<And>net. peer_of net f = peer_of net e"
    using same_tunnels [OF assms(1) e] by blast
  then show ?thesis unfolding registry_has_def using p by (intro bexI [of _ "(i, f)"]) simp_all
qed

lemma tunnels_ok_same:
  assumes ok: "tunnels_ok s" and wf: "store_wf s'" and eq: "tunnels s' = tunnels s"
  shows "tunnels_ok s'"
proof -
  have "tunnel_typed e \<and> (\<forall>(j, f) \<in> set (st_VPS s'). i \<noteq> j \<longrightarrow> apart e f)" if e: "(i, e) \<in> set (st_VPS s')" for i e
  proof (cases "en_tip e \<noteq> [] \<or> en_pub e \<noteq> []")
    case True
    obtain e0 where e0: "(i, e0) \<in> set (st_VPS s)" "en_tip e0 = en_tip e" "en_pub e0 = en_pub e"
      using same_tunnels [OF eq e True] .
    have "apart e f" if f: "(j, f) \<in> set (st_VPS s')" "i \<noteq> j" for j f
    proof (cases "en_tip f \<noteq> [] \<or> en_pub f \<noteq> []")
      case True
      obtain f0 where f0: "(j, f0) \<in> set (st_VPS s)" "en_tip f0 = en_tip f" "en_pub f0 = en_pub f"
        using same_tunnels [OF eq f(1) True] .
      show ?thesis using tunnels_okD(2) [OF ok e0(1) f0(1) f(2)] e0(2,3) f0(2,3) by (simp add: apart_def)
    qed (auto simp: apart_def)
    then show ?thesis using tunnels_okD(1) [OF ok e0(1)] e0 by (auto simp: tunnel_typed_def)
  qed (auto simp: apart_def tunnel_typed_def)
  then show ?thesis using wf unfolding tunnels_ok_def by blast
qed

lemma close_ok: "service_ok net w \<Longrightarrow> service_ok net (wg_Close w)"
  by (simp add: service_ok_def wg_Close_def mirrors_empty)

lemma step_ok:
  assumes ipc: "ipc_accepts net"
  shows "wg_step net w w' \<Longrightarrow> service_ok net w \<Longrightarrow> service_ok net w'"
proof (induction rule: wg_step.induct)
  case (registry w s)
  have t: "tunnels_ok (ws_store w)" using registry(3) by (simp add: service_ok_def)
  have "store_wf s" using store_run_wf [OF registry(1)] t by (simp add: tunnels_ok_def)
  then have "tunnels_ok s" by (rule tunnels_ok_same [OF t _ registry(2)])
  moreover have "registry_has net s k p \<longleftrightarrow> registry_has net (ws_store w) k p" for k p
    using registry(2) registry_has_tunnels [of s "ws_store w"] registry_has_tunnels [of "ws_store w" s] by metis
  ultimately show ?case using registry(3) by (simp add: service_ok_def mirrors_def)
qed (simp_all add: start_ok [OF ipc] create_ok [OF ipc] rekey_ok [OF ipc] forget_ok [OF ipc] delete_ok [OF ipc] close_ok)

lemma run_ok: "wg_run net w w' \<Longrightarrow> ipc_accepts net \<Longrightarrow> service_ok net w \<Longrightarrow> service_ok net w'"
  by (induction rule: rtranclp_induct) (auto intro: step_ok)

text \<open>A service that has just been made: keys and addresses are in order and the tunnel is down.\<close>

lemma fresh_service: "tunnels_ok (ws_store w) \<Longrightarrow> ws_tun w = None \<Longrightarrow> service_ok net w"
  by (simp add: service_ok_def mirrors_empty)

text \<open>What a successful \<open>Rekey\<close> leaves in the registry.\<close>

lemma rekey_store:
  assumes "map_of (st_VPS (ws_store w)) i = Some cur" "Rekey net r i endpoint w = (Inr e, w')"
  obtains tip ks where "newAgentKeys net r = Some ks"
    "st_VPS (ws_store w') = map_put i (rekey_entry tip endpoint ks cur) (st_VPS (ws_store w))"
proof -
  have g: "GetVPS i (ws_store w) = Some cur" using assms(1) by (simp add: GetVPS_def)
  obtain tip where tip: "(if en_tip cur = [] then allocateTunnelIP (ws_store w) else Inr (en_tip cur)) = Inr tip"
    using assms(2) by (auto simp: Rekey_def g split: sum.splits if_splits)
  obtain ks where ks: "newAgentKeys net r = Some ks"
    using assms(2) by (auto simp: Rekey_def g tip split: option.splits)
  note put = UpdateVPSNow_put [OF assms(1), of "rekey_entry tip endpoint ks"]
  let ?s = "snd (UpdateVPSNow i (rekey_entry tip endpoint ks) (ws_store w))"
  let ?w2 = "if en_pub cur \<noteq> [] then wg_RemovePeer net (en_pub cur) (w\<lparr>ws_store := ?s\<rparr>) else w\<lparr>ws_store := ?s\<rparr>"
  have "w' = snd (Rekey net r i endpoint w)" using assms(2) by simp
  also have "\<dots> = snd (SyncPeer net (rekey_entry tip endpoint ks cur) ?w2)"
    using put unfolding Rekey_def g
    by (simp add: tip ks Let_def case_prod_beta split: option.split)
  finally have "ws_store w' = ?s" by simp
  then show ?thesis using that ks put by simp
qed

section \<open>A small service\<close>

definition demo_parse :: "string \<Rightarrow> ip_addr option" where
  "demo_parse s = (case Split s (CHR ''.'') of
      [a, b, c, d] \<Rightarrow> Some (V4 (of_int (((decimal a * 256 + decimal b) * 256 + decimal c) * 256 + decimal d)))
    | _ \<Rightarrow> None)"

definition demo_net :: wg_net where
  "demo_net = \<lparr> wn_PublicKey = (\<lambda>k. Some (map (\<lambda>b. b + 1) k)), wn_Up = None, wn_Listen = None, wn_IpcSet = (\<lambda>_. None),
     wn_ParseAddr = demo_parse, wn_ParseAddrPort = (\<lambda>_. None),
     wn_String = (\<lambda>a. case a of V4 w \<Rightarrow> ipv4_String w | V6 _ _ \<Rightarrow> ''::''),
     wn_host = (\<lambda>_. None), wn_Lookup = (\<lambda>_. None), wn_own = None \<rparr>"

definition demo_tunnel :: wg_service where
  "demo_tunnel = \<lparr> ws_store = NewStore 0 None None True demo_rand, ws_priv = replicate 32 8, ws_pub = replicate 32 9,
     ws_tun = None, ws_err = [], ws_serving = False \<rparr>"

definition demo_draw :: "wg_key option \<times> wg_key option" where
  "demo_draw = (Some (replicate 32 72), Some (replicate 32 5))"

definition demo_up :: wg_service where
  "demo_up = wg_Start demo_net (snd (CreateServer demo_net demo_draw 5 ''db'' ''203.0.113.9:51931'' demo_tunnel))"

lemma demo_parse_law: "parse_law demo_net"
  unfolding parse_law_def
proof
  fix a :: "32 word"
  let ?o = "\<lambda>i. Itoa (unat (drop_bit i a AND 0xFF))"
  have "Split (ipv4_String a) (CHR ''.'') = [?o 24, ?o 16, ?o 8, ?o 0]"
    unfolding split_ipv4 by (simp only: list.map)
  then have "demo_parse (ipv4_String a) =
      Some (V4 (of_int (((decimal (?o 24) * 256 + decimal (?o 16)) * 256 + decimal (?o 8)) * 256 + decimal (?o 0))))"
    by (simp only: demo_parse_def list.case)
  also have "((decimal (?o 24) * 256 + decimal (?o 16)) * 256 + decimal (?o 8)) * 256 + decimal (?o 0) =
      int (((unat a div 16777216 mod 256 * 256 + unat a div 65536 mod 256) * 256 + unat a div 256 mod 256) * 256 + unat a mod 256)"
    unfolding decimal_Itoa octet by simp
  also have "\<dots> = int (unat a)" unfolding high_octet octets [of "unat a", symmetric] ..
  finally show "wn_ParseAddr demo_net (ipv4_String a) = Some (V4 a)" by (simp add: demo_net_def)
qed

lemma demo_accepts: "ipc_accepts demo_net"
  by (simp add: ipc_accepts_def demo_net_def)

lemma demo_start: "tunnels_ok (ws_store demo_tunnel)" "ws_tun demo_tunnel = None"
proof -
  have "st_VPS (ws_store demo_tunnel) = []" by code_simp
  moreover have "store_wf (ws_store demo_tunnel)" unfolding demo_tunnel_def by (simp, rule NewStore_wf) simp
  ultimately show "tunnels_ok (ws_store demo_tunnel)" by (simp add: tunnels_ok_def)
qed (simp add: demo_tunnel_def)

lemma demo_run: "wg_run demo_net demo_tunnel demo_up"
proof -
  have "fresh_keys demo_net demo_draw (ws_store demo_tunnel)" "fresh_id (ws_store demo_tunnel)" by code_simp+
  then have "wg_step demo_net demo_tunnel (snd (CreateServer demo_net demo_draw 5 ''db'' ''203.0.113.9:51931'' demo_tunnel))"
    by (rule wg_step.create)
  then show ?thesis unfolding demo_up_def by (rule converse_rtranclp_into_rtranclp) (blast intro: wg_step.start)
qed

definition demo_key :: wg_key where
  "demo_key = map (\<lambda>b. b + 1) (clamp (replicate 32 72))"

text \<open>What the examples need to know about \<open>demo_up\<close>, computed at once.\<close>

definition demo_facts :: "wg_service \<Rightarrow> bool" where
  "demo_facts w \<longleftrightarrow> ws_tun w \<noteq> None \<and> ws_tun (snd (delete_server demo_net ''1010101010101010'' w)) \<noteq> None \<and>
     (case ListEntries (ws_store w) of
        [e] \<Rightarrow> HasWireGuardPeer e \<and> (case peer_of demo_net e of
                 Some p \<Rightarrow> tp_PublicKey p = demo_key \<and> tp_AllowedIP p = V4 0x0A570002 | None \<Rightarrow> False)
      | _ \<Rightarrow> False) \<and>
     (case GetVPS ''1010101010101010'' (ws_store w) of Some e \<Rightarrow> en_pub e = WGKey_String demo_key | None \<Rightarrow> False) \<and>
     (case handleAgentWS w ''10.87.0.2:5000'' of ServeAs _ \<Rightarrow> True | _ \<Rightarrow> False)"

lemma demo_facts: "demo_facts demo_up"
  by code_simp

lemma demo_known:
  obtains e calls calls' cur e' p where "ListEntries (ws_store demo_up) = [e]" "HasWireGuardPeer e"
    "peer_of demo_net e = Some p" "tp_PublicKey p = demo_key" "tp_AllowedIP p = V4 0x0A570002"
    "ws_tun demo_up = Some calls" "ws_tun (snd (delete_server demo_net ''1010101010101010'' demo_up)) = Some calls'"
    "GetVPS ''1010101010101010'' (ws_store demo_up) = Some cur" "en_pub cur = WGKey_String demo_key"
    "handleAgentWS demo_up ''10.87.0.2:5000'' = ServeAs e'"
  using demo_facts unfolding demo_facts_def by (auto split: list.splits option.splits ws_answer.splits)

section \<open>The properties\<close>

text \<open>
  C6. The device and the registry never disagree: after any sequence of starting, adding, rekeying,
  switching back, deleting and closing, with any other use of the registry in between that leaves the
  tunnels alone, a running tunnel holds exactly one peer for every server that has keys, with that
  server's preshared key, endpoint and tunnel address, and no other peer.
\<close>

theorem device_mirrors_registry:
  assumes "ipc_accepts net" "tunnels_ok (ws_store w)" "ws_tun w = None" "wg_run net w w'" "ws_tun w' = Some calls"
  shows "device_table calls k = Some p \<longleftrightarrow> (\<exists>e \<in> set (ListEntries (ws_store w')). peer_of net e = Some p \<and> tp_PublicKey p = k)"
proof -
  have "mirrors net w'" using run_ok [OF assms(4,1) fresh_service [OF assms(2,3)]] by (simp add: service_ok_def)
  then have "device_table calls k = Some p \<longleftrightarrow> registry_has net (ws_store w') k p"
    using mirrorsD [of net w' "device_table calls"] assms(5) by (simp add: table_def)
  then show ?thesis by (force simp: registry_has_def ListEntries_def)
qed

theorem device_mirrors_registry_witness:
  "\<exists>p. device_table (the (ws_tun demo_up)) demo_key = Some p \<and> tp_AllowedIP p = V4 0x0A570002"
proof -
  obtain e calls p where "ListEntries (ws_store demo_up) = [e]" "peer_of demo_net e = Some p"
      "tp_PublicKey p = demo_key" "tp_AllowedIP p = V4 0x0A570002" "ws_tun demo_up = Some calls"
    by (rule demo_known)
  then show ?thesis
    using device_mirrors_registry [OF demo_accepts demo_start demo_run, of calls demo_key p] by simp
qed

text \<open>
  C7. A source address inside the tunnel is proof of who is calling: when a socket opened through the
  tunnel is served, it is served as the one server pinned to the address it comes from, and every key
  the device lets use that address is that server's own.
\<close>

theorem tunnel_address_identifies_server:
  assumes "ipc_accepts net" "parse_law net" "tunnels_ok (ws_store w)" "ws_tun w = None" "wg_run net w w'"
    and "handleAgentWS w' remote = ServeAs e"
  shows "SplitHost remote = Some (en_tip e) \<and> e \<in> set (ListEntries (ws_store w')) \<and>
    (\<forall>f \<in> set (ListEntries (ws_store w')). en_tip f = en_tip e \<longrightarrow> f = e) \<and>
    (\<forall>calls k p a. ws_tun w' = Some calls \<and> device_table calls k = Some p \<and> tp_AllowedIP p = V4 a \<and>
       ipv4_String a = en_tip e \<longrightarrow> WGKey_String k = en_pub e)"
proof -
  have ok: "tunnels_ok (ws_store w')" "mirrors net w'"
    using run_ok [OF assms(5,1) fresh_service [OF assms(3,4)]] by (simp_all add: service_ok_def)
  have found: "SplitHost remote = Some (en_tip e)" "HasWireGuardPeer e" "\<exists>i. (i, e) \<in> set (st_VPS (ws_store w'))"
    using assms(6) by (auto simp: handleAgentWS_def FindByTunnelIP_def split: option.splits if_splits dest!: find_entry_Some)
  then obtain i where e: "(i, e) \<in> set (st_VPS (ws_store w'))" by blast
  have uniq: "f = e" if f: "(j, f) \<in> set (st_VPS (ws_store w'))" "en_tip f = en_tip e" for j f
  proof -
    have "i = j" using tunnels_okD(2) [OF ok(1) e f(1)] f(2) found(2) by (auto simp: apart_def HasWireGuardPeer_def)
    then show ?thesis using e f(1) ok(1) by (metis gomap_lookup_iff option.inject store_wf_gomap tunnels_ok_def)
  qed
  have "WGKey_String k = en_pub e"
    if "ws_tun w' = Some calls" "device_table calls k = Some p" "tp_AllowedIP p = V4 a" "ipv4_String a = en_tip e" for calls k p a
  proof -
    have "registry_has net (ws_store w') k p"
      using mirrorsD [OF ok(2), of "device_table calls"] that(1,2) by (simp add: table_def)
    then obtain j f where f: "(j, f) \<in> set (st_VPS (ws_store w'))" "peer_of net f = Some p" "tp_PublicKey p = k"
      by (auto simp: registry_has_def)
    note typed = tunnels_okD(1) [OF ok(1) f(1)]
    have "en_tip f = en_tip e"
      using peer_of_typed [OF typed assms(2) peer_key(3) [OF typed f(2)]] f(2) that(3,4) by auto
    then show ?thesis using uniq [OF f(1)] peer_key(1) [OF typed f(2)] f(3) by simp
  qed
  moreover have "\<forall>f \<in> set (ListEntries (ws_store w')). en_tip f = en_tip e \<longrightarrow> f = e"
    using uniq by (auto simp: ListEntries_def)
  ultimately show ?thesis using found(1) e by (force simp: ListEntries_def)
qed

theorem tunnel_address_identifies_server_witness:
  "\<exists>e. handleAgentWS demo_up ''10.87.0.2:5000'' = ServeAs e \<and>
     (\<forall>calls k p a. ws_tun demo_up = Some calls \<and> device_table calls k = Some p \<and> tp_AllowedIP p = V4 a \<and>
       ipv4_String a = en_tip e \<longrightarrow> WGKey_String k = en_pub e)"
proof -
  obtain e where h: "handleAgentWS demo_up ''10.87.0.2:5000'' = ServeAs e" by (rule demo_known)
  with tunnel_address_identifies_server [OF demo_accepts demo_parse_law demo_start demo_run h] show ?thesis by blast
qed

text \<open>
  C8. A withdrawn key is cut off at once: when a server is switched back, deleted or given a new key,
  a running tunnel no longer has a peer with the key it had.
\<close>

theorem withdrawn_key_is_cut_off:
  assumes "ipc_accepts net" "service_ok net w" "fresh_keys net r (ws_store w)"
    and "GetVPS i (ws_store w) = Some cur" "length k = 32" "en_pub cur = WGKey_String k"
    and "w' = snd (wg_Forget net i w) \<or> w' = snd (delete_server net i w) \<or> (\<exists>e. Rekey net r i endpoint w = (Inr e, w'))"
    and "ws_tun w' = Some calls"
  shows "device_table calls k = None"
proof -
  have cur: "map_of (st_VPS (ws_store w)) i = Some cur" "(i, cur) \<in> set (st_VPS (ws_store w))"
    using assms(4) by (simp_all add: GetVPS_def map_of_SomeD)
  have t: "tunnels_ok (ws_store w)" using assms(2) by (simp add: service_ok_def)
  have g: "gomap_ok (st_VPS (ws_store w))" using t by (simp add: tunnels_ok_def)
  have ok: "service_ok net w'"
    using assms(7) forget_ok [OF assms(1,2), of i] delete_ok [OF assms(1,2), of i] rekey_ok [OF assms(1-3), of i endpoint]
    by (metis snd_conv)
  have others: "en_pub f \<noteq> WGKey_String k" if "(j, f) \<in> set (st_VPS (ws_store w))" "j \<noteq> i" for j f
    using tunnels_okD(2) [OF t cur(2) that(1)] that(2) assms(5,6) by (auto simp: apart_def)
  have gone: "en_pub f \<noteq> WGKey_String k" if f: "(j, f) \<in> set (st_VPS (ws_store w'))" for j f
    using assms(7)
  proof (elim disjE exE)
    assume "w' = snd (wg_Forget net i w)"
    then show ?thesis
      using f others UpdateVPSNow_put [OF cur(1), of forget_entry] assms(4) key_ne [OF assms(5), symmetric]
      by (cases "j = i") (auto simp: wg_Forget_def Let_def case_prod_beta in_map_put [OF g])
  next
    assume "w' = snd (delete_server net i w)"
    then show ?thesis
      using f others assms(4) by (auto simp: delete_server_def DeleteVPS_def Let_def cur(1) in_map_del)
  next
    fix e assume "Rekey net r i endpoint w = (Inr e, w')"
    then obtain tip ks where ks: "newAgentKeys net r = Some ks"
        "st_VPS (ws_store w') = map_put i (rekey_entry tip endpoint ks cur) (st_VPS (ws_store w))"
      using rekey_store [OF cur(1), of net r endpoint] assms(4) by metis
    have "WGKey_String (fst (snd ks)) \<noteq> en_pub cur"
      using assms(3) ks(1) cur(2) by (auto simp: fresh_keys_def list_all_iff ListEntries_def split: prod.splits)
    then show ?thesis using f others ks(2) assms(6) by (cases "j = i") (auto simp: in_map_put [OF g])
  qed
  show ?thesis
  proof (rule ccontr)
    assume "device_table calls k \<noteq> None"
    then obtain p where "device_table calls k = Some p" by blast
    then have "registry_has net (ws_store w') k p"
      using ok mirrorsD [of net w' "device_table calls"] assms(8) by (simp add: service_ok_def table_def)
    then obtain j f where f: "(j, f) \<in> set (st_VPS (ws_store w'))" "peer_of net f = Some p" "tp_PublicKey p = k"
      by (auto simp: registry_has_def)
    have "tunnel_typed f" using ok f(1) by (auto simp: service_ok_def dest: tunnels_okD(1))
    then show False using peer_key(1) [OF _ f(2)] f(3) gone [OF f(1)] by simp
  qed
qed

theorem withdrawn_key_is_cut_off_witness:
  "device_table (the (ws_tun (snd (delete_server demo_net ''1010101010101010'' demo_up)))) demo_key = None"
proof -
  obtain calls' cur where d: "ws_tun (snd (delete_server demo_net ''1010101010101010'' demo_up)) = Some calls'"
      "GetVPS ''1010101010101010'' (ws_store demo_up) = Some cur" "en_pub cur = WGKey_String demo_key"
    by (rule demo_known)
  have ok: "service_ok demo_net demo_up" by (rule run_ok [OF demo_run demo_accepts fresh_service [OF demo_start]])
  have f: "fresh_keys demo_net (None, None) (ws_store demo_up)"
    by (simp add: fresh_keys_def newAgentKeys_def GenerateWGPrivateKey_def)
  have "length demo_key = 32" by (simp add: demo_key_def clamp_def)
  from withdrawn_key_is_cut_off [OF demo_accepts ok f d(2) this d(3) _ d(1)] d(1) show ?thesis by simp
qed

text \<open>
  C9. The tunnels of the registry are always well typed: in every state the service can reach, a server
  that holds keys has a public key of 32 bytes and an address that is a host of the tunnel's network,
  and installing it as a peer cannot fail for its key or its address.
\<close>

theorem tunnels_are_well_typed:
  assumes "ipc_accepts net" "parse_law net" "tunnels_ok (ws_store w)" "ws_tun w = None" "wg_run net w w'"
    and "e \<in> set (ListEntries (ws_store w'))" "HasWireGuardPeer e"
  shows "(\<exists>k. ParseWGKey (en_pub e) = Inr k \<and> length k = 32) \<and>
    (\<exists>a. en_tip e = ipv4_String a \<and> in_tunnel a \<and> host_octet_ok a) \<and>
    fst (setPeerLocked net e w') = None"
proof -
  have ok: "tunnels_ok (ws_store w')"
    using run_ok [OF assms(5,1) fresh_service [OF assms(3,4)]] by (simp add: service_ok_def)
  obtain i where "(i, e) \<in> set (st_VPS (ws_store w'))" using assms(6) by (auto simp: ListEntries_def)
  then have typed: "tunnel_typed e" using ok by (rule tunnels_okD(1) [rotated])
  obtain k where k: "length k = 32" "en_pub e = WGKey_String k"
    using typed assms(7) by (auto simp: tunnel_typed_def HasWireGuardPeer_def)
  obtain a where a: "tunnel_host a" "en_tip e = ipv4_String a"
    using typed assms(7) by (auto simp: tunnel_typed_def HasWireGuardPeer_def)
  have "fst (ipc net c v) = None" for c v
    using assms(1) by (simp add: ipc_def ipc_accepts_def split: option.split)
  then have "fst (setPeerLocked net e w') = None"
    using assms(2) k a by (simp add: setPeerLocked_def key_roundtrip parse_law_def Let_def case_prod_beta)
  then show ?thesis using k a by (auto simp: key_roundtrip tunnel_host_def)
qed

theorem tunnels_are_well_typed_witness:
  "\<exists>e. ListEntries (ws_store demo_up) = [e] \<and> fst (setPeerLocked demo_net e demo_up) = None"
proof -
  obtain e where e: "ListEntries (ws_store demo_up) = [e]" "HasWireGuardPeer e" by (rule demo_known)
  then show ?thesis
    using tunnels_are_well_typed [OF demo_accepts demo_parse_law demo_start demo_run _ e(2)] by simp
qed

text \<open>
  C5. The search for a tunnel address always ends: with fewer than 65,023 servers it finds an address
  of the tunnel's network that is no network or broadcast address, that neither the panel nor any
  server has, and that is the lowest such address above the panel's.
\<close>

theorem tunnel_address_search_ends:
  assumes "length (ListEntries s) < 65023"
  shows "\<exists>a. allocateTunnelIP s = Inr (ipv4_String a) \<and> in_tunnel a \<and> host_octet_ok a \<and>
    ipv4_String a \<noteq> WGBackendTunnelIP \<and>
    (\<forall>e \<in> set (ListEntries s). vps_WGTunnelIP (en_VPS e) \<noteq> ipv4_String a) \<and>
    (\<forall>b. in_tunnel b \<and> host_octet_ok b \<and> unat WGTunnelPrefix + 1 < unat b \<and> unat b < unat a \<longrightarrow>
       (\<exists>e \<in> set (ListEntries s). vps_WGTunnelIP (en_VPS e) = ipv4_String b))"
proof -
  have u: "unat (WGTunnelPrefix + 1 + 1) = 173473794" by (simp add: WGTunnelPrefix_def)
  have "alloc_from (used_ips s) (WGTunnelPrefix + 1 + 1) \<noteq> None"
    using alloc_from_spec [of "WGTunnelPrefix + 1 + 1" "used_ips s"] exhausted_needs_hosts [of s] assms
    unfolding u by (auto split: option.splits)
  then obtain tip where tip: "allocateTunnelIP s = Inr tip" by (auto simp: allocateTunnelIP_def)
  obtain a where a: "tunnel_host a" "tip = ipv4_String a" "tip \<notin> set (used_ips s)"
    "\<forall>b. tunnel_host b \<and> 173473794 \<le> unat b \<and> unat b < unat a \<longrightarrow> ipv4_String b \<in> set (used_ips s)"
    using allocate_spec [OF tip] .
  have free: "\<forall>e \<in> set (ListEntries s). vps_WGTunnelIP (en_VPS e) \<noteq> ipv4_String a"
    using a(2,3) ipv4_ne [of a] by (auto simp: used_ips_def image_iff)
  have "\<exists>e \<in> set (ListEntries s). vps_WGTunnelIP (en_VPS e) = ipv4_String b"
    if b: "in_tunnel b" "host_octet_ok b" "unat WGTunnelPrefix + 1 < unat b" "unat b < unat a" for b
  proof -
    have "ipv4_String b \<in> set (used_ips s)" using a(4) b by (simp add: tunnel_host_def WGTunnelPrefix_def)
    moreover have "ipv4_String b \<noteq> WGBackendTunnelIP"
    proof -
      have "b \<noteq> 0x0A570001" using b(3) by (auto simp: WGTunnelPrefix_def)
      then show ?thesis by (simp add: ipv4_inj flip: panel_addr)
    qed
    ultimately show ?thesis using used_count [of s] by fastforce
  qed
  then show ?thesis using tip a free by (intro exI [of _ a]) (auto simp: tunnel_host_def used_ips_def)
qed

theorem tunnel_address_search_ends_witness:
  "\<exists>a. allocateTunnelIP (ws_store demo_up) = Inr (ipv4_String a) \<and> in_tunnel a \<and>
    (\<forall>e \<in> set (ListEntries (ws_store demo_up)). vps_WGTunnelIP (en_VPS e) \<noteq> ipv4_String a)"
proof -
  obtain e where "ListEntries (ws_store demo_up) = [e]" by (rule demo_known)
  then have "length (ListEntries (ws_store demo_up)) < 65023" by simp
  from tunnel_address_search_ends [OF this] show ?thesis by blast
qed

section \<open>The probe and the request agree\<close>

text \<open>
  C10. What the probe tells the user and what adding the server then does agree: with a port in range,
  the server's address is accepted exactly when the probe answers and does not blame CG-NAT or the
  panel's own network; such an answer calls the server fit for the tunnel, or it is about a private
  address that does not answer a ping. So a server the probe calls fit is never refused.
\<close>

theorem probe_agrees_with_request:
  assumes "0 \<le> port" "port \<le> 65535"
  shows "(\<exists>endpoint. wireGuardEndpoint net host port = Inr endpoint) \<longleftrightarrow>
    (\<exists>p. probeServer net ping host = Inr p \<and> po_Reason p \<notin> {''cgnat'', ''same_nat''} \<and>
         (po_WireGuardOK p \<or> po_Reason p = ''private_unreachable''))"
  using assms unfolding wireGuardEndpoint_def probeServer_def
  by (auto simp: Let_def split: sum.splits if_splits)

theorem probe_agrees_with_request_witness:
  "(\<exists>endpoint. wireGuardEndpoint demo_net ''203.0.113.9'' 0 = Inr endpoint) \<longleftrightarrow>
   (\<exists>p. probeServer demo_net (\<lambda>_. True) ''203.0.113.9'' = Inr p \<and> po_Reason p \<notin> {''cgnat'', ''same_nat''} \<and>
        (po_WireGuardOK p \<or> po_Reason p = ''private_unreachable''))"
  by (rule probe_agrees_with_request) simp_all

end
