(* ===== verification/Plugin_Memory.thy ===== *)
theory Plugin_Memory
  imports Go_Strings "HOL-Library.Word"
begin

text \<open>
  How a plugin is kept within its memory (\<^verbatim>\<open>src/shared/plugin/memory.go\<close>): the watch that cancels a
  call whose heap grew too far, the guards on the library functions that can build a huge value in
  one go, and the walk that measures what a plugin's Lua state holds.

  The interpreter is not part of the program. Of its values the model keeps what this file reads: the
  arguments of a call, and a store of tables and functions with the references between them, in
  which tables may be cyclic. A number is a real (a NaN is left out); its printed length is the
  argument \<open>numlen\<close>. The readings of the heap are arguments of the steps of the watch.
\<close>

section \<open>Values\<close>

datatype lua_value = LNil | LBool bool | LNumber real | LString string | LTable nat | LFunction nat | LOther

record lua_table =
  lt_Metatable :: "lua_value option"
  lt_entries :: "(lua_value \<times> lua_value) list"

record lua_function =
  lf_Env :: "nat option"
  lf_Upvalues :: "lua_value option list"

datatype lua_object = TableObj lua_table | FunctionObj lua_function

type_synonym lua_store = "(nat \<times> lua_object) list"

abbreviation CallMemoryLimit :: "64 word" where "CallMemoryLimit \<equiv> 33554432"

section \<open>The watch\<close>

record active_call =
  ac_startLive :: "64 word"
  ac_nextCheck :: "64 word"
  ac_over :: bool
  ac_alone :: bool

type_synonym mem_watch = "(nat \<times> active_call) list"

text \<open>\<open>inUse\<close> and \<open>live\<close> are what \<open>heap\<close> reads, \<open>c\<close> is the identity of the new call.\<close>

definition watch_enter :: "64 word \<Rightarrow> nat \<Rightarrow> 64 word \<Rightarrow> 64 word \<Rightarrow> mem_watch \<Rightarrow> mem_watch" where
  "watch_enter limit c inUse live w =
     (c, \<lparr> ac_startLive = live, ac_nextCheck = inUse + limit, ac_over = False, ac_alone = False \<rparr>) # w"

definition watch_leave :: "nat \<Rightarrow> mem_watch \<Rightarrow> (bool \<times> bool) \<times> mem_watch" where
  "watch_leave c w =
     ((case map_of w c of Some a \<Rightarrow> (ac_over a, ac_alone a) | None \<Rightarrow> (False, False)), filter (\<lambda>(d, _). d \<noteq> c) w)"

definition suspect :: "64 word \<Rightarrow> active_call \<Rightarrow> bool" where
  "suspect inUse a \<longleftrightarrow> \<not> ac_over a \<and> inUse > ac_nextCheck a"

definition judge :: "64 word \<Rightarrow> bool \<Rightarrow> 64 word \<Rightarrow> 64 word \<Rightarrow> active_call \<Rightarrow> active_call" where
  "judge limit only inUse live a =
     (if ac_over a then a
      else if live > ac_startLive a \<and> live - ac_startLive a > limit then a\<lparr>ac_over := True, ac_alone := only\<rparr>
      else a\<lparr>ac_nextCheck := inUse + limit\<rparr>)"

text \<open>\<open>before\<close> is the reading that wakes the check, \<open>inUse\<close> and \<open>live\<close> the ones after the collection.\<close>

definition watch_check :: "64 word \<Rightarrow> 64 word \<Rightarrow> 64 word \<Rightarrow> 64 word \<Rightarrow> mem_watch \<Rightarrow> mem_watch" where
  "watch_check limit before inUse live w =
     (if \<not> list_ex (\<lambda>(_, a). suspect before a) w then w
      else map (\<lambda>(c, a). (c, judge limit (length w = 1) inUse live a)) w)"

section \<open>The guards\<close>

definition arg :: "lua_value list \<Rightarrow> nat \<Rightarrow> lua_value" where
  "arg args i = (if 1 \<le> i \<and> i \<le> length args then args ! (i - 1) else LNil)"

definition strLen :: "(real \<Rightarrow> nat) \<Rightarrow> lua_value list \<Rightarrow> nat \<Rightarrow> 64 word" where
  "strLen numlen args i =
     (case arg args i of LString s \<Rightarrow> of_nat (length s) | LNumber n \<Rightarrow> of_nat (numlen n) | _ \<Rightarrow> 0)"

definition arg_count :: "lua_value list \<Rightarrow> nat \<Rightarrow> 64 word" where
  "arg_count args i =
     (case arg args i of
        LNumber n \<Rightarrow> if n \<le> 0 then 0 else if n > 2 ^ 53 then 2 ^ 53 else of_nat (nat \<lfloor>n\<rfloor>)
      | _ \<Rightarrow> 0)"

definition mul :: "64 word \<Rightarrow> 64 word \<Rightarrow> 64 word" where
  "mul a b = (if a \<noteq> 0 \<and> b > 2 ^ 62 div a then 2 ^ 62 else a * b)"

definition rep_size :: "(real \<Rightarrow> nat) \<Rightarrow> lua_value list \<Rightarrow> 64 word" where
  "rep_size numlen args = mul (strLen numlen args 1) (arg_count args 2)"

definition str_size :: "lua_value \<Rightarrow> 64 word" where
  "str_size v = (case v of LString s \<Rightarrow> of_nat (length s) | _ \<Rightarrow> 0)"

definition table_at :: "lua_store \<Rightarrow> lua_value \<Rightarrow> lua_table option" where
  "table_at st v = (case v of
      LTable a \<Rightarrow> (case map_of st a of Some (TableObj t) \<Rightarrow> Some t | _ \<Rightarrow> None)
    | _ \<Rightarrow> None)"

definition longest :: "lua_table \<Rightarrow> 64 word" where
  "longest t = fold (\<lambda>(_, v) r. if str_size v > r then str_size v else r) (lt_entries t) 0"

definition gsub_size :: "lua_store \<Rightarrow> (real \<Rightarrow> nat) \<Rightarrow> lua_value list \<Rightarrow> 64 word" where
  "gsub_size st numlen args =
     (let src = strLen numlen args 1;
          n = arg_count args 4;
          matches = (if n > 0 \<and> n < src + 1 then n else src + 1);
          repl = (case arg args 3 of
                    LString s \<Rightarrow> of_nat (length s)
                  | v \<Rightarrow> (case table_at st v of Some t \<Rightarrow> longest t | None \<Rightarrow> 0))
      in src + mul matches repl)"

text \<open>\<open>MaxN\<close> and \<open>RawGetInt\<close> of a table: its largest positive integer key, and the value there.\<close>

definition RawGetInt :: "lua_table \<Rightarrow> nat \<Rightarrow> lua_value" where
  "RawGetInt t i = (case map_of (lt_entries t) (LNumber (real i)) of Some v \<Rightarrow> v | None \<Rightarrow> LNil)"

fun concat_total :: "64 word \<Rightarrow> lua_table \<Rightarrow> nat list \<Rightarrow> 64 word \<Rightarrow> 64 word" where
  "concat_total limit t [] acc = acc"
| "concat_total limit t (i # is) acc =
     (if acc \<le> limit then concat_total limit t is (acc + str_size (RawGetInt t i)) else acc)"

definition concat_size :: "64 word \<Rightarrow> lua_store \<Rightarrow> (lua_table \<Rightarrow> nat) \<Rightarrow> (real \<Rightarrow> nat) \<Rightarrow> lua_value list \<Rightarrow> 64 word" where
  "concat_size limit st MaxN numlen args =
     (case table_at st (arg args 1) of
        None \<Rightarrow> 0
      | Some t \<Rightarrow> concat_total limit t [1..<Suc (MaxN t)] 0 + mul (of_nat (MaxN t)) (strLen numlen args 2))"

text \<open>A guarded function refuses (with the megabytes the result would have) or runs.\<close>

definition guarded :: "64 word \<Rightarrow> (lua_value list \<Rightarrow> 64 word) \<Rightarrow> (lua_value list \<Rightarrow> 'r) \<Rightarrow> lua_value list \<Rightarrow> nat + 'r" where
  "guarded limit check fn args =
     (let n = check args in if n > limit then Inl (unat (drop_bit 20 n)) else Inr (fn args))"

section \<open>The size of a state\<close>

text \<open>What visiting an object adds to the size and pushes, in the order it is pushed.\<close>

definition object_size :: "lua_object \<Rightarrow> nat" where
  "object_size ob = (case ob of
      TableObj t \<Rightarrow> 64 + 40 * length (lt_entries t)
    | FunctionObj f \<Rightarrow> 64 + 16 * length (filter (\<lambda>u. u \<noteq> None) (lf_Upvalues f)))"

definition object_refs :: "lua_object \<Rightarrow> lua_value list" where
  "object_refs ob = (case ob of
      TableObj t \<Rightarrow> (case lt_Metatable t of None \<Rightarrow> [] | Some m \<Rightarrow> [m]) @ concat (map (\<lambda>(k, v). [k, v]) (lt_entries t))
    | FunctionObj f \<Rightarrow> (case lf_Env f of None \<Rightarrow> [] | Some e \<Rightarrow> [LTable e]) @ map the (filter (\<lambda>u. u \<noteq> None) (lf_Upvalues f)))"

definition ref_of :: "lua_value \<Rightarrow> nat option" where
  "ref_of v = (case v of LTable a \<Rightarrow> Some a | LFunction a \<Rightarrow> Some a | _ \<Rightarrow> None)"

text \<open>One value taken off the stack: what is pushed, what has been seen, the size so far.\<close>

definition visit :: "lua_store \<Rightarrow> lua_value \<Rightarrow> nat list \<Rightarrow> nat \<Rightarrow> lua_value list \<times> nat list \<times> nat" where
  "visit st v seen sz =
     (case v of
        LString s \<Rightarrow> ([], seen, sz + (16 + length s))
      | _ \<Rightarrow>
          (case ref_of v of
             None \<Rightarrow> ([], seen, sz)
           | Some a \<Rightarrow>
               if a \<in> set seen then ([], seen, sz)
               else case map_of st a of
                      None \<Rightarrow> ([], seen, sz)
                    | Some ob \<Rightarrow> (rev (object_refs ob), a # seen, sz + object_size ob)))"

lemma visit_decreases:
  assumes "visit st v seen sz = (push, seen', sz')"
  shows "card (dom (map_of st) - set seen') < card (dom (map_of st) - set seen) \<or> seen' = seen \<and> push = []"
proof (cases "seen' = seen")
  case False
  then obtain a ob where a: "seen' = a # seen" "a \<notin> set seen" "map_of st a = Some ob"
    using assms by (auto simp: visit_def split: lua_value.splits option.splits if_splits)
  then have "dom (map_of st) - set seen' \<subset> dom (map_of st) - set seen" by auto
  then show ?thesis by (simp add: psubset_card_mono finite_dom_map_of)
next
  case True
  then show ?thesis using assms by (auto simp: visit_def split: lua_value.splits option.splits if_splits)
qed

text \<open>
  The stack's top is the head of the list here, and a reference outside the store cannot occur in Go.
  Each turn of the loop sees a new object of the store or shortens the stack.
\<close>

function size_walk :: "lua_store \<Rightarrow> nat \<Rightarrow> lua_value list \<Rightarrow> nat list \<Rightarrow> nat \<Rightarrow> nat" where
  "size_walk st limit [] seen sz = sz"
| "size_walk st limit (v # rest) seen sz =
     (if sz > limit then sz
      else case visit st v seen sz of (push, seen', sz') \<Rightarrow> size_walk st limit (push @ rest) seen' sz')"
  by pat_completeness auto
termination
  by (relation "measures [\<lambda>(st, limit, stack, seen, sz). card (dom (map_of st) - set seen),
      \<lambda>(st, limit, stack, seen, sz). length stack]")
    (auto dest!: visit_decreases [OF sym])

definition stateSize :: "lua_store \<Rightarrow> lua_value list \<Rightarrow> nat \<Rightarrow> nat" where
  "stateSize st roots limit = size_walk st limit (rev roots) [] 0"

end
