(* ===== verification/Plugin_Memory_Laws.thy ===== *)
theory Plugin_Memory_Laws
  imports Plugin_Memory
begin

text \<open>
  What the memory limits guarantee: the guard of \<open>string.rep\<close> refuses exactly the results that are too
  large, whatever overflows; the walk over a state ends on cyclic tables and counts every object it
  can reach once, in whatever order the tables are walked; the watch cancels every call that grew the
  live heap too far. One thing it says of a cancelled call, that it alone can be to blame, is refuted.
\<close>

section \<open>Saturating products\<close>

lemma mul_exact:
  assumes "unat L < 2 ^ 62"
  shows "mul a b > L \<longleftrightarrow> unat a * unat b > unat L"
proof (cases "a \<noteq> 0 \<and> b > 2 ^ 62 div a")
  case True
  have u: "unat (2 ^ 62 div a) = 2 ^ 62 div unat a" by (simp add: unat_div)
  have "2 ^ 62 div unat a < unat b" using True u by (simp add: word_less_nat_alt)
  moreover have "unat a > 0" using True by (simp add: unat_gt_0)
  ultimately have "2 ^ 62 < unat b * unat a" using div_less_iff_less_mult [of "unat a" "2 ^ 62" "unat b"] by simp
  then show ?thesis using True assms by (simp add: mul_def word_less_nat_alt mult.commute)
next
  case False
  then have m: "mul a b = a * b" by (auto simp: mul_def)
  have "unat a * unat b \<le> 2 ^ 62"
  proof (cases "a = 0")
    case nz: False
    then have "\<not> 2 ^ 62 div unat a < unat b" using False by (simp add: word_less_nat_alt unat_div)
    then have "unat a * unat b \<le> unat a * (2 ^ 62 div unat a)" by (simp add: mult_le_mono2)
    also have "\<dots> \<le> 2 ^ 62" by (rule times_div_less_eq_dividend)
    finally show ?thesis .
  qed simp
  then have "unat a * unat b < 2 ^ LENGTH(64)" by simp
  then have "unat (a * b) = unat a * unat b" by (simp add: unat_word_ariths)
  then show ?thesis using m by (simp add: word_less_nat_alt)
qed

section \<open>What a state holds\<close>

definition string_size :: "lua_value \<Rightarrow> nat" where
  "string_size v = (case v of LString s \<Rightarrow> 16 + length s | _ \<Rightarrow> 0)"

definition strings_size :: "lua_value list \<Rightarrow> nat" where
  "strings_size vs = sum_list (map string_size vs)"

definition refs_in :: "lua_store \<Rightarrow> lua_value list \<Rightarrow> nat set" where
  "refs_in st vs = {a. \<exists>v \<in> set vs. ref_of v = Some a} \<inter> dom (map_of st)"

definition refers :: "lua_store \<Rightarrow> nat \<Rightarrow> nat \<Rightarrow> bool" where
  "refers st a b \<longleftrightarrow> (\<exists>ob. map_of st a = Some ob \<and> b \<in> refs_in st (object_refs ob))"

text \<open>The objects reachable from the roots, and the size they stand for.\<close>

definition reachable :: "lua_store \<Rightarrow> lua_value list \<Rightarrow> nat set" where
  "reachable st roots = {b. \<exists>a \<in> refs_in st roots. (refers st)\<^sup>*\<^sup>* a b}"

definition whole_object :: "lua_store \<Rightarrow> nat \<Rightarrow> nat" where
  "whole_object st a = (case map_of st a of None \<Rightarrow> 0 | Some ob \<Rightarrow> object_size ob + strings_size (object_refs ob))"

definition whole_state :: "lua_store \<Rightarrow> lua_value list \<Rightarrow> nat" where
  "whole_state st roots = strings_size roots + (\<Sum>a \<in> reachable st roots. whole_object st a)"

lemma strings_size_simps [simp]:
  "strings_size [] = 0" "strings_size (v # vs) = string_size v + strings_size vs"
  "strings_size (us @ vs) = strings_size us + strings_size vs" "strings_size (rev vs) = strings_size vs"
  by (simp_all add: strings_size_def flip: rev_map)

lemma refs_in_simps [simp]:
  "refs_in st [] = {}" "refs_in st (us @ vs) = refs_in st us \<union> refs_in st vs" "refs_in st (rev vs) = refs_in st vs"
  by (auto simp: refs_in_def)

lemma finite_reachable [simp]: "finite (reachable st roots)"
proof (rule finite_subset)
  show "reachable st roots \<subseteq> dom (map_of st)"
    by (auto simp: reachable_def refers_def refs_in_def elim: rtranclp.cases)
qed (simp add: finite_dom_map_of)

text \<open>
  The invariant of the walk: what is counted and the strings still on the stack make up the objects
  seen and the roots; everything seen or on the stack is reachable, and nothing reachable is lost.
\<close>

definition walk_inv :: "lua_store \<Rightarrow> lua_value list \<Rightarrow> lua_value list \<Rightarrow> nat list \<Rightarrow> nat \<Rightarrow> bool" where
  "walk_inv st roots stack seen sz \<longleftrightarrow>
     sz + strings_size stack = strings_size roots + (\<Sum>a \<in> set seen. whole_object st a) \<and>
     set seen \<subseteq> reachable st roots \<and> refs_in st stack \<subseteq> reachable st roots \<and>
     refs_in st roots \<subseteq> set seen \<union> refs_in st stack \<and>
     (\<forall>a \<in> set seen. \<forall>b. refers st a b \<longrightarrow> b \<in> set seen \<union> refs_in st stack)"

lemma reachable_step: "a \<in> reachable st roots \<Longrightarrow> refers st a b \<Longrightarrow> b \<in> reachable st roots"
  unfolding reachable_def by (blast intro: rtranclp.rtrancl_into_rtrancl)

lemma walk_visit:
  assumes inv: "walk_inv st roots (v # rest) seen sz" and v: "visit st v seen sz = (push, seen', sz')"
  shows "walk_inv st roots (push @ rest) seen' sz'"
proof (cases "\<exists>a ob. ref_of v = Some a \<and> a \<notin> set seen \<and> map_of st a = Some ob")
  case True
  then obtain a ob where a: "ref_of v = Some a" "a \<notin> set seen" "map_of st a = Some ob" by blast
  then have v': "push = rev (object_refs ob)" "seen' = a # seen" "sz' = sz + object_size ob" "string_size v = 0"
    using v by (auto simp: visit_def ref_of_def string_size_def split: lua_value.splits)
  have ra: "a \<in> refs_in st (v # rest)" using a by (auto simp: refs_in_def)
  have refs: "refers st a b \<longleftrightarrow> b \<in> refs_in st (object_refs ob)" for b using a(3) by (simp add: refers_def)
  have cons: "refs_in st (v # rest) = insert a (refs_in st rest)" using a by (auto simp: refs_in_def)
  show ?thesis
    using inv reachable_step [of a st roots] a(2,3) unfolding walk_inv_def v' cons
    by (auto simp: whole_object_def refs v'(4))
next
  case False
  then have v': "push = []" "seen' = seen" "sz' = sz + string_size v"
    using v by (auto simp: visit_def ref_of_def string_size_def split: lua_value.splits option.splits if_splits)
  have sub: "refs_in st (v # rest) \<subseteq> set seen \<union> refs_in st rest" "refs_in st rest \<subseteq> refs_in st (v # rest)"
    using False by (auto simp: refs_in_def)
  show ?thesis
    using inv sub unfolding walk_inv_def v' by (auto 0 3 dest!: subsetD [OF sub(1)])
qed

text \<open>The size only grows, so a walk that stops under the limit has seen everything.\<close>

lemma walk_grows: "sz \<le> size_walk st limit stack seen sz"
proof (induction st limit stack seen sz rule: size_walk.induct)
  case (2 st limit v rest seen sz)
  obtain push seen' sz' where v: "visit st v seen sz = (push, seen', sz')" by (cases "visit st v seen sz")
  have "sz \<le> sz'" using v by (auto simp: visit_def split: lua_value.splits option.splits if_splits)
  then show ?case using 2 v by (auto intro: le_trans)
qed simp

lemma walk_exact:
  "walk_inv st roots stack seen sz \<Longrightarrow> size_walk st limit stack seen sz \<le> limit \<Longrightarrow>
   size_walk st limit stack seen sz = whole_state st roots"
proof (induction st limit stack seen sz rule: size_walk.induct)
  case (1 st limit seen sz)
  have "b \<in> set seen" if b: "b \<in> reachable st roots" for b
  proof -
    obtain a where "a \<in> refs_in st roots" "(refers st)\<^sup>*\<^sup>* a b" using b unfolding reachable_def by blast
    moreover have "a \<in> set seen" if "a \<in> refs_in st roots" for a using 1 that by (auto simp: walk_inv_def)
    moreover have "(refers st)\<^sup>*\<^sup>* a b \<Longrightarrow> a \<in> set seen \<Longrightarrow> b \<in> set seen" for a b
      by (induction rule: rtranclp_induct) (use 1 in \<open>auto simp: walk_inv_def\<close>)
    ultimately show ?thesis by blast
  qed
  then have "reachable st roots = set seen" using 1 by (auto simp: walk_inv_def)
  then show ?case using 1 by (simp add: walk_inv_def whole_state_def)
next
  case (2 st limit v rest seen sz)
  obtain push seen' sz' where v: "visit st v seen sz = (push, seen', sz')" by (cases "visit st v seen sz")
  have "\<not> sz > limit" using 2(3) by auto
  then show ?case using 2 v walk_visit [OF 2(2) v] by simp
qed

text \<open>A walk that stops early has counted no more than what is there.\<close>

lemma walk_bound: "walk_inv st roots stack seen sz \<Longrightarrow> size_walk st limit stack seen sz \<le> whole_state st roots"
proof (induction st limit stack seen sz rule: size_walk.induct)
  case (1 st limit seen sz)
  have "(\<Sum>a \<in> set seen. whole_object st a) \<le> (\<Sum>a \<in> reachable st roots. whole_object st a)"
    using 1 by (intro sum_mono2) (auto simp: walk_inv_def)
  then show ?case using 1 by (simp add: walk_inv_def whole_state_def)
next
  case (2 st limit v rest seen sz)
  obtain push seen' sz' where v: "visit st v seen sz = (push, seen', sz')" by (cases "visit st v seen sz")
  have "(\<Sum>a \<in> set seen. whole_object st a) \<le> (\<Sum>a \<in> reachable st roots. whole_object st a)"
    using 2(2) by (intro sum_mono2) (auto simp: walk_inv_def)
  then have "sz \<le> whole_state st roots" using 2(2) by (simp add: walk_inv_def whole_state_def)
  then show ?case using 2(1) [OF _ v [symmetric]] walk_visit [OF 2(2) v] v by auto
qed

lemma walk_start: "walk_inv st roots (rev roots) [] 0"
  by (auto simp: walk_inv_def reachable_def)

text \<open>
  C1. Measuring a plugin's state ends on every state, cyclic tables included, and is exact: the result
  is over the limit exactly when what the state holds is, and otherwise it is what the state holds,
  every reachable table and function counted once, whatever order the tables are walked in.
\<close>

theorem state_measure_is_exact:
  "(stateSize st roots limit > limit \<longleftrightarrow> whole_state st roots > limit) \<and>
   (whole_state st roots \<le> limit \<longrightarrow> stateSize st roots limit = whole_state st roots)"
proof -
  have "size_walk st limit (rev roots) [] 0 \<le> whole_state st roots" by (rule walk_bound [OF walk_start])
  moreover have "size_walk st limit (rev roots) [] 0 \<le> limit \<Longrightarrow> size_walk st limit (rev roots) [] 0 = whole_state st roots"
    by (rule walk_exact [OF walk_start])
  ultimately show ?thesis unfolding stateSize_def by linarith
qed

text \<open>A table that holds itself and a text, and a function whose environment it is.\<close>

definition demo_lua :: lua_store where
  "demo_lua = [(1, TableObj \<lparr> lt_Metatable = Some LNil, lt_entries = [(LString ''self'', LTable 1), (LString ''name'', LString ''x'')] \<rparr>),
     (2, FunctionObj \<lparr> lf_Env = Some 1, lf_Upvalues = [Some (LTable 1), None] \<rparr>)]"

theorem state_measure_is_exact_witness:
  "whole_state demo_lua [LTable 1, LFunction 2] = 281 \<and> stateSize demo_lua [LTable 1, LFunction 2] 1000 = 281"
proof -
  have "stateSize demo_lua [LTable 1, LFunction 2] 1000 = 281" by code_simp
  with state_measure_is_exact [where st = demo_lua and roots = "[LTable 1, LFunction 2]" and limit = 1000] show ?thesis by force
qed

section \<open>The guard of string.rep\<close>

text \<open>
  C2. The guard of \<open>string.rep\<close> is exact: with a limit below \<open>2 ^ 53\<close> it refuses a call exactly when the
  result would be larger than the limit, for every length of the text and every count, negative,
  fractional or huge, although the product may not fit in 64 bits.
\<close>

theorem rep_guard_is_exact:
  assumes "unat limit < 2 ^ 53" "length s < 2 ^ 64"
  shows "isl (guarded limit (rep_size numlen) fn [LString s, LNumber n]) \<longleftrightarrow> unat limit < length s * nat \<lfloor>n\<rfloor>"
proof -
  have len: "unat (of_nat (length s) :: 64 word) = length s" using assms(2) by (simp add: unat_of_nat)
  define c where "c = arg_count [LString s, LNumber n] 2"
  have size: "rep_size numlen [LString s, LNumber n] = mul (of_nat (length s)) c"
    by (simp add: rep_size_def strLen_def arg_def c_def)
  have "isl (guarded limit (rep_size numlen) fn [LString s, LNumber n]) \<longleftrightarrow> unat limit < length s * unat c"
    using mul_exact [of limit "of_nat (length s)" c] assms(1) by (simp add: guarded_def size len Let_def)
  also have "\<dots> \<longleftrightarrow> unat limit < length s * nat \<lfloor>n\<rfloor>"
  proof -
    consider "n \<le> 0" | "0 < n" "n \<le> 2 ^ 53" | "2 ^ 53 < n" by linarith
    then show ?thesis
    proof cases
      case 2
      then have "nat \<lfloor>n\<rfloor> \<le> 2 ^ 53" by (simp add: floor_le_iff nat_le_iff)
      then have "unat (of_nat (nat \<lfloor>n\<rfloor>) :: 64 word) = nat \<lfloor>n\<rfloor>" by (subst unat_of_nat) simp
      moreover have "c = of_nat (nat \<lfloor>n\<rfloor>)" unfolding c_def arg_count_def arg_def using 2 by simp
      ultimately have "unat c = nat \<lfloor>n\<rfloor>" by simp
      then show ?thesis by simp
    next
      case 3
      then have c: "unat c = 2 ^ 53" by (simp add: c_def arg_count_def arg_def)
      have "2 ^ 53 \<le> nat \<lfloor>n\<rfloor>" using 3 by (simp add: le_nat_iff le_floor_iff)
      then have "length s = 0 \<or> unat limit < length s * 2 ^ 53 \<and> unat limit < length s * nat \<lfloor>n\<rfloor>"
        using assms(1) by (cases "length s") auto
      then show ?thesis unfolding c by auto
    qed (simp add: c_def arg_count_def arg_def)
  qed
  finally show ?thesis .
qed

theorem rep_guard_is_exact_witness:
  "isl (guarded CallMemoryLimit (rep_size (\<lambda>_. 1)) (\<lambda>_. ()) [LString ''abc'', LNumber (2 ^ 100)]) \<longleftrightarrow>
     33554432 < length ''abc'' * nat \<lfloor>2 ^ 100 :: real\<rfloor>"
  using rep_guard_is_exact [of CallMemoryLimit "''abc''" "\<lambda>_. 1" "\<lambda>_. ()" "2 ^ 100"] by simp

section \<open>The watch\<close>

definition over_budget :: "64 word \<Rightarrow> 64 word \<Rightarrow> active_call \<Rightarrow> bool" where
  "over_budget limit live a \<longleftrightarrow> unat live > unat (ac_startLive a) + unat limit"

lemma judge_over:
  "ac_over (judge limit only inUse live a) \<longleftrightarrow> ac_over a \<or> over_budget limit live a"
proof -
  have "live > ac_startLive a \<and> live - ac_startLive a > limit \<longleftrightarrow> over_budget limit live a"
    by (auto simp: over_budget_def word_less_nat_alt unat_sub_if_size)
  then show ?thesis by (auto simp: judge_def)
qed

lemma suspect_judged:
  assumes "list_ex (\<lambda>(_, a). suspect before a) w" "map_of w c = Some a"
  shows "map_of (watch_check limit before inUse live w) c = Some (judge limit (length w = 1) inUse live a)"
proof -
  have "watch_check limit before inUse live w = map (\<lambda>(c, a). (c, judge limit (length w = 1) inUse live a)) w"
    using assms(1) by (simp add: watch_check_def)
  then show ?thesis using assms(2) by (simp add: map_of_map o_def)
qed

text \<open>
  One suspect call is enough for all running calls to be judged: each that grew the live heap past the
  limit is cancelled, and no other.
\<close>

lemma check_cancels_exactly:
  assumes "list_ex (\<lambda>(_, a). suspect before a) w" "map_of w c = Some a"
  shows "\<exists>b. map_of (watch_check limit before inUse live w) c = Some b \<and>
    (ac_over b \<longleftrightarrow> ac_over a \<or> over_budget limit live a)"
  using suspect_judged [OF assms] judge_over by blast

text \<open>
  A call cancelled alone need not be to blame: the memory may have been taken by another call that
  ran beside it and ended before the check. Here call 1 starts on a live heap of 10 MB, call 2 starts
  and ends beside it, and 50 MB are alive at the check.
\<close>

lemma alone_is_not_proof:
  "let w1 = watch_enter CallMemoryLimit 1 10485760 10485760 [];
       w2 = watch_enter CallMemoryLimit 2 10485760 10485760 w1;
       w3 = snd (watch_leave 2 w2);
       w4 = watch_check CallMemoryLimit 52428800 52428800 52428800 w3
   in fst (watch_leave 1 w4) = (True, True)"
  by code_simp

end
