(* ===== verification/Plugin_Manifest.thy ===== *)
theory Plugin_Manifest
  imports Shared_Models Go_Strings
begin

text \<open>
  The manifest of a plugin (\<^verbatim>\<open>src/shared/plugin/manifest.go\<close>): what it declares, what is checked before
  it is accepted, and the settings its parts get to see (\<^verbatim>\<open>ConfigValues\<close> of \<^verbatim>\<open>runtime.go\<close>). The manifest
  is decoded JSON here; a value of any type is a \<open>go_any\<close>, whose numbers may be no finite number.
\<close>

section \<open>Values\<close>

datatype go_any =
    ANil | ABool bool | ANum "real option" | AStr string | AList "go_any list" | AMap "(string \<times> go_any) list"

type_synonym any_map = "(string, go_any) gomap"

section \<open>The manifest\<close>

record config_field =
  cf_Key :: string
  cf_Label :: string
  cf_Type :: string
  cf_Default :: go_any
  cf_Help :: string
  cf_Options :: "string list"

record permissions =
  pm_Read :: "string list"
  pm_Exec :: "string list"
  pm_HTTP :: "string list"
  pm_Write :: "string list"
  pm_API :: "string list"

record manifest =
  mf_ID :: string
  mf_Name :: string
  mf_Version :: string
  mf_Permissions :: permissions
  mf_Metrics :: "(string, metric_def) gomap"
  mf_Config :: "config_field list"
  mf_Timeout :: int

definition configTypes :: "string list" where
  "configTypes = [[], ''text'', ''secret'', ''number'', ''bool'', ''url'', ''select'']"

abbreviation MaxTimeout :: int where "MaxTimeout \<equiv> 300"

text \<open>The regular expressions.\<close>

definition lower_or_digit :: "char \<Rightarrow> bool" where
  "lower_or_digit c \<longleftrightarrow> (97 \<le> (of_char c :: nat) \<and> of_char c \<le> (122 :: nat)) \<or> is_digit c"

definition idRe :: "string \<Rightarrow> bool" where
  "idRe s \<longleftrightarrow> 1 \<le> length s \<and> length s \<le> 32 \<and> list_all (\<lambda>c. lower_or_digit c \<or> c \<in> {CHR ''_'', CHR ''-''}) s"

definition key_name :: "string \<Rightarrow> bool" where
  "key_name s \<longleftrightarrow> 1 \<le> length s \<and> length s \<le> 32 \<and> list_all (\<lambda>c. lower_or_digit c \<or> c = CHR ''_'') s"

definition metricRe :: "string \<Rightarrow> bool" where
  "metricRe s \<longleftrightarrow> key_name (TrimSuffix s ''*'')"

definition api_char :: "char \<Rightarrow> bool" where
  "api_char c \<longleftrightarrow> is_letter c \<or> is_digit c \<or> c \<in> set ''_./*{}-''"

definition apiRe :: "string \<Rightarrow> bool" where
  "apiRe s \<longleftrightarrow> list_ex (\<lambda>m. HasPrefix s (m @ '' /api/'') \<and> list_all api_char (drop (length m + 6) s))
     [''*'', ''GET'', ''POST'', ''PUT'', ''PATCH'', ''DELETE'']"

definition IsAbs :: "string \<Rightarrow> bool" where
  "IsAbs p \<longleftrightarrow> HasPrefix p ''/''"

datatype manifest_error =
    BadID | MissingName | RelativePath string | BadAPI string | BadTimeout | BadConfigKey string
  | UnknownType string | SelectWithoutOptions string | BadExec string | BadHTTP string | BadMetric string | CritBelowWarn string

text \<open>Loops that return at the first offender.\<close>

fun first_error :: "('a \<Rightarrow> manifest_error option) \<Rightarrow> 'a list \<Rightarrow> manifest_error option" where
  "first_error f [] = None"
| "first_error f (x # xs) = (case f x of Some e \<Rightarrow> Some e | None \<Rightarrow> first_error f xs)"

fun config_error :: "string list \<Rightarrow> config_field list \<Rightarrow> manifest_error option" where
  "config_error seen [] = None"
| "config_error seen (f # fs) =
     (if \<not> metricRe (cf_Key f) \<or> HasSuffix (cf_Key f) ''*'' \<or> cf_Key f \<in> set seen then Some (BadConfigKey (cf_Key f))
      else if cf_Type f \<notin> set configTypes then Some (UnknownType (cf_Key f))
      else if cf_Type f = ''select'' \<and> cf_Options f = [] then Some (SelectWithoutOptions (cf_Key f))
      else config_error (cf_Key f # seen) fs)"

definition orelse :: "'e option \<Rightarrow> 'e option \<Rightarrow> 'e option" where
  "orelse a b = (case a of Some e \<Rightarrow> Some e | None \<Rightarrow> b)"

text \<open>The metrics are a map: of several offenders the first in the list is the one reported here.\<close>

definition manifest_Validate :: "manifest \<Rightarrow> manifest_error option" where
  "manifest_Validate m =
     (if \<not> idRe (mf_ID m) then Some BadID
      else if TrimSpace (mf_Name m) = [] \<or> TrimSpace (mf_Version m) = [] then Some MissingName
      else orelse (first_error (\<lambda>p. if \<not> IsAbs p then Some (RelativePath p) else None)
                     (pm_Read (mf_Permissions m) @ pm_Write (mf_Permissions m)))
           (orelse (first_error (\<lambda>a. if \<not> apiRe a \<or> Contains a ''..'' then Some (BadAPI a) else None) (pm_API (mf_Permissions m)))
           (if mf_Timeout m < 0 \<or> mf_Timeout m > MaxTimeout then Some BadTimeout
            else orelse (config_error [] (mf_Config m))
                 (orelse (first_error (\<lambda>c. if c = [] \<or> ContainsAny c [CHR '' '', CHR 0x09] then Some (BadExec c) else None)
                            (pm_Exec (mf_Permissions m)))
                 (orelse (first_error (\<lambda>h. if h = [] \<or> ContainsAny h ''/: '' then Some (BadHTTP h) else None)
                            (pm_HTTP (mf_Permissions m)))
                 (first_error (\<lambda>(n, d). if \<not> metricRe n then Some (BadMetric n)
                                 else if md_Warn d \<noteq> 0 \<and> md_Crit d \<noteq> 0 \<and> md_Crit d < md_Warn d then Some (CritBelowWarn n)
                                 else None) (mf_Metrics m)))))))"

definition MetricKey :: "string \<Rightarrow> string \<Rightarrow> string" where
  "MetricKey pluginID metric = pluginID @ ''.'' @ metric"

definition manifest_CallTimeout :: "manifest \<Rightarrow> duration" where
  "manifest_CallTimeout m = (if mf_Timeout m > 0 then mf_Timeout m * second else 10 * second)"

section \<open>Settings\<close>

text \<open>What a plugin sees through \<open>beacle.config\<close>; an agent's part gets no secrets.\<close>

definition config_value :: "any_map \<Rightarrow> config_field \<Rightarrow> go_any option" where
  "config_value stored f =
     (case map_of stored (cf_Key f) of
        Some v \<Rightarrow> if v \<noteq> ANil then Some v else if cf_Default f \<noteq> ANil then Some (cf_Default f) else None
      | None \<Rightarrow> if cf_Default f \<noteq> ANil then Some (cf_Default f) else None)"

definition ConfigValues :: "manifest \<Rightarrow> any_map \<Rightarrow> bool \<Rightarrow> any_map" where
  "ConfigValues m stored agent =
     fold (\<lambda>f out. if agent \<and> cf_Type f = ''secret'' then out
                   else case config_value stored f of Some v \<Rightarrow> map_put (cf_Key f) v out | None \<Rightarrow> out) (mf_Config m) []"

text \<open>The settings form: what was sent, checked field by field; \<open>old\<close> keeps a secret that was left out.\<close>

datatype config_problem = MustBeNumber string | MustBeBool string | MustBeText string | MustBeOneOf string | MustBeURL string

definition clean_field :: "any_map \<Rightarrow> any_map \<Rightarrow> config_field \<Rightarrow> config_problem + go_any option" where
  "clean_field old inp f =
     (let k = cf_Key f; v = (case map_of inp k of Some v \<Rightarrow> v | None \<Rightarrow> ANil)
      in if v = ANil
         then Inr (if cf_Type f = ''secret''
                   then (case map_of old k of Some w \<Rightarrow> if w \<noteq> ANil then Some w else None | None \<Rightarrow> None) else None)
         else if cf_Type f = ''number'' then (case v of ANum _ \<Rightarrow> Inr (Some v) | _ \<Rightarrow> Inl (MustBeNumber k))
         else if cf_Type f = ''bool'' then (case v of ABool _ \<Rightarrow> Inr (Some v) | _ \<Rightarrow> Inl (MustBeBool k))
         else (case v of
                 AStr s \<Rightarrow>
                   if cf_Type f = ''select'' \<and> s \<noteq> [] \<and> s \<notin> set (cf_Options f) then Inl (MustBeOneOf k)
                   else if cf_Type f = ''url'' \<and> s \<noteq> [] \<and> \<not> HasPrefix s ''http://'' \<and> \<not> HasPrefix s ''https://''
                   then Inl (MustBeURL k)
                   else Inr (if s \<noteq> [] \<or> cf_Type f = ''secret'' then Some v else None)
               | _ \<Rightarrow> Inl (MustBeText k)))"

fun clean_fields :: "any_map \<Rightarrow> any_map \<Rightarrow> config_field list \<Rightarrow> any_map \<Rightarrow> config_problem + any_map" where
  "clean_fields old inp [] out = Inr out"
| "clean_fields old inp (f # fs) out =
     (case clean_field old inp f of
        Inl e \<Rightarrow> Inl e
      | Inr None \<Rightarrow> clean_fields old inp fs out
      | Inr (Some v) \<Rightarrow> clean_fields old inp fs (map_put (cf_Key f) v out))"

definition cleanConfig :: "manifest \<Rightarrow> any_map \<Rightarrow> any_map \<Rightarrow> config_problem + any_map" where
  "cleanConfig m old inp = clean_fields old inp (mf_Config m) []"

section \<open>Versions\<close>

fun version_ints :: "string list \<Rightarrow> int list option" where
  "version_ints [] = Some []"
| "version_ints (s # ss) =
     (if snd (Atoi s) then map_option (\<lambda>ns. fst (Atoi s) # ns) (version_ints ss) else None)"

definition versionParts :: "string \<Rightarrow> int list option" where
  "versionParts v0 =
     (let v = TrimPrefix (TrimSpace v0) ''v'' in if v = [] then None else version_ints (Split v (CHR ''.'')))"

definition part_at :: "int list \<Rightarrow> nat \<Rightarrow> int" where
  "part_at p i = (if i < length p then p ! i else 0)"

definition parts_before :: "int list \<Rightarrow> int list \<Rightarrow> bool" where
  "parts_before pa pb =
     (case find (\<lambda>i. part_at pa i \<noteq> part_at pb i) [0..<max (length pa) (length pb)] of
        Some i \<Rightarrow> part_at pa i < part_at pb i
      | None \<Rightarrow> False)"

definition versionBefore :: "string \<Rightarrow> string \<Rightarrow> bool" where
  "versionBefore a b =
     (case (versionParts a, versionParts b) of (Some pa, Some pb) \<Rightarrow> parts_before pa pb | _ \<Rightarrow> False)"

end
