(* ===== verification/Plugin_Host.thy ===== *)
theory Plugin_Host
  imports Plugin_Manifest
begin

text \<open>
  What a plugin may touch outside its own state (\<^verbatim>\<open>src/shared/plugin/host.go\<close>, \<^verbatim>\<open>src/backend/plugins_host.go\<close>):
  files under the paths, programs, hosts and panel routes its manifest names. The files are a map from
  paths to contents; what \<open>url.Parse\<close> makes of a text, what a program or a host answers and which
  paths are symbolic links are arguments. A function's result is the values it pushes: \<open>Inl\<close> the
  message after a \<open>nil\<close>.
\<close>

section \<open>Paths\<close>

text \<open>
  \<open>path.Clean\<close>: the components without the empty ones and \<open>.\<close>, each \<open>..\<close> taking away the one before it;
  at the root a \<open>..\<close> is dropped, in a relative path it stays.
\<close>

fun clean_step :: "bool \<Rightarrow> string list \<Rightarrow> string list \<Rightarrow> string list" where
  "clean_step rooted acc [] = rev acc"
| "clean_step rooted acc (c # cs) =
     (if c = [] \<or> c = ''.'' then clean_step rooted acc cs
      else if c = ''..''
      then (case acc of
              [] \<Rightarrow> clean_step rooted (if rooted then [] else [''..'']) cs
            | a # acc' \<Rightarrow> clean_step rooted (if a = ''..'' then ''..'' # acc else acc') cs)
      else clean_step rooted (c # acc) cs)"

definition path_Clean :: "string \<Rightarrow> string" where
  "path_Clean p =
     (let cs = clean_step (IsAbs p) [] (Split p (CHR ''/''))
      in if IsAbs p then CHR ''/'' # Join cs ''/''
         else if cs = [] then ''.'' else Join cs ''/'')"

definition allowedPath :: "string \<Rightarrow> string list \<Rightarrow> string option" where
  "allowedPath p0 allowed =
     (if \<not> IsAbs p0 then None
      else let p = path_Clean p0
           in if list_ex (\<lambda>pre0. let pre = path_Clean pre0 in p = pre \<or> HasPrefix p (TrimSuffix pre ''/'' @ ''/'')) allowed
              then Some p else None)"

section \<open>Files\<close>

type_synonym plugin_files = "(string, string) gomap"

abbreviation readMax :: nat where "readMax \<equiv> 1048576"

definition luaRead :: "permissions \<Rightarrow> plugin_files \<Rightarrow> string \<Rightarrow> string + string" where
  "luaRead pm fs path =
     (case allowedPath path (pm_Read pm) of
        None \<Rightarrow> Inl ''permission denied: path not in permissions.read''
      | Some p \<Rightarrow>
          (case map_of fs p of
             None \<Rightarrow> Inl ''no such file''
           | Some b \<Rightarrow> if length b > readMax then Inl ''file larger than 1 MiB'' else Inr b))"

text \<open>
  \<open>is_link\<close> says which paths are symbolic links; \<open>io\<close> is the error of the write, if any, with how many
  bytes had reached the file by then (\<open>None\<close>: it could not be opened). A replacement is written to a
  temporary file next to the target that is removed when anything fails, so only an append can leave
  part of its data behind. The temporary file itself is not part of the files here.
\<close>

definition file_text :: "plugin_files \<Rightarrow> string \<Rightarrow> string" where
  "file_text fs p = (case map_of fs p of Some b \<Rightarrow> b | None \<Rightarrow> [])"

definition luaWrite ::
  "permissions \<Rightarrow> (string \<Rightarrow> bool) \<Rightarrow> (string \<times> nat option) option \<Rightarrow> plugin_files \<Rightarrow> string \<Rightarrow> string \<Rightarrow> bool \<Rightarrow>
     (string + bool) \<times> plugin_files" where
  "luaWrite pm is_link io fs path data app =
     (case allowedPath path (pm_Write pm) of
        None \<Rightarrow> (Inl ''permission denied: path not in permissions.write'', fs)
      | Some p \<Rightarrow>
          if length data > readMax then (Inl ''data larger than 1 MiB'', fs)
          else if is_link p then (Inl ''refusing to write through a symlink'', fs)
          else (case io of
                  Some (e, Some n) \<Rightarrow> (Inl e, if app then map_put p (file_text fs p @ take n data) fs else fs)
                | Some (e, None) \<Rightarrow> (Inl e, fs)
                | None \<Rightarrow> (Inr True, map_put p (if app then file_text fs p @ data else data) fs)))"

section \<open>Time left for a host function\<close>

text \<open>A time left that is negative gives 0 whichever way the tenth of it is rounded.\<close>

abbreviation hostMargin :: duration where "hostMargin \<equiv> second"

definition hostTimeout :: "duration option \<Rightarrow> duration \<Rightarrow> duration" where
  "hostTimeout left limit =
     (case left of None \<Rightarrow> limit | Some l \<Rightarrow> min limit (max (l - min hostMargin (l div 10)) 0))"

section \<open>Programs\<close>

definition env_refused :: "string \<Rightarrow> bool" where
  "env_refused name \<longleftrightarrow> HasPrefix name ''LD_'' \<or> HasPrefix name ''DYLD_'' \<or> name = [] \<or> Contains name ''=''"

text \<open>A buffer that keeps the first \<open>n\<close> bytes.\<close>

definition capped_Write :: "nat \<Rightarrow> string \<Rightarrow> string \<Rightarrow> string" where
  "capped_Write n buf p = (if n > length buf then buf @ take (min (n - length buf) (length p)) p else buf)"

text \<open>The third argument of \<open>beacle.exec\<close>, the program as it is started, and how it ends.\<close>

record exec_opts =
  eo_timeout :: "real option"
  eo_stdin :: "string option"
  eo_dir :: "string option"
  eo_env :: "(string \<times> string) list option"

record exec_run =
  er_cmd :: string
  er_args :: "string list"
  er_limit :: duration
  er_stdin :: "string option"
  er_dir :: "string option"
  er_env :: "string list option"

datatype exec_end = RanOut | ExitedWith int | RunFailed string

text \<open>
  \<open>run\<close> is the host: what the program writes, piece by piece, on its two outputs, and how it ends. Of
  several names of the environment that are refused the last one is reported.
\<close>

definition exec_limit :: "exec_opts option \<Rightarrow> duration" where
  "exec_limit opts =
     (case opts of None \<Rightarrow> 5 * second
      | Some eo \<Rightarrow> (case eo_timeout eo of Some n \<Rightarrow> if n > 0 then \<lfloor>n * real_of_int second\<rfloor> else 5 * second | None \<Rightarrow> 5 * second))"

definition exec_env :: "string list \<Rightarrow> exec_opts option \<Rightarrow> string + string list option" where
  "exec_env environ opts =
     (case Option.bind opts eo_env of
        None \<Rightarrow> Inr None
      | Some env \<Rightarrow>
          (case filter (\<lambda>(k, _). env_refused k) env of
             [] \<Rightarrow> Inr (Some (environ @ map (\<lambda>(k, v). k @ ''='' @ v) env))
           | bad \<Rightarrow> Inl (fst (last bad))))"

definition captured :: "string list \<Rightarrow> string" where
  "captured pieces = fold (\<lambda>p buf. capped_Write readMax buf p) pieces []"

definition luaExec ::
  "permissions \<Rightarrow> string list \<Rightarrow> duration option \<Rightarrow> (exec_run \<Rightarrow> string list \<times> string list \<times> exec_end) \<Rightarrow>
     string \<Rightarrow> string list \<Rightarrow> exec_opts option \<Rightarrow> (string + string \<times> int \<times> string) \<times> exec_run option" where
  "luaExec pm environ left run cmd args opts =
     (if cmd \<notin> set (pm_Exec pm) then (Inl (''permission denied: '' @ cmd @ '' not in permissions.exec''), None)
      else case exec_env environ opts of
             Inl bad \<Rightarrow> (Inl (''env '' @ bad @ '' is not allowed''), None)
           | Inr env \<Rightarrow>
               let c = \<lparr> er_cmd = cmd, er_args = args, er_limit = hostTimeout left (exec_limit opts),
                         er_stdin = Option.bind opts eo_stdin, er_dir = Option.bind opts eo_dir, er_env = env \<rparr>;
                   (out, errOut, how) = run c
               in (case how of
                     RanOut \<Rightarrow> Inl ''timed out''
                   | ExitedWith code \<Rightarrow> Inr (captured out, code, captured errOut)
                   | RunFailed e \<Rightarrow> Inl e, Some c))"

section \<open>Metrics\<close>

abbreviation maxMetrics :: nat where "maxMetrics \<equiv> 256"

definition metricNameRe :: "string \<Rightarrow> bool" where
  "metricNameRe s \<longleftrightarrow> 1 \<le> length s \<and> length s \<le> 64 \<and> list_all (\<lambda>c. lower_or_digit c \<or> c \<in> {CHR ''_'', CHR ''-''}) s"

datatype metric_problem = NotDeclared string | TooManyMetrics

definition luaMetric ::
  "manifest \<Rightarrow> (string, real) gomap \<Rightarrow> string \<Rightarrow> real option \<Rightarrow> (metric_problem + unit) \<times> (string, real) gomap" where
  "luaMetric m values name v =
     (if LookupMetric (mf_Metrics m) name = None \<or> \<not> metricNameRe name then (Inl (NotDeclared name), values)
      else case v of
             None \<Rightarrow> (Inr (), map_del name values)
           | Some x \<Rightarrow>
               if map_of values name = None \<and> length values \<ge> maxMetrics then (Inl TooManyMetrics, values)
               else (Inr (), map_put name x values))"

definition runtime_Values :: "string \<Rightarrow> (string, real) gomap \<Rightarrow> (string, real) gomap" where
  "runtime_Values i values = map (\<lambda>(k, v). (MetricKey i k, v)) values"

section \<open>Hosts\<close>

text \<open>\<open>Hostname\<close> is what \<open>url.Parse\<close> gives as scheme and host name.\<close>

definition hostAllowed :: "manifest \<Rightarrow> any_map \<Rightarrow> (string \<Rightarrow> (string \<times> string) option) \<Rightarrow> string \<Rightarrow> bool" where
  "hostAllowed m cfg Parse host =
     (''*'' \<in> set (pm_HTTP (mf_Permissions m)) \<or> host \<in> set (pm_HTTP (mf_Permissions m)) \<or>
      list_ex (\<lambda>f. cf_Type f = ''url'' \<and>
          (case map_of cfg (cf_Key f) of
             Some (AStr s) \<Rightarrow> s \<noteq> [] \<and> (case Parse s of Some (_, h) \<Rightarrow> h = host | None \<Rightarrow> False)
           | _ \<Rightarrow> False)) (mf_Config m))"

datatype 'r http_answer = HTTPAnswer 'r | HTTPRedirect string

datatype http_problem = BadURL | HostDenied string | RedirectDenied string | OutOfTime | RequestFailed

text \<open>
  A request with the redirects it follows: \<open>fetch\<close> is what the host answers to a URL, \<open>None\<close> a failure.
  A client with a \<open>CheckRedirect\<close> of its own has no limit on redirects, so \<open>n\<close> is the number the time
  left allows. The result is the answer and the URLs that were asked.
\<close>

fun follow ::
  "manifest \<Rightarrow> any_map \<Rightarrow> (string \<Rightarrow> (string \<times> string) option) \<Rightarrow> (string \<Rightarrow> 'r http_answer option) \<Rightarrow>
     nat \<Rightarrow> string \<Rightarrow> string list \<Rightarrow> (http_problem + 'r) \<times> string list" where
  "follow m cfg Parse fetch n url asked =
     (case fetch url of
        None \<Rightarrow> (Inl RequestFailed, asked @ [url])
      | Some (HTTPAnswer r) \<Rightarrow> (Inr r, asked @ [url])
      | Some (HTTPRedirect next_url) \<Rightarrow>
          (case Parse next_url of
             None \<Rightarrow> (Inl RequestFailed, asked @ [url])
           | Some (_, host) \<Rightarrow>
               if \<not> hostAllowed m cfg Parse host then (Inl (RedirectDenied host), asked @ [url])
               else (case n of
                       0 \<Rightarrow> (Inl OutOfTime, asked @ [url])
                     | Suc k \<Rightarrow> follow m cfg Parse fetch k next_url (asked @ [url]))))"

declare follow.simps [simp del]

definition doHTTP ::
  "manifest \<Rightarrow> any_map \<Rightarrow> (string \<Rightarrow> (string \<times> string) option) \<Rightarrow> (string \<Rightarrow> 'r http_answer option) \<Rightarrow>
     nat \<Rightarrow> string \<Rightarrow> (http_problem + 'r) \<times> string list" where
  "doHTTP m cfg Parse fetch n url =
     (case Parse url of
        None \<Rightarrow> (Inl BadURL, [])
      | Some (scheme, host) \<Rightarrow>
          if scheme \<noteq> ''http'' \<and> scheme \<noteq> ''https'' then (Inl BadURL, [])
          else if \<not> hostAllowed m cfg Parse host then (Inl (HostDenied host), [])
          else follow m cfg Parse fetch n url [])"

section \<open>The panel's own routes\<close>

definition apiBlocked :: "string \<Rightarrow> bool" where
  "apiBlocked p \<longleftrightarrow> Contains p ''/plugins'' \<or> p = ''/api/shutdown'' \<or> HasSuffix p ''/terminal'' \<or> HasSuffix p ''/ws''"

text \<open>
  \<open>path.Match\<close> for the patterns a valid manifest can hold, in which only \<open>*\<close> is special: it stands for
  any run of characters without a slash.
\<close>

fun path_Match :: "string \<Rightarrow> string \<Rightarrow> bool" where
  "path_Match [] s = (s = [])"
| "path_Match (c # pat) s =
     (if c = CHR ''*''
      then path_Match pat s \<or> (case s of [] \<Rightarrow> False | x # s' \<Rightarrow> x \<noteq> CHR ''/'' \<and> path_Match (c # pat) s')
      else (case s of [] \<Rightarrow> False | x # s' \<Rightarrow> x = c \<and> path_Match pat s'))"

definition cut_space :: "string \<Rightarrow> string \<times> string" where
  "cut_space a = (case index_of (CHR '' '') a of None \<Rightarrow> (a, []) | Some i \<Rightarrow> (take i a, drop (Suc i) a))"

definition apiAllowed :: "string list \<Rightarrow> string \<Rightarrow> string \<Rightarrow> bool" where
  "apiAllowed perms method p =
     (if \<not> HasPrefix p ''/api/'' \<or> path_Clean p \<noteq> p \<or> ContainsAny p [CHR ''%'', CHR 0x5C, CHR ''#''] \<or> apiBlocked p then False
      else list_ex (\<lambda>a. let (m, pat) = cut_space a in (m = ''*'' \<or> m = method) \<and> path_Match pat p) perms)"

end
