(* ===== verification/Plugin_Host_Laws.thy ===== *)
theory Plugin_Host_Laws
  imports Plugin_Host
begin

text \<open>
  What the permissions of a manifest are worth: the files a plugin can change, the hosts it can reach
  and the panel's routes it can call are those the manifest names, however the path, the address or
  the route is written; and the settings it is given have the types its manifest declares.
\<close>

section \<open>Clean paths\<close>

definition plain_name :: "string \<Rightarrow> bool" where
  "plain_name c \<longleftrightarrow> c \<noteq> [] \<and> c \<noteq> ''.'' \<and> c \<noteq> ''..'' \<and> CHR ''/'' \<notin> set c"

text \<open>The names an absolute path leads through.\<close>

definition path_names :: "string \<Rightarrow> string list" where
  "path_names p = clean_step True [] (Split p (CHR ''/''))"

lemma Split_no_sep: "c \<in> set (Split p x) \<Longrightarrow> x \<notin> set c"
  by (auto dest: split_by_pieces)

lemma clean_step_plain:
  "list_all plain_name acc \<Longrightarrow> \<forall>c \<in> set cs. CHR ''/'' \<notin> set c \<Longrightarrow> list_all plain_name (clean_step True acc cs)"
proof (induction "True" acc cs rule: clean_step.induct)
  case (2 acc c cs)
  show ?case
  proof (cases "c = [] \<or> c = ''.''")
    case True
    then show ?thesis using 2 by simp
  next
    case plain: False
    show ?thesis
    proof (cases "c = ''..''")
      case True
      then show ?thesis
        using 2 plain by (cases acc) (simp_all add: plain_name_def)
    next
      case False
      have "plain_name c" using plain False 2(6) by (simp add: plain_name_def)
      then show ?thesis using 2 plain False by simp
    qed
  qed
qed (simp add: list_all_iff)

lemma path_names_plain: "list_all plain_name (path_names p)"
  unfolding path_names_def by (rule clean_step_plain) (auto dest: Split_no_sep)

lemma path_Clean_abs: "IsAbs p \<Longrightarrow> path_Clean p = CHR ''/'' # Join (path_names p) ''/''"
  by (simp add: path_Clean_def path_names_def Let_def)

lemma clean_step_id: "list_all plain_name cs \<Longrightarrow> clean_step True acc cs = rev acc @ cs"
  by (induction cs arbitrary: acc) (auto simp: plain_name_def)

lemma Split_names:
  assumes "list_all plain_name ns" "ns \<noteq> []"
  shows "Split (CHR ''/'' # Join ns ''/'') (CHR ''/'') = [] # ns"
  using Split_Join [OF assms(2), of "CHR ''/''"] assms(1) by (auto simp: plain_name_def list_all_iff)

lemma path_names_of_names: "list_all plain_name ns \<Longrightarrow> path_names (CHR ''/'' # Join ns ''/'') = ns"
proof (cases "ns = []")
  case False
  assume ns: "list_all plain_name ns"
  show ?thesis unfolding path_names_def Split_names [OF ns False] by (simp add: clean_step_id [OF ns])
qed (simp add: path_names_def)

lemma TrimSuffix_last: "s \<noteq> [] \<Longrightarrow> last s \<noteq> x \<Longrightarrow> TrimSuffix s [x] = s"
  by (cases s rule: rev_cases) (simp_all add: TrimSuffix_def HasSuffix_def HasPrefix_def)

lemma path_Clean_idem: "IsAbs p \<Longrightarrow> IsAbs (path_Clean p) \<and> path_Clean (path_Clean p) = path_Clean p \<and>
    path_names (path_Clean p) = path_names p"
  using path_names_of_names [OF path_names_plain [of p]]
  by (simp add: path_Clean_abs) (simp add: IsAbs_def HasPrefix_def path_Clean_abs)

lemma Join_snoc_prefix:
  assumes "prefix (Join ms [x] @ [x]) (Join ns [x])" "\<forall>c \<in> set ms. x \<notin> set c" "\<forall>c \<in> set ns. x \<notin> set c" "ns \<noteq> []" "ms \<noteq> []"
  shows "prefix ms ns"
proof -
  obtain r where r: "Join ns [x] = Join ms [x] @ x # r" using assms(1) by (auto simp: prefix_def)
  have "Split (Join ms [x] @ x # r) x = ms @ Split r x"
    using assms(2,5)
  proof (induction ms "[x]" rule: Join.induct)
    case (2 w)
    then show ?case using split_by_append [of w "\<lambda>y. y = x" x r] by auto
  next
    case (3 w v ms)
    have "\<forall>y \<in> set w. y \<noteq> x" using 3(2) by auto
    then show ?case using 3 split_by_append [of w "\<lambda>y. y = x" x "Join (v # ms) [x] @ x # r"] by simp
  qed simp
  then have "ns = ms @ Split r x" using Split_Join [OF assms(4,3)] r by simp
  then show ?thesis by simp
qed

lemma last_name: "list_all plain_name ns \<Longrightarrow> ns \<noteq> [] \<Longrightarrow> last (CHR ''/'' # Join ns ''/'') \<noteq> CHR ''/''"
proof (induction ns "''/''" rule: Join.induct)
  case (2 w)
  then show ?case by (auto simp: plain_name_def dest: last_in_set)
next
  case (3 w v ws)
  have "Join (v # ws) ''/'' \<noteq> []" using 3(2) by (cases ws) (auto simp: plain_name_def)
  then show ?case using 3 by simp
qed simp

text \<open>An allowed path leads through the names of one of the permitted ones.\<close>

lemma allowedPath_under:
  assumes "allowedPath p allowed = Some q" "list_all IsAbs allowed"
  shows "IsAbs q \<and> path_Clean q = q \<and> (\<exists>pre \<in> set allowed. prefix (path_names pre) (path_names q))"
proof -
  have p: "IsAbs p" "q = path_Clean p" using assms(1) by (auto simp: allowedPath_def Let_def split: if_splits)
  obtain pre where pre: "pre \<in> set allowed" "q = path_Clean pre \<or> HasPrefix q (TrimSuffix (path_Clean pre) ''/'' @ ''/'')"
    using assms(1) by (auto simp: allowedPath_def Let_def list_ex_iff split: if_splits)
  have abs: "IsAbs pre" using assms(2) pre(1) by (simp add: list_all_iff)
  have names: "list_all plain_name (path_names pre)" "list_all plain_name (path_names p)" by (rule path_names_plain)+
  have "prefix (path_names pre) (path_names q)"
  proof (cases "path_names pre = []")
    case False
    show ?thesis using pre(2)
    proof
      assume "q = path_Clean pre"
      then show ?thesis using path_Clean_idem [OF abs] by simp
    next
      assume h: "HasPrefix q (TrimSuffix (path_Clean pre) ''/'' @ ''/'')"
      have "TrimSuffix (path_Clean pre) ''/'' = path_Clean pre"
        unfolding path_Clean_abs [OF abs] by (rule TrimSuffix_last [OF _ last_name [OF names(1) False]]) simp
      then have pf: "prefix (Join (path_names pre) ''/'' @ ''/'') (Join (path_names p) ''/'')"
        using h by (simp add: p(2) HasPrefix_prefix path_Clean_abs [OF abs] path_Clean_abs [OF p(1)])
      then have "path_names p \<noteq> []" by auto
      then show ?thesis
        using Join_snoc_prefix [OF pf] names False path_Clean_idem [OF p(1)] p(2)
        by (auto simp: list_all_iff plain_name_def)
    qed
  qed simp
  then show ?thesis using pre(1) path_Clean_idem [OF p(1)] p(2) by auto
qed

section \<open>Patterns\<close>

lemma Split_Cons:
  "Split (x # s) c = (if x = c then [] # Split s c else (x # hd (Split s c)) # tl (Split s c))"
  by (auto split: list.split)

text \<open>A pattern matches piece by piece: no star reaches over a slash.\<close>

lemma match_pieces: "path_Match pat s \<Longrightarrow> list_all2 path_Match (Split pat (CHR ''/'')) (Split s (CHR ''/''))"
proof (induction pat s rule: path_Match.induct)
  case (2 c pat s)
  obtain w ws where w: "Split pat (CHR ''/'') = w # ws" by (metis list.exhaust split_by_nonempty)
  show ?case
  proof (cases "c = CHR ''*''")
    case star: True
    have pat: "Split (c # pat) (CHR ''/'') = (c # w) # ws" using star w by simp
    show ?thesis
    proof (cases "path_Match pat s")
      case True
      then have "list_all2 path_Match (w # ws) (Split s (CHR ''/''))" using 2(1) star w by simp
      then show ?thesis unfolding pat using star by (cases "Split s (CHR ''/'')") auto
    next
      case False
      then obtain x s' where x: "s = x # s'" "x \<noteq> CHR ''/''" "path_Match (c # pat) s'"
        using 2(4) star by (auto split: list.splits)
      then have "list_all2 path_Match ((c # w) # ws) (Split s' (CHR ''/''))" using 2(2) star pat by simp
      then show ?thesis unfolding pat x(1) using x(2) star by (cases "Split s' (CHR ''/'')") auto
    qed
  next
    case False
    then obtain s' where s: "s = c # s'" "path_Match pat s'" using 2(4) by (auto split: list.splits)
    then have IH: "list_all2 path_Match (w # ws) (Split s' (CHR ''/''))" using 2(3) False w by simp
    then show ?thesis
      unfolding s(1) using False w by (cases "Split s' (CHR ''/'')") (auto simp: w)
  qed
qed simp

section \<open>What validation gives\<close>

lemma first_error_None: "first_error f xs = None \<longleftrightarrow> (\<forall>x \<in> set xs. f x = None)"
  by (induction xs) (auto split: option.splits)

lemma orelse_None: "orelse a b = None \<longleftrightarrow> a = None \<and> b = None"
  by (auto simp: orelse_def split: option.splits)

lemma validated_paths:
  "manifest_Validate m = None \<Longrightarrow> list_all IsAbs (pm_Write (mf_Permissions m)) \<and> list_all IsAbs (pm_Read (mf_Permissions m))"
  by (auto simp: manifest_Validate_def orelse_None first_error_None list_all_iff split: if_splits)

lemma config_error_None:
  "config_error seen fs = None \<Longrightarrow> distinct (map cf_Key fs) \<and> set (map cf_Key fs) \<inter> set seen = {}"
  by (induction seen fs rule: config_error.induct) (auto split: if_splits)

lemma validated_keys: "manifest_Validate m = None \<Longrightarrow> distinct (map cf_Key (mf_Config m))"
  using config_error_None [of "[]" "mf_Config m"] by (auto simp: manifest_Validate_def orelse_None split: if_splits)

section \<open>The properties\<close>

text \<open>A call of \<open>beacle.write\<close>: whether a path is a symbolic link, what the write fails with, and the arguments.\<close>

record write_call =
  wc_link :: "string \<Rightarrow> bool"
  wc_io :: "(string \<times> nat option) option"
  wc_path :: string
  wc_data :: string
  wc_app :: bool

definition plugin_writes :: "permissions \<Rightarrow> write_call list \<Rightarrow> plugin_files \<Rightarrow> plugin_files" where
  "plugin_writes pm cs fs = fold (\<lambda>c fs. snd (luaWrite pm (wc_link c) (wc_io c) fs (wc_path c) (wc_data c) (wc_app c))) cs fs"

definition under :: "string list \<Rightarrow> string \<Rightarrow> bool" where
  "under allowed q \<longleftrightarrow> IsAbs q \<and> path_Clean q = q \<and> (\<exists>pre \<in> set allowed. prefix (path_names pre) (path_names q))"

lemma luaWrite_local:
  assumes "list_all IsAbs (pm_Write pm)" "map_of (snd (luaWrite pm lk io fs p d a)) q \<noteq> map_of fs q"
  shows "under (pm_Write pm) q"
  using assms allowedPath_under [OF _ assms(1), of p q]
  by (auto simp: luaWrite_def under_def split: option.splits if_splits)

text \<open>
  C1. The files a plugin can change are those its manifest names: after any sequence of \<open>beacle.write\<close>,
  however the paths are written (with \<open>..\<close>, doubled slashes, a prefix that only looks alike), every
  path whose content differs is clean and lies under one of the paths of \<open>permissions.write\<close>; and
  \<open>beacle.read\<close> shows nothing from outside \<open>permissions.read\<close>.
\<close>

theorem plugin_files_are_confined:
  assumes "manifest_Validate m = None"
  shows "(\<forall>q. map_of (plugin_writes (mf_Permissions m) cs fs) q \<noteq> map_of fs q \<longrightarrow> under (pm_Write (mf_Permissions m)) q) \<and>
    (\<forall>p b. luaRead (mf_Permissions m) fs p = Inr b \<longrightarrow> (\<exists>q. under (pm_Read (mf_Permissions m)) q \<and> map_of fs q = Some b))"
proof -
  have abs: "list_all IsAbs (pm_Write (mf_Permissions m))" "list_all IsAbs (pm_Read (mf_Permissions m))"
    using assms validated_paths [OF assms] by simp_all
  have "under (pm_Write (mf_Permissions m)) q" if "map_of (plugin_writes (mf_Permissions m) cs fs) q \<noteq> map_of fs q" for q
    using that
  proof (induction cs arbitrary: fs)
    case (Cons c cs)
    let ?fs = "snd (luaWrite (mf_Permissions m) (wc_link c) (wc_io c) fs (wc_path c) (wc_data c) (wc_app c))"
    show ?case
    proof (cases "map_of ?fs q = map_of fs q")
      case True
      then show ?thesis using Cons.IH [of ?fs] Cons.prems by (simp add: plugin_writes_def)
    qed (rule luaWrite_local [OF abs(1)])
  qed (simp add: plugin_writes_def)
  moreover have "\<exists>q. under (pm_Read (mf_Permissions m)) q \<and> map_of fs q = Some b" if "luaRead (mf_Permissions m) fs p = Inr b" for p b
    using that allowedPath_under [OF _ abs(2), of p]
    by (auto simp: luaRead_def under_def split: option.splits if_splits)
  ultimately show ?thesis by blast
qed

definition demo_manifest :: manifest where
  "demo_manifest = \<lparr> mf_ID = ''backup'', mf_Name = ''Backup'', mf_Version = ''1.0'',
     mf_Permissions = \<lparr> pm_Read = [''/proc''], pm_Exec = [''restic''], pm_HTTP = [''example.org''],
       pm_Write = [''/var/backup/''], pm_API = [''GET /api/vps/*''] \<rparr>,
     mf_Metrics = [], mf_Config = [\<lparr> cf_Key = ''every'', cf_Label = [], cf_Type = ''number'', cf_Default = ANil,
       cf_Help = [], cf_Options = [] \<rparr>], mf_Timeout = 0 \<rparr>"

lemma demo_manifest_valid: "manifest_Validate demo_manifest = None"
  by code_simp

definition demo_write :: "string \<Rightarrow> write_call" where
  "demo_write p = \<lparr> wc_link = (\<lambda>_. False), wc_io = None, wc_path = p, wc_data = ''x'', wc_app = False \<rparr>"

theorem plugin_files_are_confined_witness:
  "map_of (plugin_writes (mf_Permissions demo_manifest)
       [demo_write ''/var/backup/../../etc/passwd'', demo_write ''/var/backup/a/./b''] []) ''/var/backup/a/b'' = Some ''x'' \<and>
   under [''/var/backup/''] ''/var/backup/a/b''"
proof -
  have a: "allowedPath ''/var/backup/../../etc/passwd'' [''/var/backup/''] = None"
    "allowedPath ''/var/backup/a/./b'' [''/var/backup/''] = Some ''/var/backup/a/b''" by code_simp+
  have w: "map_of (plugin_writes (mf_Permissions demo_manifest)
       [demo_write ''/var/backup/../../etc/passwd'', demo_write ''/var/backup/a/./b''] []) ''/var/backup/a/b'' = Some ''x''"
    by (simp add: plugin_writes_def luaWrite_def demo_write_def demo_manifest_def a)
  have pm: "pm_Write (mf_Permissions demo_manifest) = [''/var/backup/'']" by (simp add: demo_manifest_def)
  have "map_of (plugin_writes (mf_Permissions demo_manifest)
       [demo_write ''/var/backup/../../etc/passwd'', demo_write ''/var/backup/a/./b''] []) ''/var/backup/a/b'' \<noteq> map_of [] ''/var/backup/a/b''"
    unfolding w by simp
  with plugin_files_are_confined [OF demo_manifest_valid,
      of "[demo_write ''/var/backup/../../etc/passwd'', demo_write ''/var/backup/a/./b'']" "[]"]
  have "under (pm_Write (mf_Permissions demo_manifest)) ''/var/backup/a/b''" by blast
  then show ?thesis unfolding pm using w by (rule conjI [rotated])
qed

lemma typed_host:
  assumes "hostAllowed m cfg Parse h"
  shows "''*'' \<in> set (pm_HTTP (mf_Permissions m)) \<or> h \<in> set (pm_HTTP (mf_Permissions m)) \<or>
    (\<exists>f \<in> set (mf_Config m). cf_Type f = ''url'' \<and> (\<exists>s sch. map_of cfg (cf_Key f) = Some (AStr s) \<and> Parse s = Some (sch, h)))"
proof -
  have "\<exists>s sch. map_of cfg (cf_Key f) = Some (AStr s) \<and> Parse s = Some (sch, h)"
    if "case map_of cfg (cf_Key f) of
          Some (AStr s) \<Rightarrow> s \<noteq> [] \<and> (case Parse s of Some (_, h') \<Rightarrow> h' = h | None \<Rightarrow> False) | _ \<Rightarrow> False" for f
    using that by (auto split: option.splits go_any.splits prod.splits)
  then show ?thesis using assms unfolding hostAllowed_def list_ex_iff by blast
qed

lemma follow_hosts:
  assumes "\<forall>u \<in> set (url # asked). \<exists>sch h. Parse u = Some (sch, h) \<and> hostAllowed m cfg Parse h"
  shows "\<forall>u \<in> set (snd (follow m cfg Parse fetch n url asked)). \<exists>sch h. Parse u = Some (sch, h) \<and> hostAllowed m cfg Parse h"
  using assms
proof (induction m cfg Parse fetch n url asked rule: follow.induct)
  case (1 m cfg Parse fetch n url asked)
  note asked = "1.prems"
  have fin: "\<forall>u \<in> set (asked @ [url]). \<exists>sch h. Parse u = Some (sch, h) \<and> hostAllowed m cfg Parse h" using asked by simp
  show ?case
  proof (cases "\<exists>next_url sch host k. fetch url = Some (HTTPRedirect next_url) \<and> Parse next_url = Some (sch, host) \<and>
      hostAllowed m cfg Parse host \<and> n = Suc k")
    case True
    then obtain next_url sch host k where r: "fetch url = Some (HTTPRedirect next_url)" "Parse next_url = Some (sch, host)"
        "hostAllowed m cfg Parse host" "n = Suc k" by blast
    have "follow m cfg Parse fetch n url asked = follow m cfg Parse fetch k next_url (asked @ [url])"
      by (subst follow.simps) (simp add: r)
    then show ?thesis using "1.IH" [OF r(1) refl r(2) refl] r(2-4) fin by simp
  next
    case False
    have "snd (follow m cfg Parse fetch n url asked) = asked @ [url]"
      using False by (subst follow.simps) (auto split: option.split http_answer.split nat.split)
    then show ?thesis using fin by simp
  qed
qed

lemma doHTTP_hosts:
  "\<forall>u \<in> set (snd (doHTTP m cfg Parse fetch n url)). \<exists>sch h. Parse u = Some (sch, h) \<and> hostAllowed m cfg Parse h"
proof (cases "\<exists>sch h. Parse url = Some (sch, h) \<and> hostAllowed m cfg Parse h")
  case True
  then obtain sch h where r: "Parse url = Some (sch, h)" "hostAllowed m cfg Parse h" by blast
  have "\<forall>u \<in> set (snd (follow m cfg Parse fetch n url [])). \<exists>sch h. Parse u = Some (sch, h) \<and> hostAllowed m cfg Parse h"
    by (rule follow_hosts) (simp add: r)
  then show ?thesis by (simp add: doHTTP_def r)
next
  case False
  then have "snd (doHTTP m cfg Parse fetch n url) = []" by (auto simp: doHTTP_def split: option.split)
  then show ?thesis by simp
qed

text \<open>
  C2. A plugin talks to no host but those its manifest names or the user typed into its settings:
  every URL that is asked, the redirects that are followed included, is one whose host the manifest
  lists (or it lists \<open>*\<close>), or the host of the value of one of its url settings.
\<close>

theorem plugin_hosts_are_confined:
  assumes "u \<in> set (snd (doHTTP m cfg Parse fetch n url))"
  shows "\<exists>scheme h. Parse u = Some (scheme, h) \<and>
      (''*'' \<in> set (pm_HTTP (mf_Permissions m)) \<or> h \<in> set (pm_HTTP (mf_Permissions m)) \<or>
       (\<exists>f \<in> set (mf_Config m). cf_Type f = ''url'' \<and>
          (\<exists>s sch. map_of cfg (cf_Key f) = Some (AStr s) \<and> Parse s = Some (sch, h))))"
proof -
  obtain sch h where h: "Parse u = Some (sch, h)" "hostAllowed m cfg Parse h"
    using doHTTP_hosts assms by blast
  from typed_host [OF h(2)] h(1) show ?thesis by (intro exI conjI)
qed

text \<open>The server answers with a redirect to a host that is not listed: it is not followed.\<close>

definition demo_url :: "string \<Rightarrow> (string \<times> string) option" where
  "demo_url u = (if HasPrefix u ''https://'' then Some (''https'', drop 8 u) else None)"

theorem plugin_hosts_are_confined_witness:
  "snd (doHTTP demo_manifest [] demo_url (\<lambda>u. Some (HTTPRedirect ''https://evil'')) 3 ''https://example.org'') = [''https://example.org''] \<and>
   (\<exists>scheme h. demo_url ''https://example.org'' = Some (scheme, h))"
proof -
  have asked: "snd (doHTTP demo_manifest [] demo_url (\<lambda>u. Some (HTTPRedirect ''https://evil'')) 3 ''https://example.org'') = [''https://example.org'']"
    by code_simp
  have "''https://example.org'' \<in> set (snd (doHTTP demo_manifest [] demo_url (\<lambda>u. Some (HTTPRedirect ''https://evil'')) 3 ''https://example.org''))"
    unfolding asked by simp
  from plugin_hosts_are_confined [OF this] asked show ?thesis by (elim exE conjE) (intro conjI exI)
qed

text \<open>
  C3. A plugin reaches no panel route but those its manifest names: an allowed route is clean, none of
  its pieces is \<open>..\<close>, it is none of the routes kept from every plugin, and a pattern of the manifest
  with the right method matches it piece by piece, so a star never reaches over a slash.
\<close>

theorem plugin_routes_are_confined:
  assumes "apiAllowed perms method p"
  shows "HasPrefix p ''/api/'' \<and> ''..'' \<notin> set (Split p (CHR ''/'')) \<and> \<not> Contains p ''/plugins'' \<and> p \<noteq> ''/api/shutdown'' \<and>
    \<not> HasSuffix p ''/terminal'' \<and> \<not> HasSuffix p ''/ws'' \<and>
    (\<exists>a \<in> set perms. fst (cut_space a) \<in> {''*'', method} \<and>
       list_all2 path_Match (Split (snd (cut_space a)) (CHR ''/'')) (Split p (CHR ''/'')))"
proof -
  have a: "HasPrefix p ''/api/''" "path_Clean p = p" "\<not> apiBlocked p"
    using assms by (auto simp: apiAllowed_def split: if_splits)
  have "IsAbs p" using a(1) by (cases p) (auto simp: IsAbs_def HasPrefix_def)
  then have p: "CHR ''/'' # Join (path_names p) ''/'' = p" using a(2) path_Clean_abs [of p] by argo
  have "''..'' \<notin> set (Split p (CHR ''/''))"
  proof (cases "path_names p = []")
    case True
    have "Split (CHR ''/'' # Join (path_names p) ''/'') (CHR ''/'') = [[], []]" unfolding True by simp
    then show ?thesis unfolding p by simp
  next
    case False
    have "Split p (CHR ''/'') = [] # path_names p" using Split_names [OF path_names_plain False] unfolding p .
    then show ?thesis using path_names_plain [of p] by (auto simp: list_all_iff plain_name_def)
  qed
  moreover obtain a where "a \<in> set perms" "fst (cut_space a) \<in> {''*'', method}" "path_Match (snd (cut_space a)) p"
    using assms by (auto simp: apiAllowed_def list_ex_iff case_prod_beta Let_def split: if_splits)
  ultimately show ?thesis using a match_pieces unfolding apiBlocked_def by blast
qed

theorem plugin_routes_are_confined_witness:
  "\<not> Contains ''/api/vps/ab12'' ''/plugins'' \<and>
   (\<exists>a \<in> set [''GET /api/vps/*'']. fst (cut_space a) \<in> {''*'', ''GET''} \<and>
      list_all2 path_Match (Split (snd (cut_space a)) (CHR ''/'')) (Split ''/api/vps/ab12'' (CHR ''/'')))"
proof -
  have "apiAllowed [''GET /api/vps/*''] ''GET'' ''/api/vps/ab12''" by code_simp
  from plugin_routes_are_confined [OF this] show ?thesis by blast
qed

section \<open>Settings\<close>

definition typed_as :: "config_field \<Rightarrow> go_any \<Rightarrow> bool" where
  "typed_as f v \<longleftrightarrow>
     (if cf_Type f = ''number'' then (\<exists>n. v = ANum n)
      else if cf_Type f = ''bool'' then (\<exists>b. v = ABool b)
      else (\<exists>s. v = AStr s \<and> (cf_Type f = ''select'' \<longrightarrow> s \<in> set (cf_Options f)) \<and>
                 (cf_Type f = ''url'' \<longrightarrow> HasPrefix s ''http://'' \<or> HasPrefix s ''https://'')))"

definition settings_typed :: "config_field list \<Rightarrow> any_map \<Rightarrow> bool" where
  "settings_typed fs out \<longleftrightarrow>
     (\<forall>f \<in> set fs. \<forall>v. map_of out (cf_Key f) = Some v \<longrightarrow> typed_as f v) \<and> fst ` set out \<subseteq> cf_Key ` set fs"

lemma clean_field_typed:
  assumes "clean_field old inp f = Inr (Some v)" "\<And>w. map_of old (cf_Key f) = Some w \<Longrightarrow> typed_as f w"
  shows "typed_as f v"
  using assms
  by (auto simp: clean_field_def typed_as_def Let_def split: if_splits option.splits go_any.splits)

lemma settings_put:
  assumes "distinct (map cf_Key fs0)" "f \<in> set fs0" "typed_as f v" "settings_typed fs0 out"
  shows "settings_typed fs0 (map_put (cf_Key f) v out)"
proof -
  have "typed_as g w" if g: "g \<in> set fs0" "map_of (map_put (cf_Key f) v out) (cf_Key g) = Some w" for g w
  proof (cases "cf_Key g = cf_Key f")
    case True
    then have "g = f" using assms(1,2) g(1) by (simp add: distinct_map inj_on_def)
    then show ?thesis using g(2) assms(3) by simp
  next
    case False
    then show ?thesis using g assms(4) by (simp add: settings_typed_def)
  qed
  moreover have "fst ` set (map_put (cf_Key f) v out) \<subseteq> cf_Key ` set fs0"
    unfolding dom_update using assms(2,4) by (auto simp: settings_typed_def)
  ultimately show ?thesis by (simp add: settings_typed_def)
qed

lemma clean_fields_typed:
  assumes "distinct (map cf_Key fs0)"
  shows "settings_typed fs0 old \<Longrightarrow> set fs \<subseteq> set fs0 \<Longrightarrow> settings_typed fs0 out \<Longrightarrow>
    clean_fields old inp fs out = Inr out' \<Longrightarrow> settings_typed fs0 out'"
proof (induction old inp fs out rule: clean_fields.induct)
  case (2 old inp f fs out)
  have f: "f \<in> set fs0" "set fs \<subseteq> set fs0" using "2.prems"(2) by simp_all
  obtain v where v: "clean_field old inp f = Inr v" using "2.prems"(4) by (simp split: sum.splits)
  show ?case
  proof (cases v)
    case None
    then show ?thesis using "2.IH"(1) [OF v None "2.prems"(1) f(2) "2.prems"(3)] "2.prems"(4) v by simp
  next
    case (Some w)
    have "typed_as f w"
      by (rule clean_field_typed [OF v [unfolded Some]]) (use "2.prems"(1) f(1) in \<open>simp add: settings_typed_def\<close>)
    then have "settings_typed fs0 (map_put (cf_Key f) w out)" by (rule settings_put [OF assms f(1) _ "2.prems"(3)])
    then show ?thesis using "2.IH"(2) [OF v Some "2.prems"(1) f(2)] "2.prems"(4) v Some by simp
  qed
qed simp

lemma no_secret:
  assumes "distinct (map cf_Key fs0)" "f \<in> set fs0" "cf_Type f = ''secret''"
  shows "map_of (fold (\<lambda>f out. if True \<and> cf_Type f = ''secret'' then out
      else case config_value stored f of Some v \<Rightarrow> map_put (cf_Key f) v out | None \<Rightarrow> out) fs0 []) (cf_Key f) = None"
proof -
  have "map_of (fold (\<lambda>f out. if True \<and> cf_Type f = ''secret'' then out
      else case config_value stored f of Some v \<Rightarrow> map_put (cf_Key f) v out | None \<Rightarrow> out) fs out) (cf_Key f) = map_of out (cf_Key f)"
    if "set fs \<subseteq> set fs0" for fs out
    using that
  proof (induction fs arbitrary: out)
    case (Cons g gs)
    have same: "cf_Key g = cf_Key f \<Longrightarrow> g = f" using assms(1,2) Cons.prems by (simp add: distinct_map inj_on_def)
    have gs: "set gs \<subseteq> set fs0" using Cons.prems by simp
    show ?case
    proof (cases "cf_Type g = ''secret''")
      case True
      then show ?thesis using Cons.IH [OF gs, of out] by simp
    next
      case False
      have key: "cf_Key g \<noteq> cf_Key f"
      proof
        assume "cf_Key g = cf_Key f"
        then have "g = f" by (rule same)
        then show False using False assms(3) by simp
      qed
      show ?thesis
      proof (cases "config_value stored g")
        case None
        then show ?thesis using Cons.IH [OF gs, of out] False by simp
      next
        case (Some v)
        then show ?thesis using Cons.IH [OF gs, of "map_put (cf_Key g) v out"] False key by simp
      qed
    qed
  qed simp
  from this [of fs0 "[]"] show ?thesis by simp
qed

lemma clean_fields_keeps:
  "clean_fields old inp fs out = Inr out' \<Longrightarrow> k \<notin> cf_Key ` set fs \<Longrightarrow> map_of out' k = map_of out k"
proof (induction old inp fs out rule: clean_fields.induct)
  case (2 old inp f fs out)
  obtain v where v: "clean_field old inp f = Inr v" using "2.prems"(1) by (simp split: sum.splits)
  then show ?case using 2 by (cases v) simp_all
qed simp

lemma clean_fields_secret:
  "clean_fields old inp fs out = Inr out' \<Longrightarrow> distinct (map cf_Key fs) \<Longrightarrow> f \<in> set fs \<Longrightarrow> cf_Type f = ''secret'' \<Longrightarrow>
   map_of inp (cf_Key f) \<in> {None, Some ANil} \<Longrightarrow> map_of old (cf_Key f) = Some w \<Longrightarrow> w \<noteq> ANil \<Longrightarrow> map_of out' (cf_Key f) = Some w"
proof (induction old inp fs out rule: clean_fields.induct)
  case (2 old inp g gs out)
  show ?case
  proof (cases "g = f")
    case True
    have sent: "(case map_of inp (cf_Key f) of Some v \<Rightarrow> v | None \<Rightarrow> ANil) = ANil"
      using "2.prems"(5) by (auto split: option.splits)
    have c: "clean_field old inp f = Inr (Some w)"
      unfolding clean_field_def Let_def sent using "2.prems"(4,6,7) by simp
    have "clean_fields old inp gs (map_put (cf_Key f) w out) = Inr out'" using "2.prems"(1) True c by simp
    then have "map_of out' (cf_Key f) = map_of (map_put (cf_Key f) w out) (cf_Key f)"
      by (rule clean_fields_keeps) (use "2.prems"(2) True in auto)
    then show ?thesis by simp
  next
    case False
    then have f: "f \<in> set gs" "distinct (map cf_Key gs)" using "2.prems"(2,3) by auto
    obtain v where v: "clean_field old inp g = Inr v" using "2.prems"(1) by (simp split: sum.splits)
    show ?thesis
    proof (cases v)
      case None
      then show ?thesis using "2.IH"(1) [OF v None _ f(2,1) "2.prems"(4-7)] "2.prems"(1) v by simp
    next
      case (Some x)
      then show ?thesis using "2.IH"(2) [OF v Some _ f(2,1) "2.prems"(4-7)] "2.prems"(1) v by simp
    qed
  qed
qed simp

text \<open>
  C4. Settings are well typed: whatever a form or a plugin sends, what is saved for an accepted manifest
  holds only its fields, each with a value of the field's type (a select's one of its options, a url's
  beginning with http), and a secret that was not sent is kept; an agent's part never gets a secret.
\<close>

theorem settings_are_well_typed:
  assumes "manifest_Validate m = None" "settings_typed (mf_Config m) old" "cleanConfig m old inp = Inr out"
  shows "settings_typed (mf_Config m) out \<and>
    (\<forall>f \<in> set (mf_Config m). \<forall>w. cf_Type f = ''secret'' \<and> map_of inp (cf_Key f) = None \<and>
       map_of old (cf_Key f) = Some w \<and> w \<noteq> ANil \<longrightarrow> map_of out (cf_Key f) = Some w) \<and>
    (\<forall>f \<in> set (mf_Config m). cf_Type f = ''secret'' \<longrightarrow> map_of (ConfigValues m stored True) (cf_Key f) = None)"
proof (intro conjI ballI allI impI)
  note d = validated_keys [OF assms(1)]
  have e: "settings_typed (mf_Config m) []" by (simp add: settings_typed_def)
  show "settings_typed (mf_Config m) out"
    using clean_fields_typed [OF d assms(2) subset_refl e, of inp out] assms(3) by (simp add: cleanConfig_def)
  show "map_of out (cf_Key f) = Some w"
    if "f \<in> set (mf_Config m)" "cf_Type f = ''secret'' \<and> map_of inp (cf_Key f) = None \<and> map_of old (cf_Key f) = Some w \<and> w \<noteq> ANil" for f w
    using clean_fields_secret [of old inp "mf_Config m" "[]" out f w] that assms(3) d by (simp add: cleanConfig_def)
  show "map_of (ConfigValues m stored True) (cf_Key f) = None" if f: "f \<in> set (mf_Config m)" "cf_Type f = ''secret''" for f
    using no_secret [OF d f(1,2)] by (simp add: ConfigValues_def)
qed

theorem settings_are_well_typed_witness:
  "settings_typed (mf_Config demo_manifest) [(''every'', ANum (Some 5))]"
proof -
  have "cleanConfig demo_manifest [] [(''every'', ANum (Some 5)), (''other'', ABool True)] = Inr [(''every'', ANum (Some 5))]" by code_simp
  from settings_are_well_typed [OF demo_manifest_valid _ this, of stored]
  show ?thesis by (simp add: settings_typed_def)
qed

section \<open>Programs\<close>

lemma capped_bound: "length buf \<le> n \<Longrightarrow> length (capped_Write n buf p) \<le> n"
  by (auto simp: capped_Write_def min_def)

lemma captured_bound: "length (captured pieces) \<le> readMax"
proof -
  have "length buf \<le> readMax \<Longrightarrow> length (fold (\<lambda>p buf. capped_Write readMax buf p) ps buf) \<le> readMax" for ps buf
    by (induction ps arbitrary: buf) (simp_all add: capped_bound)
  then show ?thesis by (simp add: captured_def)
qed

text \<open>A host function leaves some of the call it runs in: a tenth of what is left, or a second.\<close>

lemma hostTimeout_margin:
  "hostTimeout left limit \<le> limit \<and> (left = Some l \<and> l \<ge> 0 \<longrightarrow> hostTimeout left limit + min second (l div 10) \<le> l)"
  by (auto simp: hostTimeout_def split: option.split)

text \<open>Only a listed program is started, never with a variable that would load code into it, and what it prints is bounded.\<close>

lemma plugin_programs_are_confined:
  assumes "luaExec pm environ left run cmd args opts = (r, Some c)"
  shows "er_cmd c \<in> set (pm_Exec pm) \<and>
    (\<forall>env. er_env c = Some env \<longrightarrow> (\<forall>kv \<in> set env. kv \<in> set environ \<or> (\<exists>k v. kv = k @ ''='' @ v \<and> \<not> env_refused k))) \<and>
    (\<forall>out code errOut. r = Inr (out, code, errOut) \<longrightarrow> length out \<le> readMax \<and> length errOut \<le> readMax)"
proof -
  have cmd: "cmd \<in> set (pm_Exec pm)" using assms by (simp add: luaExec_def split: if_splits)
  obtain env where e: "exec_env environ opts = Inr env"
    using assms cmd by (cases "exec_env environ opts") (simp_all add: luaExec_def)
  let ?c = "\<lparr> er_cmd = cmd, er_args = args, er_limit = hostTimeout left (exec_limit opts),
    er_stdin = Option.bind opts eo_stdin, er_dir = Option.bind opts eo_dir, er_env = env \<rparr>"
  obtain out errOut how where run: "run ?c = (out, errOut, how)" by (cases "run ?c")
  have "c = ?c" "r = (case how of RanOut \<Rightarrow> Inl ''timed out'' | ExitedWith code \<Rightarrow> Inr (captured out, code, captured errOut)
      | RunFailed e \<Rightarrow> Inl e)"
    using assms cmd e run by (simp_all add: luaExec_def)
  then have c: "er_cmd c = cmd" "er_env c = env" "r = (case how of RanOut \<Rightarrow> Inl ''timed out''
      | ExitedWith code \<Rightarrow> Inr (captured out, code, captured errOut) | RunFailed e \<Rightarrow> Inl e)"
    by simp_all
  have "kv \<in> set environ \<or> (\<exists>k v. kv = k @ ''='' @ v \<and> \<not> env_refused k)" if es: "env = Some es" and kv: "kv \<in> set es" for es kv
  proof -
    obtain vars where v: "Option.bind opts eo_env = Some vars" "filter (\<lambda>(k, _). env_refused k) vars = []"
        "es = environ @ map (\<lambda>(k, v). k @ ''='' @ v) vars"
      using e es unfolding exec_env_def by (auto split: option.splits list.splits)
    then show ?thesis using kv by (auto simp: filter_empty_conv)
  qed
  moreover have "length out \<le> readMax \<and> length errOut \<le> readMax" if "r = Inr (out, code, errOut)" for out code errOut
    using that c(3) captured_bound by (auto split: exec_end.splits)
  ultimately show ?thesis using cmd c by blast
qed

end
