(* ===== verification/Spec2Isabelle.thy ===== *)
theory Spec2Isabelle
  imports Snapshot_Merge Uptime Agent_Samplers_Laws Collect_Gate Command_Lanes WireGuard_Keys Registration_Laws
    Firewall_Listing Cron_Laws Systemd_Unit_Laws Caddyfile Hub_Sessions
    Temp_Logins_Laws WireGuard_Service_Laws Plugin_Memory_Laws Plugin_Host_Laws
begin

text \<open>
  Beacle is a self-hosted panel for a fleet of Linux servers. A backend process on the user's own
  computer (\<^verbatim>\<open>src/backend\<close>) holds the registry, evaluates alerts and draws history; one agent per
  server (\<^verbatim>\<open>src/agent\<close>) streams snapshots to it over a WebSocket and, while the panel is away,
  watches its peers. \<^verbatim>\<open>src/shared\<close> holds what both sides exchange.

  \<^bold>\<open>Parts and theories.\<close>

  \<^item> \<open>Go_Prelude\<close>: the part of Go's run time and library the components share: time and durations,
    iterated maps, formatted text, list windows.
  \<^item> \<open>Shared_Models\<close>: records and enumerations of \<^verbatim>\<open>shared/models.go\<close> and \<^verbatim>\<open>shared/webhooks.go\<close>,
    per-server thresholds (\<^verbatim>\<open>shared/thresholds.go\<close>), snapshot to sample (\<^verbatim>\<open>shared/sample.go\<close>) and
    the lookup of a plugin metric's declaration (\<^verbatim>\<open>shared/plugin/manifest.go\<close>).
  \<^item> \<open>Store\<close>, \<open>Store_Laws\<close>: the registry of \<^verbatim>\<open>backend/store.go\<close> and the peers mirror of
    \<^verbatim>\<open>backend/wg_peers.go\<close>. One function per method of \<open>Store\<close> on the record \<open>store\<close>, which holds the
    state in memory, the dirty flag and the two files. The laws: an invariant over all runs of
    methods (\<open>store_step\<close>), durability of both files, recovery of WireGuard servers after a lost
    state file, deletion, token authentication, and the interfaces \<open>alert_table\<close> and
    \<open>vps_registry\<close> the engine uses.
  \<^item> \<open>Alerts\<close>, \<open>Alerts_Laws\<close>, \<open>Offline_Sweep\<close>, \<open>Engine_Runs\<close>: the alert engine of
    \<^verbatim>\<open>backend/alerts.go\<close> and the line monitor of \<^verbatim>\<open>backend/localnet.go\<close>, on the record \<open>engine\<close>.
    The locale \<open>engine_invariant\<close> lifts a property kept by the primitive updates to every entry
    point; \<open>sweep_invariant\<close> extends it to the sweep.
  \<^item> \<open>Alert_Properties\<close>, \<open>Sweep_Properties\<close>: what the engine promises: one open row per condition,
    no panic, exactly when the sustained, certificate and reachability alerts stand.
  \<^item> \<open>Time_Series\<close>, \<open>Time_Series_Laws\<close>: metric history (\<^verbatim>\<open>backend/history.go\<close>) and spike records
    (\<^verbatim>\<open>backend/spikes.go\<close>), both instances of the locale \<open>dedup_series\<close>.
  \<^item> \<open>Forecast\<close>: the disk forecast of \<^verbatim>\<open>backend/disk_forecast.go\<close>.
  \<^item> \<open>Uptime\<close>: the panel's own uptime log (\<^verbatim>\<open>backend/uptime_log.go\<close>).
  \<^item> \<open>Snapshot_Merge\<close>: one agent frame through registry, snapshots and alerts
    (\<^verbatim>\<open>backend/snapshot_merge.go\<close>).
  \<^item> \<open>Watchdog\<close>, \<open>Watchdog_Laws\<close>: the fleet watcher on an agent (\<^verbatim>\<open>agent/watchdog.go\<close>).
  \<^item> \<open>Election\<close>, \<open>Election_Laws\<close>: the notification service (\<^verbatim>\<open>backend/webhooks.go\<close>): settings,
    election of the two watchers, the configuration each agent gets, delivery through them. The
    laws join the election to the watcher it configures.
  \<^item> \<open>Agent_Buffers\<close>, \<open>Agent_Buffers_Laws\<close>, \<open>Handover\<close>: the two disk buffers an agent fills while
    the panel is away (\<^verbatim>\<open>agent/offline_buffer.go\<close>, \<^verbatim>\<open>agent/spike_buffer.go\<close>) and the flush of a
    reconnect (\<^verbatim>\<open>agent/ws_client.go\<close>). The locale \<open>disk_queue\<close> states what a line file promises; both
    buffers interpret it. \<open>Handover\<close> refines the file to a bounded log and follows the samples
    from the file over the frames into the backend's history.
  \<^item> \<open>Agent_Samplers\<close>, \<open>Agent_Samplers_Laws\<close>: the spike tracker and the CPU samplers
    (\<^verbatim>\<open>agent/spike_detect.go\<close>, \<^verbatim>\<open>agent/cpu_sampler.go\<close>).
  \<^item> \<open>Collect_Gate\<close>, \<open>Command_Lanes\<close>: the two places on the agent where goroutines meet, as step
    relations over the callers (\<^verbatim>\<open>agent/collect_gate.go\<close>; \<open>runCommand\<close> of \<^verbatim>\<open>agent/ws_client.go\<close>):
    mutual exclusion, the slot bound, that every joiner is served, and that lanes do not keep order.
  \<^item> \<open>WireGuard_Keys\<close>: keys, their text forms and join codes (\<^verbatim>\<open>shared/wireguard.go\<close>).
  \<^item> \<open>Registration\<close>, \<open>Registration_Laws\<close>: the register frame and the waiting list
    (\<^verbatim>\<open>backend/agent_register.go\<close>, \<^verbatim>\<open>backend/rejoin.go\<close>): who may take over an entry, and on what proof.

  \<^bold>\<open>How Go is read.\<close> A time is the number of nanoseconds since Go's zero time; differences saturate
  as \<open>Time.Sub\<close> does. \<open>float64\<close> is \<open>real\<close>; \<open>uint64\<close> counters are \<open>64 word\<close>. A map the code ranges
  over is an association list without duplicate keys, so every iteration order is some list; a map
  that is only looked up is a partial map or a total function with Go's zero value. A method reads
  the clock once, as an argument. Bytes from \<open>crypto/rand\<close> are a stream in the store, and the
  success of a disk write is a flag of the state. Formatted text is kept as its format and
  arguments. What is broadcast, notified or posted is appended to a list in the state. A Go panic is
  \<open>None\<close>. A JSON-lines file is the list of its decoded lines, \<open>None\<close> for a torn one. Fields no
  modelled code reads are omitted from the records. Every loop of the modelled code ranges over a
  finite list and is a structural recursion, or, for the chunking of a buffer, a recursion with a
  measure, so no fuel is used anywhere.

  \<^bold>\<open>Parameters.\<close> Network probes, parsing by \<open>net/netip\<close> and \<open>net/url\<close>, the GeoIP and tailnet lookups,
  which agents hold a socket, what an agent answers and the webhook POST are arguments of the
  definitions that use them.

  \<^bold>\<open>Not modelled.\<close> Byte pipes (terminals, SSH), the HTTP handlers, the plugin interpreter, the
  WireGuard device and everything on the agent that reads \<^verbatim>\<open>/proc\<close> or runs host programs. Mutexes
  are read as atomicity of the method that holds them.
\<close>

end
